(* ===== verification/Bridge_Prelude.thy ===== *)
theory Bridge_Prelude
  imports Main "HOL-Library.Word" "HOL-Library.Multiset"
begin

text \<open>
  The prelude of the development: the Go notions every component shares.

  \<^item> \<open>exec\<close> is what running a Go function can do: finish with a value, panic, or block for
    ever on a channel operation. \<open>exec_bind\<close> is sequencing.
  \<^item> A Go result \<open>(T, error)\<close> is \<open>goerror + 'a\<close>; a Go result \<open>error\<close> is \<open>goerror option\<close>,
    with \<open>None\<close> for nil. An error is its \<open>Error()\<close> text.
  \<^item> \<open>byte\<close>, \<open>u64\<close> and \<open>i64\<close> are machine words; \<open>i64\<close> values are read with \<open>sint\<close>.
\<close>

named_theorems handler_defs \<open>definitions of the operations, unfolded by a component's own proofs\<close>
named_theorems wf_intros \<open>preservation lemmas of the well-formedness invariants\<close>

type_synonym byte = "8 word"
type_synonym bytes = "byte list"
type_synonym u64 = "64 word"
type_synonym i64 = "64 word"
type_synonym goerror = string

section \<open>Running Go code\<close>

datatype 'a exec = Done 'a | Panic string | Block

fun exec_bind :: "'a exec \<Rightarrow> ('a \<Rightarrow> 'b exec) \<Rightarrow> 'b exec" where
  "exec_bind (Done x) f = f x"
| "exec_bind (Panic m) f = Panic m"
| "exec_bind Block f = Block"

lemma exec_bind_Done [simp]: "exec_bind m Done = m"
  by (cases m) simp_all

lemma exec_bind_assoc: "exec_bind (exec_bind m f) g = exec_bind m (\<lambda>x. exec_bind (f x) g)"
  by (cases m) simp_all

lemma exec_bind_eq_Done_iff:
  "exec_bind m f = Done y \<longleftrightarrow> (\<exists>x. m = Done x \<and> f x = Done y)"
  by (cases m) simp_all

text \<open>Sequencing a Go call that returns a value or an error.\<close>

lemma exec_bind_sum_Done_iff:
  "exec_bind m (case_sum f g) = Done y \<longleftrightarrow>
     (\<exists>a. m = Done (Inl a) \<and> f a = Done y) \<or> (\<exists>b. m = Done (Inr b) \<and> g b = Done y)"
proof (cases m)
  case (Done r)
  then show ?thesis by (cases r) simp_all
qed simp_all

lemma case_sum_eq_iff:
  "case_sum f g x = y \<longleftrightarrow> (\<exists>a. x = Inl a \<and> f a = y) \<or> (\<exists>b. x = Inr b \<and> g b = y)"
  by (cases x) simp_all

lemma exec_bind_eq_Panic_iff:
  "exec_bind m f = Panic e \<longleftrightarrow> m = Panic e \<or> (\<exists>x. m = Done x \<and> f x = Panic e)"
  by (cases m) simp_all

lemma exec_bind_eq_Block_iff:
  "exec_bind m f = Block \<longleftrightarrow> m = Block \<or> (\<exists>x. m = Done x \<and> f x = Block)"
  by (cases m) simp_all

lemma exec_bind_cong [fundef_cong]:
  "m = m' \<Longrightarrow> (\<And>x. m' = Done x \<Longrightarrow> f x = g x) \<Longrightarrow> exec_bind m f = exec_bind m' g"
  by (cases m') simp_all

text \<open>Every value a piece of code finishes with satisfies \<open>P\<close>.\<close>

definition yields :: "('a \<Rightarrow> bool) \<Rightarrow> 'a exec \<Rightarrow> bool" where
  "yields P m \<longleftrightarrow> (\<forall>x. m = Done x \<longrightarrow> P x)"

lemma yields_simps [simp]:
  "yields P (Done x) = P x" "yields P (Panic e)" "yields P Block"
  "yields P (exec_bind m f) \<longleftrightarrow> (\<forall>x. m = Done x \<longrightarrow> yields P (f x))"
  by (cases m; simp add: yields_def)+

lemma yieldsD: "yields P m \<Longrightarrow> m = Done x \<Longrightarrow> P x"
  by (simp add: yields_def)

lemma yieldsI: "(\<And>x. m = Done x \<Longrightarrow> P x) \<Longrightarrow> yields P m"
  by (simp add: yields_def)

text \<open>A value of a third-party constructor that panics on bad input, as \<open>'a option\<close>.\<close>

definition or_panic :: "string \<Rightarrow> 'a option \<Rightarrow> 'a exec" where
  "or_panic msg v = (case v of None \<Rightarrow> Panic msg | Some x \<Rightarrow> Done x)"

lemma or_panic_simps [simp]:
  "or_panic msg (Some x) = Done x"
  "or_panic msg None = Panic msg"
  by (simp_all add: or_panic_def)

lemma or_panic_eq_Done_iff [simp]: "or_panic msg v = Done x \<longleftrightarrow> v = Some x"
  by (cases v) simp_all

lemma or_panic_not_Block [simp]: "or_panic msg v \<noteq> Block"
  by (cases v) simp_all

text \<open>Folding a Go \<open>for range\<close> loop whose body may panic or block.\<close>

fun exec_fold :: "('a \<Rightarrow> 's \<Rightarrow> 's exec) \<Rightarrow> 'a list \<Rightarrow> 's \<Rightarrow> 's exec" where
  "exec_fold f [] s = Done s"
| "exec_fold f (x # xs) s = exec_bind (f x s) (exec_fold f xs)"

lemma exec_fold_append:
  "exec_fold f (xs @ ys) s = exec_bind (exec_fold f xs s) (exec_fold f ys)"
proof (induction xs arbitrary: s)
  case Nil
  show ?case by simp
next
  case (Cons x xs)
  then show ?case by (cases "f x s") simp_all
qed

lemma exec_fold_invariant:
  assumes "\<And>x s s'. x \<in> set xs \<Longrightarrow> I s \<Longrightarrow> f x s = Done s' \<Longrightarrow> I s'"
    and "I s" and "exec_fold f xs s = Done s'"
  shows "I s'"
  using assms
proof (induction xs arbitrary: s)
  case Nil
  then show ?case by simp
next
  case (Cons x xs)
  from Cons.prems(3) obtain s1 where s1: "f x s = Done s1" and rest: "exec_fold f xs s1 = Done s'"
    by (auto simp: exec_bind_eq_Done_iff)
  have "I s1" using Cons.prems(1)[of x s s1] Cons.prems(2) s1 by simp
  moreover have "\<And>y t t'. y \<in> set xs \<Longrightarrow> I t \<Longrightarrow> f y t = Done t' \<Longrightarrow> I t'"
    using Cons.prems(1) by (meson list.set_intros(2))
  ultimately show ?case using rest Cons.IH by blast
qed

lemma exec_fold_skip:
  assumes "\<And>x. x \<in> set xs \<Longrightarrow> f x s = Done s"
  shows "exec_fold f xs s = Done s"
  using assms by (induction xs) simp_all

section \<open>Signed 64-bit integers\<close>

abbreviation int64_max :: i64 where "int64_max \<equiv> 9223372036854775807"

lemma sint_int64_max: "sint int64_max = 2 ^ 63 - 1"
  by simp

lemma sint_le_int64_max: "sint (x :: i64) \<le> sint int64_max"
  using sint_lt [of x] by simp

lemma sint_diff_small:
  fixes a b :: i64
  assumes "- (2 ^ 63) \<le> sint a - sint b" and "sint a - sint b < 2 ^ 63"
  shows "sint (a - b) = sint a - sint b"
  using assms by (simp add: sint_word_ariths signed_take_bit_int_eq_self)

section \<open>Lists\<close>

lemma replicate_append_take_drop:
  "length xs = m + n \<Longrightarrow> take m xs @ drop m xs = xs"
  by simp

end
