(* ===== verification/Go_Codec.thy ===== *)
theory Go_Codec
  imports Bridge_Prelude
begin

text \<open>
  The parts of Go's standard library that turn data into text or bytes and back, as the
  bridge uses them: \<open>encoding/hex\<close>, \<open>encoding/base64\<close> (\<open>StdEncoding\<close>), \<open>math/big\<close>
  (\<open>Bytes\<close>, \<open>SetBytes\<close>) and \<open>strconv\<close> (\<open>FormatInt\<close>, \<open>ParseInt\<close>). The locale \<open>go_codec\<close> is
  the contract their clients rely on, an encoder with a decoder that undoes it; each
  codec is an interpretation of it.
\<close>

section \<open>The contract of a codec\<close>

locale go_codec =
  fixes enc :: "'a \<Rightarrow> 'b" and dec :: "'b \<Rightarrow> 'a option" and dom_ok :: "'a \<Rightarrow> bool"
  assumes dec_enc: "dom_ok x \<Longrightarrow> dec (enc x) = Some x"
begin

lemma enc_inj: "dom_ok x \<Longrightarrow> dom_ok y \<Longrightarrow> enc x = enc y \<longleftrightarrow> x = y"
  by (metis dec_enc option.inject)

lemma dec_enc_the: "dom_ok x \<Longrightarrow> the (dec (enc x)) = x"
  by (simp add: dec_enc)

lemma enc_not_rejected: "dom_ok x \<Longrightarrow> dec (enc x) \<noteq> None"
  by (simp add: dec_enc)

end

section \<open>encoding/hex\<close>

definition hextable :: string where
  "hextable = ''0123456789abcdef''"

definition hex_char :: "nat \<Rightarrow> char" where
  "hex_char n = hextable ! n"

fun hex_EncodeToString :: "bytes \<Rightarrow> string" where
  "hex_EncodeToString [] = []"
| "hex_EncodeToString (b # bs) =
     hex_char (unat b div 16) # hex_char (unat b mod 16) # hex_EncodeToString bs"

definition fromHexChar :: "char \<Rightarrow> nat option" where
  "fromHexChar c =
     (let n = (of_char c :: nat)
      in if 48 \<le> n \<and> n \<le> 57 then Some (n - 48)
         else if 97 \<le> n \<and> n \<le> 102 then Some (n - 97 + 10)
         else if 65 \<le> n \<and> n \<le> 70 then Some (n - 65 + 10)
         else None)"

fun hex_DecodeString :: "string \<Rightarrow> bytes option" where
  "hex_DecodeString [] = Some []"
| "hex_DecodeString [c] = None"
| "hex_DecodeString (c # d # s) =
     (case (fromHexChar c, fromHexChar d) of
        (Some a, Some b) \<Rightarrow>
          map_option (\<lambda>bs. word_of_nat (a * 16 + b) # bs) (hex_DecodeString s)
      | _ \<Rightarrow> None)"

lemma nat_lt_16_cases:
  "(n::nat) < 16 \<Longrightarrow> n \<in> {0,1,2,3,4,5,6,7,8,9,10,11,12,13,14,15}"
  unfolding insert_iff empty_iff by presburger

lemma fromHexChar_hex_char: "n < 16 \<Longrightarrow> fromHexChar (hex_char n) = Some n"
  by (drule nat_lt_16_cases) (auto simp: hex_char_def hextable_def fromHexChar_def)

lemma byte_div_16: "unat (b :: byte) div 16 < 16"
  using unsigned_less [of b, where ?'a = nat] by (simp add: less_mult_imp_div_less)

lemma byte_of_nat_unat [simp]: "word_of_nat (unat (b :: byte)) = b"
  by simp

lemma hex_DecodeString_EncodeToString: "hex_DecodeString (hex_EncodeToString bs) = Some bs"
proof (induction bs)
  case Nil
  show ?case by simp
next
  case (Cons b bs)
  have "unat b div 16 * 16 + unat b mod 16 = unat b"
    by (rule div_mult_mod_eq)
  then have "word_of_nat (unat b div 16 * 16 + unat b mod 16) = b"
    by simp
  with Cons show ?case
    by (simp add: fromHexChar_hex_char byte_div_16)
qed

lemma length_hex_EncodeToString: "length (hex_EncodeToString bs) = 2 * length bs"
  by (induction bs) simp_all

interpretation hex: go_codec hex_EncodeToString hex_DecodeString "\<lambda>_. True"
  by unfold_locales (rule hex_DecodeString_EncodeToString)

section \<open>math/big: magnitude bytes\<close>

text \<open>\<open>SetBytes\<close> reads a big-endian magnitude; \<open>Bytes\<close> writes the shortest one.\<close>

definition big_SetBytes :: "bytes \<Rightarrow> nat" where
  "big_SetBytes bs = foldl (\<lambda>acc b. acc * 256 + unat b) 0 bs"

fun big_Bytes :: "nat \<Rightarrow> bytes" where
  "big_Bytes n = (if n = 0 then [] else big_Bytes (n div 256) @ [word_of_nat (n mod 256)])"

declare big_Bytes.simps [simp del]

lemma big_Bytes_0 [simp]: "big_Bytes 0 = []"
  by (simp add: big_Bytes.simps)

lemma big_SetBytes_Nil [simp]: "big_SetBytes [] = 0"
  by (simp add: big_SetBytes_def)

lemma big_SetBytes_snoc [simp]: "big_SetBytes (bs @ [b]) = big_SetBytes bs * 256 + unat b"
  by (simp add: big_SetBytes_def)

lemma unat_byte_of_mod [simp]: "unat (word_of_nat (n mod 256) :: byte) = n mod 256"
  by (simp add: unsigned_of_nat take_bit_eq_mod)

lemma big_SetBytes_Bytes [simp]: "big_SetBytes (big_Bytes n) = n"
proof (induction n rule: big_Bytes.induct)
  case (1 n)
  show ?case
  proof (cases "n = 0")
    case True
    then show ?thesis by simp
  next
    case False
    then have "big_SetBytes (big_Bytes n) = n div 256 * 256 + n mod 256"
      using "1.IH" by (subst big_Bytes.simps) simp
    then show ?thesis by simp
  qed
qed

lemma length_big_Bytes_le: "n < 256 ^ k \<Longrightarrow> length (big_Bytes n) \<le> k"
proof (induction n arbitrary: k rule: big_Bytes.induct)
  case (1 n)
  show ?case
  proof (cases "n = 0")
    case True
    then show ?thesis by simp
  next
    case False
    with "1.prems" obtain j where k: "k = Suc j" by (cases k) auto
    with "1.prems" have "n div 256 < 256 ^ j" by (simp add: less_mult_imp_div_less)
    with "1.IH"[OF False, of j] False k show ?thesis
      by (subst big_Bytes.simps) simp
  qed
qed

lemma length_big_Bytes_gt: "256 ^ k \<le> n \<Longrightarrow> k < length (big_Bytes n)"
proof (induction n arbitrary: k rule: big_Bytes.induct)
  case (1 n)
  have n: "n \<noteq> 0" using "1.prems" by (metis not_less power_eq_0_iff rel_simps(76) zero_less_iff_neq_zero zero_neq_numeral le_zero_eq)
  show ?case
  proof (cases k)
    case 0
    with n show ?thesis by (subst big_Bytes.simps) simp
  next
    case (Suc j)
    with "1.prems" have "256 ^ j \<le> n div 256"
      by (simp add: less_eq_div_iff_mult_less_eq mult.commute)
    with "1.IH"[OF n, of j] n Suc show ?thesis
      by (subst big_Bytes.simps) simp
  qed
qed

lemma big_SetBytes_append:
  "big_SetBytes (xs @ ys) = big_SetBytes xs * 256 ^ length ys + big_SetBytes ys"
proof (induction ys rule: rev_induct)
  case Nil
  show ?case by simp
next
  case (snoc y ys)
  then show ?case
    by (simp flip: append_assoc add: algebra_simps)
qed

lemma big_SetBytes_zeros [simp]: "big_SetBytes (replicate k 0) = 0"
  by (induction k) (simp_all flip: replicate_append_same)

lemma big_SetBytes_pad [simp]: "big_SetBytes (replicate k 0 @ bs) = big_SetBytes bs"
  by (simp add: big_SetBytes_append)

lemma big_SetBytes_bound: "big_SetBytes bs < 256 ^ length bs"
proof (induction bs rule: rev_induct)
  case Nil
  show ?case by simp
next
  case (snoc b bs)
  have "unat b < 256" using unsigned_less [of b, where ?'a = nat] by simp
  with snoc have "big_SetBytes bs * 256 + unat b < (big_SetBytes bs + 1) * 256" by simp
  also have "\<dots> \<le> 256 ^ length bs * 256"
    using snoc by (intro mult_le_mono1) simp
  finally show ?case by (simp add: mult.commute)
qed

interpretation big: go_codec big_Bytes "\<lambda>bs. Some (big_SetBytes bs)" "\<lambda>_. True"
  by unfold_locales simp

end
