(* ===== verification/Go_Text.thy ===== *)
theory Go_Text
  imports Go_Codec
begin

text \<open>
  More of Go's standard library: \<open>encoding/base64\<close> with \<open>StdEncoding\<close> (padding, line
  breaks ignored by the decoder, trailing bits not checked), the decimal integers of
  \<open>strconv\<close>, and \<open>strings.ToLower\<close> on ASCII text.
\<close>

section \<open>encoding/base64\<close>

definition b64_alphabet :: string where
  "b64_alphabet = ''ABCDEFGHIJKLMNOPQRSTUVWXYZabcdefghijklmnopqrstuvwxyz0123456789+/''"

definition b64_char :: "nat \<Rightarrow> char" where
  "b64_char n = b64_alphabet ! n"

definition b64_val :: "char \<Rightarrow> nat option" where
  "b64_val c =
     (let n = (of_char c :: nat)
      in if 65 \<le> n \<and> n \<le> 90 then Some (n - 65)
         else if 97 \<le> n \<and> n \<le> 122 then Some (n - 97 + 26)
         else if 48 \<le> n \<and> n \<le> 57 then Some (n - 48 + 52)
         else if n = 43 then Some 62
         else if n = 47 then Some 63
         else None)"

fun b64_enc :: "bytes \<Rightarrow> string" where
  "b64_enc [] = []"
| "b64_enc [a] =
     [b64_char (unat a div 4), b64_char (unat a mod 4 * 16), CHR ''='', CHR ''='']"
| "b64_enc [a, b] =
     [b64_char (unat a div 4), b64_char (unat a mod 4 * 16 + unat b div 16),
      b64_char (unat b mod 16 * 4), CHR ''='']"
| "b64_enc (a # b # c # bs) =
     b64_char (unat a div 4) # b64_char (unat a mod 4 * 16 + unat b div 16)
       # b64_char (unat b mod 16 * 4 + unat c div 64) # b64_char (unat c mod 64) # b64_enc bs"

definition base64_EncodeToString :: "bytes \<Rightarrow> string" where
  "base64_EncodeToString bs = b64_enc bs"

text \<open>The bytes a quantum of two, three or four sextets stands for.\<close>

definition quantum_bytes :: "nat \<Rightarrow> nat \<Rightarrow> nat \<Rightarrow> nat \<Rightarrow> bytes" where
  "quantum_bytes p q r s =
     [word_of_nat (p * 4 + q div 16), word_of_nat (q mod 16 * 16 + r div 4),
      word_of_nat (r mod 4 * 64 + s)]"

fun b64_dec :: "string \<Rightarrow> bytes option" where
  "b64_dec [] = Some []"
| "b64_dec [c] = None"
| "b64_dec [c, d] = None"
| "b64_dec [c, d, e] = None"
| "b64_dec (c # d # e # f # s) =
     (case (b64_val c, b64_val d) of
        (Some p, Some q) \<Rightarrow>
          (if e = CHR ''='' then
             if f = CHR ''='' \<and> s = [] then Some (take 1 (quantum_bytes p q 0 0)) else None
           else case b64_val e of
             None \<Rightarrow> None
           | Some r \<Rightarrow>
               if f = CHR ''='' then
                 if s = [] then Some (take 2 (quantum_bytes p q r 0)) else None
               else case b64_val f of
                 None \<Rightarrow> None
               | Some t \<Rightarrow> map_option ((@) (quantum_bytes p q r t)) (b64_dec s))
      | _ \<Rightarrow> None)"

definition base64_DecodeString :: "string \<Rightarrow> bytes option" where
  "base64_DecodeString s = b64_dec (filter (\<lambda>c. c \<noteq> CHR 0x0A \<and> c \<noteq> CHR 0x0D) s)"

lemma b64_table:
  "list_all (\<lambda>n. b64_val (b64_char n) = Some n \<and> b64_char n \<noteq> CHR ''=''
     \<and> b64_char n \<noteq> CHR 0x0A \<and> b64_char n \<noteq> CHR 0x0D) [0..<64]"
  by (simp add: upt_conv_Cons b64_val_def b64_char_def b64_alphabet_def)

lemma b64_char_facts:
  assumes "n < 64"
  shows "b64_val (b64_char n) = Some n" and "b64_char n \<noteq> CHR ''=''"
    and "b64_char n \<noteq> CHR 0x0A" and "b64_char n \<noteq> CHR 0x0D"
proof -
  have "n \<in> set [0..<64]" using assms by simp
  with b64_table show "b64_val (b64_char n) = Some n" and "b64_char n \<noteq> CHR ''=''"
    and "b64_char n \<noteq> CHR 0x0A" and "b64_char n \<noteq> CHR 0x0D"
    unfolding list_all_iff by blast+
qed

lemma byte_lt_256: "unat (b :: byte) < 256"
  using unsigned_less [of b, where ?'a = nat] by simp

lemma div_byte_bounds:
  fixes b :: byte
  shows "unat b div 4 < 64" and "unat b div 16 < 16" and "unat b div 64 < 4"
  using byte_lt_256 [of b] by (simp_all add: less_mult_imp_div_less)

lemma sextet_bounds:
  fixes a b c :: byte
  shows "unat a div 4 < 64" and "unat a mod 4 * 16 < 64"
    and "unat a mod 4 * 16 + unat b div 16 < 64"
    and "unat b mod 16 * 4 < 64" and "unat b mod 16 * 4 + unat c div 64 < 64"
proof -
  have "unat a mod 4 < 4" and "unat b mod 16 < 16" by simp_all
  with div_byte_bounds [of a] div_byte_bounds [of b] div_byte_bounds [of c]
  show "unat a div 4 < 64" and "unat a mod 4 * 16 < 64"
    and "unat a mod 4 * 16 + unat b div 16 < 64"
    and "unat b mod 16 * 4 < 64" and "unat b mod 16 * 4 + unat c div 64 < 64"
    by linarith+
qed

lemma quantum_bytes_encoded:
  fixes a b c :: byte
  shows "quantum_bytes (unat a div 4) (unat a mod 4 * 16 + unat b div 16)
           (unat b mod 16 * 4 + unat c div 64) (unat c mod 64) = [a, b, c]"
proof -
  have q: "(unat a mod 4 * 16 + unat b div 16) div 16 = unat a mod 4"
      "(unat a mod 4 * 16 + unat b div 16) mod 16 = unat b div 16"
    using div_byte_bounds(2) [of b] by simp_all
  have r: "(unat b mod 16 * 4 + unat c div 64) div 4 = unat b mod 16"
      "(unat b mod 16 * 4 + unat c div 64) mod 4 = unat c div 64"
    using div_byte_bounds(3) [of c] by simp_all
  show ?thesis
    by (simp only: quantum_bytes_def q r div_mult_mod_eq byte_of_nat_unat)
qed

lemmas b64_roundtrip_facts = b64_char_facts sextet_bounds quantum_bytes_encoded

lemma b64_dec_enc: "b64_dec (b64_enc bs) = Some bs"
proof (induction bs rule: b64_enc.induct)
  case (2 a)
  show ?case
    using quantum_bytes_encoded [of a 0 0] by (simp add: b64_char_facts sextet_bounds)
next
  case (3 a b)
  show ?case
    using quantum_bytes_encoded [of a b 0] by (simp add: b64_char_facts sextet_bounds)
next
  case (4 a b c bs)
  then show ?case by (simp add: b64_roundtrip_facts)
qed simp

lemma b64_enc_no_newline: "c \<in> set (b64_enc bs) \<Longrightarrow> c \<noteq> CHR 0x0A \<and> c \<noteq> CHR 0x0D"
  by (induction bs rule: b64_enc.induct) (auto simp: b64_char_facts sextet_bounds)

lemma base64_DecodeString_EncodeToString:
  "base64_DecodeString (base64_EncodeToString bs) = Some bs"
proof -
  have "filter (\<lambda>c. c \<noteq> CHR 0x0A \<and> c \<noteq> CHR 0x0D) (b64_enc bs) = b64_enc bs"
    by (rule filter_True) (blast dest: b64_enc_no_newline)
  then show ?thesis
    by (simp add: base64_DecodeString_def base64_EncodeToString_def b64_dec_enc)
qed

interpretation base64: go_codec base64_EncodeToString base64_DecodeString "\<lambda>_. True"
  by unfold_locales (rule base64_DecodeString_EncodeToString)

section \<open>strconv: decimal 64-bit integers\<close>

definition digit_char :: "nat \<Rightarrow> char" where
  "digit_char d = ''0123456789'' ! d"

definition digit_val :: "char \<Rightarrow> nat option" where
  "digit_val c =
     (let n = (of_char c :: nat) in if 48 \<le> n \<and> n \<le> 57 then Some (n - 48) else None)"

fun nat_digits :: "nat \<Rightarrow> string" where
  "nat_digits n = (if n < 10 then [digit_char n] else nat_digits (n div 10) @ [digit_char (n mod 10)])"

declare nat_digits.simps [simp del]

definition FormatInt :: "i64 \<Rightarrow> string" where
  "FormatInt x =
     (if sint x < 0 then CHR ''-'' # nat_digits (nat (- sint x)) else nat_digits (nat (sint x)))"

fun digits_val :: "nat \<Rightarrow> string \<Rightarrow> nat option" where
  "digits_val acc [] = Some acc"
| "digits_val acc (c # s) =
     (case digit_val c of None \<Rightarrow> None | Some d \<Rightarrow> digits_val (acc * 10 + d) s)"

text \<open>
  \<open>ParseInt(s, 10, 64)\<close>: an optional sign, at least one digit, and a value that fits.
  The two errors of Go, \<open>ErrSyntax\<close> and \<open>ErrRange\<close>, are one \<open>None\<close> here: the bridge
  passes the error on without looking at it.
\<close>

definition ParseInt :: "string \<Rightarrow> i64 option" where
  "ParseInt s =
     (let neg = (case s of [] \<Rightarrow> False | c # _ \<Rightarrow> c = CHR ''-'');
          ds = (case s of [] \<Rightarrow> [] | c # r \<Rightarrow> if c = CHR ''-'' \<or> c = CHR ''+'' then r else s)
      in if ds = [] then None
         else case digits_val 0 ds of
           None \<Rightarrow> None
         | Some n \<Rightarrow>
             if neg then (if n \<le> 2 ^ 63 then Some (word_of_int (- int n)) else None)
             else (if n < 2 ^ 63 then Some (word_of_int (int n)) else None))"

lemma digit_val_char: "d < 10 \<Longrightarrow> digit_val (digit_char d) = Some d"
proof -
  assume "d < 10"
  then have "d \<in> {0, 1, 2, 3, 4, 5, 6, 7, 8, 9}" unfolding insert_iff empty_iff by presburger
  then show ?thesis by (auto simp: digit_char_def digit_val_def)
qed

lemma digits_val_append:
  "digits_val acc (s @ t) =
     (case digits_val acc s of None \<Rightarrow> None | Some n \<Rightarrow> digits_val n t)"
  by (induction s arbitrary: acc) (auto split: option.splits)

lemma digits_val_nat_digits: "digits_val 0 (nat_digits n) = Some n"
proof (induction n rule: nat_digits.induct)
  case (1 n)
  show ?case
  proof (cases "n < 10")
    case True
    then show ?thesis by (subst nat_digits.simps) (simp add: digit_val_char)
  next
    case False
    with "1.IH" show ?thesis
      by (subst nat_digits.simps) (simp add: digits_val_append digit_val_char)
  qed
qed

lemma nat_digits_nonempty: "nat_digits n \<noteq> []"
  by (subst nat_digits.simps) simp

lemma nat_digits_digit: "c \<in> set (nat_digits n) \<Longrightarrow> \<exists>d < 10. c = digit_char d"
proof (induction n rule: nat_digits.induct)
  case (1 n)
  then show ?case
    by (cases "n < 10") (force simp: nat_digits.simps [of n])+
qed

lemma nat_digits_hd_not_sign: "hd (nat_digits n) \<noteq> CHR ''-'' \<and> hd (nat_digits n) \<noteq> CHR ''+''"
proof -
  obtain d where d: "d < 10" "hd (nat_digits n) = digit_char d"
    using nat_digits_digit [of "hd (nat_digits n)" n] nat_digits_nonempty [of n] by auto
  have "digit_val (hd (nat_digits n)) = Some d" using d by (simp add: digit_val_char)
  then show ?thesis by (auto simp: digit_val_def)
qed

lemma ParseInt_FormatInt: "ParseInt (FormatInt x) = Some x"
proof (cases "sint x < 0")
  case True
  have "- (2 ^ 63) \<le> sint x" using sint_ge [of x] by simp
  then have "nat (- sint x) \<le> 2 ^ 63" by simp
  moreover have "word_of_int (- int (nat (- sint x))) = x" using True by simp
  ultimately show ?thesis
    using True
    by (simp add: FormatInt_def ParseInt_def nat_digits_nonempty digits_val_nat_digits)
next
  case False
  have "sint x < 2 ^ 63" using sint_lt [of x] by simp
  then have lt: "nat (sint x) < 2 ^ 63" using False by simp
  obtain c s where cs: "nat_digits (nat (sint x)) = c # s"
    using nat_digits_nonempty by (cases "nat_digits (nat (sint x))") auto
  then have "c \<noteq> CHR ''-''" and "c \<noteq> CHR ''+''"
    using nat_digits_hd_not_sign [of "nat (sint x)"] by auto
  moreover have "digits_val 0 (c # s) = Some (nat (sint x))"
    using digits_val_nat_digits [of "nat (sint x)"] cs by simp
  ultimately show ?thesis
    using False lt cs by (simp add: FormatInt_def ParseInt_def)
qed

interpretation strconv: go_codec FormatInt ParseInt "\<lambda>_. True"
  by unfold_locales (rule ParseInt_FormatInt)

section \<open>strings.ToLower\<close>

definition char_to_lower :: "char \<Rightarrow> char" where
  "char_to_lower c =
     (let n = (of_char c :: nat) in if 65 \<le> n \<and> n \<le> 90 then char_of (n + 32) else c)"

definition strings_ToLower :: "string \<Rightarrow> string" where
  "strings_ToLower s = map char_to_lower s"

lemma char_to_lower_hex_char: "n < 16 \<Longrightarrow> char_to_lower (hex_char n) = hex_char n"
  by (drule nat_lt_16_cases) (auto simp: hex_char_def hextable_def char_to_lower_def)

lemma strings_ToLower_hex [simp]: "strings_ToLower (hex_EncodeToString bs) = hex_EncodeToString bs"
  by (induction bs) (simp_all add: strings_ToLower_def char_to_lower_hex_char byte_div_16)

end
