(* ===== verification/Go_Sync.thy ===== *)
theory Go_Sync
  imports Bridge_Prelude "HOL-Library.AList"
begin

text \<open>
  \<open>sync.Map\<close> and bounded channels. A \<open>sync.Map\<close> is the list of its entries in the order
  in which \<open>Range\<close> visits them, one entry per key; Go leaves that order open, so results
  about loops over a map are proved for every reordering of the entries. The locale
  \<open>go_map\<close> is the contract of \<open>Load\<close>, \<open>Store\<close> and \<open>Delete\<close> that the components use.
\<close>

section \<open>sync.Map\<close>

type_synonym ('k, 'v) syncmap = "('k \<times> 'v) list"

definition sm_Load :: "'k \<Rightarrow> ('k, 'v) syncmap \<Rightarrow> 'v option" where
  "sm_Load k m = map_of m k"

definition sm_Store :: "'k \<Rightarrow> 'v \<Rightarrow> ('k, 'v) syncmap \<Rightarrow> ('k, 'v) syncmap" where
  "sm_Store k v m = AList.update k v m"

definition sm_Delete :: "'k \<Rightarrow> ('k, 'v) syncmap \<Rightarrow> ('k, 'v) syncmap" where
  "sm_Delete k m = AList.delete k m"

definition sm_LoadAndDelete ::
    "'k \<Rightarrow> ('k, 'v) syncmap \<Rightarrow> 'v option \<times> ('k, 'v) syncmap" where
  "sm_LoadAndDelete k m = (map_of m k, AList.delete k m)"

definition sm_wf :: "('k, 'v) syncmap \<Rightarrow> bool" where
  "sm_wf m \<longleftrightarrow> distinct (map fst m)"

text \<open>The keys a \<open>Range\<close> loop collects whose value satisfies a test, in visiting order.\<close>

definition sm_Range_select :: "('v \<Rightarrow> bool) \<Rightarrow> ('k, 'v) syncmap \<Rightarrow> 'k list" where
  "sm_Range_select p m = map fst (filter (\<lambda>(k, v). p v) m)"

locale go_map =
  fixes load :: "'k \<Rightarrow> 'm \<Rightarrow> 'v option" and store :: "'k \<Rightarrow> 'v \<Rightarrow> 'm \<Rightarrow> 'm"
    and del :: "'k \<Rightarrow> 'm \<Rightarrow> 'm" and wf :: "'m \<Rightarrow> bool"
  assumes load_store: "load j (store k v m) = (if j = k then Some v else load j m)"
    and load_del: "load j (del k m) = (if j = k then None else load j m)"
    and wf_store: "wf m \<Longrightarrow> wf (store k v m)"
    and wf_del: "wf m \<Longrightarrow> wf (del k m)"
begin

lemma load_fold_del: "load j (fold del ks m) = (if j \<in> set ks then None else load j m)"
  by (induction ks arbitrary: m) (auto simp: load_del)

lemma wf_fold_del: "wf m \<Longrightarrow> wf (fold del ks m)"
  by (induction ks arbitrary: m) (auto simp: wf_del)

lemma store_store_load: "load j (store k v (store k w m)) = load j (store k v m)"
  by (simp add: load_store)

lemma del_after_store: "load j (del k (store k v m)) = load j (del k m)"
  by (simp add: load_store load_del)

end

interpretation sm: go_map sm_Load sm_Store sm_Delete sm_wf
  by unfold_locales
    (simp_all add: sm_Load_def sm_Store_def sm_Delete_def sm_wf_def
       update_conv' delete_conv' distinct_update distinct_delete)

lemma sm_LoadAndDelete_eq: "sm_LoadAndDelete k m = (sm_Load k m, sm_Delete k m)"
  by (simp add: sm_LoadAndDelete_def sm_Load_def sm_Delete_def)

lemma sm_wf_Nil [simp]: "sm_wf []"
  by (simp add: sm_wf_def)

lemma sm_Load_Nil [simp]: "sm_Load k [] = None"
  by (simp add: sm_Load_def)

lemma sm_Load_eq_Some_iff: "sm_wf m \<Longrightarrow> sm_Load k m = Some v \<longleftrightarrow> (k, v) \<in> set m"
  by (simp add: sm_Load_def sm_wf_def)

lemma sm_Load_eq_None_iff: "sm_Load k m = None \<longleftrightarrow> k \<notin> fst ` set m"
  by (simp add: sm_Load_def map_of_eq_None_iff)

lemma set_sm_Delete: "set (sm_Delete k m) = {e \<in> set m. fst e \<noteq> k}"
  by (auto simp: sm_Delete_def AList.delete_eq)

lemma set_sm_Store: "sm_wf m \<Longrightarrow> set (sm_Store k v m) = insert (k, v) {e \<in> set m. fst e \<noteq> k}"
proof -
  assume wf: "sm_wf m"
  have "(j, w) \<in> set (sm_Store k v m) \<longleftrightarrow> (j, w) \<in> insert (k, v) {e \<in> set m. fst e \<noteq> k}" for j w
    using sm_Load_eq_Some_iff [OF sm.wf_store [OF wf, of k v], of j w]
      sm_Load_eq_Some_iff [OF wf, of j w] by (auto simp: sm.load_store split: if_splits)
  then show ?thesis by auto
qed

lemma in_sm_Range_select:
  "sm_wf m \<Longrightarrow> k \<in> set (sm_Range_select p m) \<longleftrightarrow> (\<exists>v. sm_Load k m = Some v \<and> p v)"
  by (force simp: sm_Range_select_def sm_Load_eq_Some_iff)

lemma sm_wf_perm: "mset m = mset m' \<Longrightarrow> sm_wf m \<longleftrightarrow> sm_wf m'"
  unfolding sm_wf_def by (metis mset_eq_imp_distinct_iff mset_map)

lemma sm_Load_perm: "sm_wf m \<Longrightarrow> mset m = mset m' \<Longrightarrow> sm_Load k m = sm_Load k m'"
  using sm_wf_perm [of m m'] mset_eq_setD [of m m'] sm_Load_eq_Some_iff [of m k]
    sm_Load_eq_Some_iff [of m' k] by (metis not_None_eq)

lemma delete_absent: "k \<notin> fst ` set m \<Longrightarrow> AList.delete k m = m"
  by (induction m) auto

text \<open>Deleting what a \<open>Range\<close> has selected leaves the rest.\<close>

lemma fold_sm_Delete: "fold sm_Delete ks m = filter (\<lambda>(k, v). k \<notin> set ks) m"
  by (induction ks arbitrary: m) (auto simp: sm_Delete_def AList.delete_eq intro!: filter_cong)

lemma sm_Delete_selected:
  assumes "sm_wf m"
  shows "fold sm_Delete (sm_Range_select p m) m = filter (\<lambda>(k, v). \<not> p v) m"
  unfolding fold_sm_Delete
proof (rule filter_cong [OF refl])
  fix kv assume kv: "kv \<in> set m"
  obtain k v where "kv = (k, v)" by (cases kv)
  then have "sm_Load k m = Some v" using kv assms by (simp add: sm_Load_eq_Some_iff)
  then show "(case kv of (k, v) \<Rightarrow> k \<notin> set (sm_Range_select p m)) = (case kv of (k, v) \<Rightarrow> \<not> p v)"
    using \<open>kv = (k, v)\<close> by (simp add: in_sm_Range_select [OF assms])
qed

lemma mset_sm_Delete:
  assumes "sm_wf m" and "sm_Load k m = Some v"
  shows "mset m = add_mset (k, v) (mset (sm_Delete k m))"
  using assms unfolding sm_wf_def sm_Load_def sm_Delete_def
proof (induction m)
  case (Cons e m)
  then show ?case using delete_absent [of k m] by (cases e) auto
qed simp

lemma sm_Delete_absent [simp]: "sm_Load k m = None \<Longrightarrow> sm_Delete k m = m"
  unfolding sm_Load_def sm_Delete_def by (induction m) (auto split: if_splits)

lemma mset_sm_Store:
  "sm_wf m \<Longrightarrow> mset (sm_Store k v m) = add_mset (k, v) (mset (sm_Delete k m))"
  unfolding sm_wf_def sm_Store_def sm_Delete_def
proof (induction m)
  case (Cons e m)
  then show ?case using delete_absent [of k m] by (cases e) auto
qed simp

section \<open>Channels\<close>

text \<open>
  The only receiver of the bridge's two channels is the goroutine that also sends on
  them, so a send on a full channel never returns: it is \<open>Block\<close>.
\<close>

type_synonym 'a chan = "'a list"

definition chan_send :: "nat \<Rightarrow> 'a \<Rightarrow> 'a chan \<Rightarrow> 'a chan exec" where
  "chan_send cap x c = (if length c < cap then Done (c @ [x]) else Block)"

fun chan_recv :: "'a chan \<Rightarrow> ('a \<times> 'a chan) option" where
  "chan_recv [] = None"
| "chan_recv (x # c) = Some (x, c)"

lemma chan_send_Done_iff: "chan_send cap x c = Done c' \<longleftrightarrow> length c < cap \<and> c' = c @ [x]"
  by (auto simp: chan_send_def)

lemma chan_send_Block_iff: "chan_send cap x c = Block \<longleftrightarrow> cap \<le> length c"
  by (auto simp: chan_send_def)

lemma chan_send_no_panic: "chan_send cap x c \<noteq> Panic e"
  by (simp add: chan_send_def)

end
