(* ===== verification/Bridge_Types.thy ===== *)
theory Bridge_Types
  imports Go_Text Go_Sync
begin

text \<open>
  The data the packages share, the constants of \<open>config/types.go\<close>, and \<open>ext\<close>: the
  third-party functions the bridge calls (cosmos-sdk, go-ethereum, btcec, the legacy
  bech32 codec). They are not part of the repository, so they are parameters: each
  operation that uses one takes an \<open>ext\<close>. What the code relies on of them is a named
  hypothesis, and \<open>sample_ext\<close> is a concrete instance on which the witnesses run.
\<close>

section \<open>Data of the vault module and of common/pool.go\<close>

type_synonym eth_address = bytes
type_synonym acc_address = bytes

text \<open>The vault module's pool, as far as the bridge reads it; \<open>CreatePool\<close> is a pointer.\<close>

record PoolProposal =
  PoolPubKey :: string
  PoolAddr :: acc_address
  Nodes :: "acc_address list"

record VaultPool =
  vp_BlockHeight :: string
  CreatePool :: "PoolProposal option"

record PoolInfo =
  Pk :: string
  JoltifyAddress :: acc_address
  EthAddress :: eth_address
  VaultInfo :: "VaultPool option"

text \<open>The \<open>lastTwoPools\<close> slice: it is made with length two and never resized.\<close>

type_synonym pool_pair = "PoolInfo option \<times> PoolInfo option"

record Coin =
  Denom :: string
  Amount :: int

section \<open>config/types.go\<close>

definition InBoundDenomFee :: string where "InBoundDenomFee = ''BNB''"
definition OutBoundDenomFee :: string where "OutBoundDenomFee = ''JOLT''"
definition InBoundFeeMin :: string where "InBoundFeeMin = ''0.00000000000000001''"
definition OUTBoundFeeOut :: string where "OUTBoundFeeOut = ''0.00000000000000001''"
definition InBoundDenom :: string where "InBoundDenom = ''JUSD''"
definition OutBoundDenom :: string where "OutBoundDenom = ''JUSD''"
definition TxTimeout :: u64 where "TxTimeout = 300"
definition GASFEERATIO :: string where "GASFEERATIO = ''1.5''"
definition DUSTBNB :: string where "DUSTBNB = ''0.0001''"
definition MINCHECKBLOCKGAP :: i64 where "MINCHECKBLOCKGAP = 6"

text \<open>\<open>reqCacheSize\<close>, the capacity of both request channels (pubchain and joltifybridge).\<close>

definition reqCacheSize :: nat where "reqCacheSize = 512"

lemmas config_defs = InBoundDenomFee_def OutBoundDenomFee_def InBoundFeeMin_def
  OUTBoundFeeOut_def InBoundDenom_def OutBoundDenom_def TxTimeout_def GASFEERATIO_def
  DUSTBNB_def MINCHECKBLOCKGAP_def

section \<open>Third-party functions\<close>

record ext =
  UnmarshalPubKey :: "string \<Rightarrow> goerror + bytes"
  PubKeyAddress :: "bytes \<Rightarrow> string"
  AccAddressFromHex :: "string \<Rightarrow> goerror + acc_address"
  AccAddressFromBech32 :: "string \<Rightarrow> goerror + acc_address"
  AccString :: "acc_address \<Rightarrow> string"
  ConsAddressFromHex :: "string \<Rightarrow> goerror + bytes"
  ConsAddressFromBech32 :: "string \<Rightarrow> goerror + bytes"
  ConsString :: "bytes \<Rightarrow> string"
  DecompressPubkey :: "bytes \<Rightarrow> goerror + bytes"
  PubkeyToAddress :: "bytes \<Rightarrow> eth_address"
  BytesToAddress :: "bytes \<Rightarrow> eth_address"
  ParsePubKey :: "bytes \<Rightarrow> goerror + bytes"
  SerializeCompressed :: "bytes \<Rightarrow> bytes"
  Ecrecover :: "bytes \<Rightarrow> bytes \<Rightarrow> goerror + bytes"
  EthHex :: "eth_address \<Rightarrow> string"
  HashHex :: "bytes \<Rightarrow> string"
  HexToHash :: "string \<Rightarrow> bytes"
  HashBig :: "bytes \<Rightarrow> nat"
  Keccak256Hash :: "bytes list \<Rightarrow> bytes"
  S256_N :: int
  NewDecFromStr :: "string \<Rightarrow> goerror + int"
  DecMul :: "int \<Rightarrow> int \<Rightarrow> int option"
  DecRoundInt64 :: "int \<Rightarrow> i64 option"
  DecFromUint64 :: "u64 \<Rightarrow> int"
  NewIntFromBigInt :: "int \<Rightarrow> int option"
  IntAdd :: "int \<Rightarrow> int \<Rightarrow> int option"
  NewCoin :: "string \<Rightarrow> int \<Rightarrow> Coin option"

text \<open>
  What the code relies on of the sdk's numbers. \<open>sdk.Int\<close> is a big integer of at most
  \<open>M\<close> bits (\<open>maxBitLen\<close>), whose constructors panic beyond them; \<open>sdk.Dec\<close> is an integer
  scaled by \<open>10^18\<close>, so the minimal fees parse to 10 and the dust limit to \<open>10^14\<close>.
\<close>

definition sdk_ok :: "nat \<Rightarrow> ext \<Rightarrow> bool" where
  "sdk_ok M e \<longleftrightarrow>
     8 \<le> M
     \<and> NewDecFromStr e ''0.00000000000000001'' = Inr 10
     \<and> NewDecFromStr e ''0.0001'' = Inr (10 ^ 14)
     \<and> NewDecFromStr e ''1.5'' = Inr (15 * 10 ^ 17)
     \<and> (\<forall>n. NewIntFromBigInt e n = (if \<bar>n\<bar> < 2 ^ M then Some n else None))
     \<and> (\<forall>a b. IntAdd e a b = (if \<bar>a + b\<bar> < 2 ^ M then Some (a + b) else None))
     \<and> (\<forall>n. 0 \<le> n \<longrightarrow> NewCoin e ''BNB'' n = Some \<lparr>Denom = ''BNB'', Amount = n\<rparr>)"

lemma sdk_ok_min:
  assumes "sdk_ok M e"
  shows "NewDecFromStr e InBoundFeeMin = Inr 10" "NewDecFromStr e OUTBoundFeeOut = Inr 10"
    "NewDecFromStr e DUSTBNB = Inr (10 ^ 14)" "NewDecFromStr e GASFEERATIO = Inr (15 * 10 ^ 17)"
  using assms by (simp_all add: sdk_ok_def config_defs)

lemma sdk_ok_ints:
  assumes "sdk_ok M e"
  shows "NewIntFromBigInt e n = (if \<bar>n\<bar> < 2 ^ M then Some n else None)"
    and "IntAdd e a b = (if \<bar>a + b\<bar> < 2 ^ M then Some (a + b) else None)"
    and "0 \<le> n \<Longrightarrow> NewCoin e InBoundDenomFee n = Some \<lparr>Denom = InBoundDenomFee, Amount = n\<rparr>"
  using assms by (simp_all add: sdk_ok_def config_defs)

lemma sdk_ok_pow: "sdk_ok M e \<Longrightarrow> (256 :: int) \<le> 2 ^ M"
proof -
  assume "sdk_ok M e"
  then have "8 \<le> M" by (simp add: sdk_ok_def)
  then have "(2::int) ^ 8 \<le> 2 ^ M" by (intro power_increasing) simp_all
  then show ?thesis by simp
qed

lemma sdk_ok_ten [simp]: "sdk_ok M e \<Longrightarrow> NewIntFromBigInt e 10 = Some 10"
  using sdk_ok_pow [of M e] by (simp add: sdk_ok_ints)

text \<open>A concrete instance: addresses are keys, hashes concatenate, numbers have 255 bits.\<close>

definition sample_ext :: ext where
  "sample_ext = \<lparr>
     UnmarshalPubKey = (\<lambda>s. if s = [] then Inl ''bad key'' else Inr (map (\<lambda>c. of_char c) s)),
     PubKeyAddress = (\<lambda>b. hex_EncodeToString b),
     AccAddressFromHex = (\<lambda>s. case hex_DecodeString s of None \<Rightarrow> Inl ''bad hex'' | Some b \<Rightarrow> Inr b),
     AccAddressFromBech32 = (\<lambda>s. if s = [] then Inl ''empty address string is not allowed''
                               else Inr (map (\<lambda>c. of_char c) s)),
     AccString = (\<lambda>b. hex_EncodeToString b),
     ConsAddressFromHex = (\<lambda>s. if s = [] then Inl ''decoding Bech32 address failed''
       else case hex_DecodeString s of None \<Rightarrow> Inl ''bad hex'' | Some b \<Rightarrow> Inr b),
     ConsAddressFromBech32 = (\<lambda>s. if s = [] then Inl ''empty address string is not allowed''
                                else Inr (map (\<lambda>c. of_char c) s)),
     ConsString = (\<lambda>b. hex_EncodeToString b),
     DecompressPubkey = (\<lambda>b. if b = [] then Inl ''invalid public key'' else Inr b),
     PubkeyToAddress = (\<lambda>b. b),
     BytesToAddress = (\<lambda>b. b),
     ParsePubKey = (\<lambda>b. if b = [] then Inl ''invalid pub key'' else Inr b),
     SerializeCompressed = (\<lambda>b. b),
     Ecrecover = (\<lambda>h s. if length s = 65 then Inr (take 1 s) else Inl ''invalid signature''),
     EthHex = (\<lambda>b. ''0x'' @ hex_EncodeToString b),
     HashHex = (\<lambda>b. ''0x'' @ hex_EncodeToString b),
     HexToHash = (\<lambda>s. case hex_DecodeString (drop 2 s) of None \<Rightarrow> [] | Some b \<Rightarrow> b),
     HashBig = big_SetBytes,
     Keccak256Hash = concat,
     S256_N = 115792089237316195423570985008687907852837564279074904382605163141518161494337,
     NewDecFromStr = (\<lambda>s. if s = ''0.00000000000000001'' then Inr 10
                       else if s = ''0.0001'' then Inr (10 ^ 14)
                       else if s = ''1.5'' then Inr (15 * 10 ^ 17) else Inl ''bad decimal''),
     DecMul = (\<lambda>a b. Some (a * b div 10 ^ 18)),
     DecRoundInt64 = (\<lambda>d. if d div 10 ^ 18 < 2 ^ 63 then Some (word_of_int (d div 10 ^ 18)) else None),
     DecFromUint64 = (\<lambda>n. uint n * 10 ^ 18),
     NewIntFromBigInt = (\<lambda>n. if \<bar>n\<bar> < 2 ^ 255 then Some n else None),
     IntAdd = (\<lambda>a b. if \<bar>a + b\<bar> < 2 ^ 255 then Some (a + b) else None),
     NewCoin = (\<lambda>d n. if 0 \<le> n then Some \<lparr>Denom = d, Amount = n\<rparr> else None) \<rparr>"

lemma sample_ext_ok: "sdk_ok 255 sample_ext"
  by (simp add: sdk_ok_def sample_ext_def)

lemma sample_ext_simps [simp]:
  "PubKeyAddress sample_ext b = hex_EncodeToString b"
  "AccAddressFromHex sample_ext s = (case hex_DecodeString s of None \<Rightarrow> Inl ''bad hex'' | Some b \<Rightarrow> Inr b)"
  "AccString sample_ext b = hex_EncodeToString b"
  "PubkeyToAddress sample_ext b = b" "BytesToAddress sample_ext b = b" "SerializeCompressed sample_ext b = b"
  "DecompressPubkey sample_ext b = (if b = [] then Inl ''invalid public key'' else Inr b)"
  "ParsePubKey sample_ext b = (if b = [] then Inl ''invalid pub key'' else Inr b)"
  "Ecrecover sample_ext h sg = (if length sg = 65 then Inr (take 1 sg) else Inl ''invalid signature'')"
  "EthHex sample_ext b = ''0x'' @ hex_EncodeToString b"
  "HashHex sample_ext b = ''0x'' @ hex_EncodeToString b"
  "HashBig sample_ext b = big_SetBytes b" "Keccak256Hash sample_ext bs = concat bs"
  "NewCoin sample_ext d n = (if 0 \<le> n then Some \<lparr>Denom = d, Amount = n\<rparr> else None)"
  by (simp_all add: sample_ext_def)

end
