(* ===== verification/Validators.thy ===== *)
theory Validators
  imports Bridge_Types
begin

text \<open>
  \<open>validators/validator.go\<close> and \<open>validators/types.go\<close>: the set of active validators, a Go
  map from the printed consensus address, and the height it belongs to. The lock fields
  are left out: every operation holds the lock for its whole body, so it is one atomic
  step. An update of tendermint is a \<open>TmValidator\<close>; its address is kept as the text
  \<open>Address.String()\<close> gives.
\<close>

record Validator =
  val_Address :: bytes
  val_PubKey :: bytes
  VotingPower :: i64

record TmValidator =
  tm_Address :: string
  tm_PubKey :: bytes
  tm_VotingPower :: i64

record ValidatorSet =
  activeValidators :: "(string, Validator) syncmap"
  vs_blockHeight :: i64

definition NewValidator :: ValidatorSet where
  "NewValidator = \<lparr>activeValidators = [], vs_blockHeight = 0\<rparr>"

definition SetupValidatorSet :: "ext \<Rightarrow> Validator list \<Rightarrow> i64 \<Rightarrow> ValidatorSet \<Rightarrow> ValidatorSet" where
  "SetupValidatorSet e validators blockHeight v =
     v\<lparr>vs_blockHeight := blockHeight,
       activeValidators := fold (\<lambda>el m. sm_Store (ConsString e (val_Address el)) el m)
         validators (activeValidators v)\<rparr>"

fun apply_updates ::
    "ext \<Rightarrow> TmValidator list \<Rightarrow> (string, Validator) syncmap
       \<Rightarrow> goerror option \<times> (string, Validator) syncmap" where
  "apply_updates e [] m = (None, m)"
| "apply_updates e (el # els) m =
     (case ConsAddressFromHex e (tm_Address el) of
        Inl err \<Rightarrow> (Some err, m)
      | Inr addr \<Rightarrow>
          if tm_VotingPower el = 0 then apply_updates e els (sm_Delete (ConsString e addr) m)
          else apply_updates e els (sm_Store (ConsString e addr)
                 \<lparr>val_Address = addr, val_PubKey = tm_PubKey el, VotingPower = tm_VotingPower el\<rparr> m))"

definition UpdateValidatorSet ::
    "ext \<Rightarrow> TmValidator list \<Rightarrow> i64 \<Rightarrow> ValidatorSet \<Rightarrow> goerror option \<times> ValidatorSet" where
  "UpdateValidatorSet e validatorUpdates blockHeight v =
     (let (err, m) = apply_updates e validatorUpdates (activeValidators v)
      in (err, v\<lparr>vs_blockHeight := blockHeight, activeValidators := m\<rparr>))"

definition GetActiveValidators :: "ValidatorSet \<Rightarrow> Validator list \<times> i64" where
  "GetActiveValidators v = (map snd (activeValidators v), vs_blockHeight v)"

section \<open>The abstract set: a map from addresses\<close>

definition valset_abs :: "ValidatorSet \<Rightarrow> string \<Rightarrow> Validator option" where
  "valset_abs v k = sm_Load k (activeValidators v)"

text \<open>What one tendermint update means: power 0 removes, any other power inserts or replaces.\<close>

definition update_spec ::
    "bytes \<Rightarrow> ext \<Rightarrow> TmValidator \<Rightarrow> (string \<Rightarrow> Validator option) \<Rightarrow> string \<Rightarrow> Validator option" where
  "update_spec addr e el m =
     m(ConsString e addr :=
         (if tm_VotingPower el = 0 then None
          else Some \<lparr>val_Address = addr, val_PubKey = tm_PubKey el, VotingPower = tm_VotingPower el\<rparr>))"

definition updates_spec ::
    "ext \<Rightarrow> TmValidator list \<Rightarrow> (string \<Rightarrow> Validator option) \<Rightarrow> string \<Rightarrow> Validator option" where
  "updates_spec e els =
     fold (\<lambda>el m. case ConsAddressFromHex e (tm_Address el) of
             Inl _ \<Rightarrow> m | Inr addr \<Rightarrow> update_spec addr e el m) els"

definition good_address :: "ext \<Rightarrow> TmValidator \<Rightarrow> bool" where
  "good_address e el = (case ConsAddressFromHex e (tm_Address el) of Inl _ \<Rightarrow> False | Inr _ \<Rightarrow> True)"

lemma apply_updates_load:
  assumes "\<forall>el \<in> set els. good_address e el"
  shows "fst (apply_updates e els m) = None"
    and "sm_Load k (snd (apply_updates e els m)) = updates_spec e els (\<lambda>j. sm_Load j m) k"
proof -
  have "fst (apply_updates e els m) = None
      \<and> sm_Load k (snd (apply_updates e els m)) = updates_spec e els (\<lambda>j. sm_Load j m) k"
    using assms
  proof (induction els arbitrary: m)
    case Nil
    show ?case by (simp add: updates_spec_def)
  next
    case (Cons el els)
    then obtain addr where addr: "ConsAddressFromHex e (tm_Address el) = Inr addr"
      by (auto simp: good_address_def split: sum.splits)
    have del: "(\<lambda>j. sm_Load j (sm_Delete (ConsString e addr) m))
        = (\<lambda>j. sm_Load j m)(ConsString e addr := None)"
      and st: "\<And>v. (\<lambda>j. sm_Load j (sm_Store (ConsString e addr) v m))
        = (\<lambda>j. sm_Load j m)(ConsString e addr := Some v)"
      by (auto simp: sm.load_del sm.load_store)
    show ?case
      using Cons addr by (simp add: updates_spec_def update_spec_def del st)
  qed
  then show "fst (apply_updates e els m) = None"
    and "sm_Load k (snd (apply_updates e els m)) = updates_spec e els (\<lambda>j. sm_Load j m) k" by auto
qed

lemma apply_updates_bad:
  assumes "\<forall>el \<in> set els. good_address e el" and "ConsAddressFromHex e (tm_Address bad) = Inl err"
  shows "apply_updates e (els @ bad # rest) m = (Some err, snd (apply_updates e els m))"
  using assms
  by (induction els arbitrary: m) (auto simp: good_address_def split: sum.splits)

definition valset_wf :: "ext \<Rightarrow> ValidatorSet \<Rightarrow> bool" where
  "valset_wf e v \<longleftrightarrow> sm_wf (activeValidators v)
     \<and> (\<forall>(k, val) \<in> set (activeValidators v). k = ConsString e (val_Address val) \<and> VotingPower val \<noteq> 0)"

lemma apply_updates_wf:
  assumes "sm_wf m" and "\<forall>(k, val) \<in> set m. k = ConsString e (val_Address val) \<and> VotingPower val \<noteq> 0"
    and "apply_updates e els m = (err, m')"
  shows "sm_wf m' \<and> (\<forall>(k, val) \<in> set m'. k = ConsString e (val_Address val) \<and> VotingPower val \<noteq> 0)"
  using assms
proof (induction els arbitrary: m)
  case Nil
  then show ?case by simp
next
  case (Cons el els)
  show ?case
  proof (cases "ConsAddressFromHex e (tm_Address el)")
    case (Inl bad)
    with Cons.prems show ?thesis by simp
  next
    case (Inr addr)
    let ?new = "\<lparr>val_Address = addr, val_PubKey = tm_PubKey el, VotingPower = tm_VotingPower el\<rparr>"
    let ?m = "if tm_VotingPower el = 0 then sm_Delete (ConsString e addr) m
              else sm_Store (ConsString e addr) ?new m"
    have "sm_wf ?m" using Cons.prems(1) by (simp add: sm.wf_store sm.wf_del)
    moreover have "\<forall>(k, val) \<in> set ?m. k = ConsString e (val_Address val) \<and> VotingPower val \<noteq> 0"
      using Cons.prems(1,2) by (auto simp: set_sm_Delete set_sm_Store)
    moreover have "apply_updates e els ?m = (err, m')"
      using Cons.prems(3) Inr by (simp split: if_splits)
    ultimately show ?thesis by (rule Cons.IH)
  qed
qed

section \<open>Properties\<close>

text \<open>
  C26: refinement. When every address of the update decodes, \<open>UpdateValidatorSet\<close> returns
  no error, sets the height, and changes the set exactly as the abstract map update:
  in order, power 0 removes an address and any other power inserts or replaces it.
\<close>

theorem UpdateValidatorSet_refines:
  assumes "\<forall>el \<in> set updates. good_address e el"
  shows "fst (UpdateValidatorSet e updates h v) = None
    \<and> vs_blockHeight (snd (UpdateValidatorSet e updates h v)) = h
    \<and> valset_abs (snd (UpdateValidatorSet e updates h v)) = updates_spec e updates (valset_abs v)"
  using apply_updates_load [OF assms, where m = "activeValidators v"]
  by (auto simp: UpdateValidatorSet_def valset_abs_def [abs_def] fun_eq_iff split: prod.splits)

text \<open>
  C39: the well-formedness invariant of the set (one entry per address, filed under its own
  printed address, never with power 0) survives every update, successful or not; so
  \<open>GetActiveValidators\<close> lists pairwise different validators with non-zero power.
\<close>

theorem UpdateValidatorSet_wf:
  assumes "valset_wf e v"
  shows "valset_wf e (snd (UpdateValidatorSet e updates h v))
    \<and> distinct (fst (GetActiveValidators (snd (UpdateValidatorSet e updates h v))))
    \<and> (\<forall>val \<in> set (fst (GetActiveValidators (snd (UpdateValidatorSet e updates h v)))). VotingPower val \<noteq> 0)"
proof (intro conjI)
  obtain err m where eq: "apply_updates e updates (activeValidators v) = (err, m)"
    by (cases "apply_updates e updates (activeValidators v)")
  show wf: "valset_wf e (snd (UpdateValidatorSet e updates h v))"
    using apply_updates_wf [OF _ _ eq] assms
    by (simp add: valset_wf_def UpdateValidatorSet_def eq)
  let ?a = "activeValidators (snd (UpdateValidatorSet e updates h v))"
  have "inj_on snd (set ?a)"
    using wf by (intro inj_onI) (auto simp: valset_wf_def split_beta prod_eq_iff)
  moreover have "distinct ?a"
    using wf by (auto simp: valset_wf_def sm_wf_def distinct_map)
  ultimately show "distinct (fst (GetActiveValidators (snd (UpdateValidatorSet e updates h v))))"
    by (simp add: GetActiveValidators_def distinct_map)
  show "\<forall>val \<in> set (fst (GetActiveValidators (snd (UpdateValidatorSet e updates h v)))). VotingPower val \<noteq> 0"
    using wf by (auto simp: valset_wf_def GetActiveValidators_def)
qed

text \<open>
  An address that does not decode stops the update: the error is returned, the updates
  before it stay applied, none after it is, and the height has already moved on.
\<close>

theorem UpdateValidatorSet_partial:
  assumes "\<forall>el \<in> set els. good_address e el" and "ConsAddressFromHex e (tm_Address bad) = Inl err"
  shows "UpdateValidatorSet e (els @ bad # rest) h v
     = (Some err, snd (UpdateValidatorSet e els h v))"
  using apply_updates_bad [OF assms, where rest = rest and m = "activeValidators v"]
  by (simp add: UpdateValidatorSet_def split: prod.splits)

definition val_a :: TmValidator where
  "val_a = \<lparr>tm_Address = ''0a'', tm_PubKey = [1], tm_VotingPower = 5\<rparr>"

definition val_bad :: TmValidator where
  "val_bad = \<lparr>tm_Address = ''0x'', tm_PubKey = [2], tm_VotingPower = 5\<rparr>"

lemma val_samples:
  "good_address sample_ext val_a" "ConsAddressFromHex sample_ext (tm_Address val_bad) = Inl ''bad hex''"
  by (simp_all add: good_address_def val_a_def val_bad_def sample_ext_def fromHexChar_def)

theorem UpdateValidatorSet_refines_witness:
  "fst (UpdateValidatorSet sample_ext [val_a, val_a\<lparr>tm_VotingPower := 0\<rparr>] 7 NewValidator) = None"
  by (rule UpdateValidatorSet_refines [THEN conjunct1])
    (simp add: good_address_def val_a_def sample_ext_def fromHexChar_def)

theorem UpdateValidatorSet_wf_witness:
  "valset_wf sample_ext (snd (UpdateValidatorSet sample_ext [val_a] 7 NewValidator))"
  by (rule UpdateValidatorSet_wf [THEN conjunct1]) (simp add: valset_wf_def NewValidator_def)

theorem UpdateValidatorSet_partial_witness:
  "UpdateValidatorSet sample_ext ([val_a] @ val_bad # [val_a]) 7 NewValidator
     = (Some ''bad hex'', snd (UpdateValidatorSet sample_ext [val_a] 7 NewValidator))"
  by (rule UpdateValidatorSet_partial) (simp_all add: val_samples)

end
