(* ===== verification/Misc_Helper.thy ===== *)
theory Misc_Helper
  imports Bridge_Types
begin

text \<open>
  \<open>misc/helper.go\<close>: the addresses derived from a public key, the recovery id of an
  Ethereum signature, and the two serialisations of a signature. A big integer is an
  \<open>int\<close>; \<open>Bytes()\<close> is the big-endian magnitude. Writing into a slice out of its bounds is
  Go's run-time panic.
\<close>

section \<open>Addresses of a public key\<close>

definition PoolPubKeyToJoltAddress :: "ext \<Rightarrow> string \<Rightarrow> goerror + acc_address" where
  "PoolPubKeyToJoltAddress e pk =
     (case UnmarshalPubKey e pk of
        Inl err \<Rightarrow> Inl err
      | Inr pubkey \<Rightarrow> AccAddressFromHex e (PubKeyAddress e pubkey))"

definition PoolPubKeyToEthAddress :: "ext \<Rightarrow> string \<Rightarrow> goerror + eth_address" where
  "PoolPubKeyToEthAddress e pk =
     (case UnmarshalPubKey e pk of
        Inl err \<Rightarrow> Inl err
      | Inr pubkey \<Rightarrow>
          (case DecompressPubkey e pubkey of
             Inl err \<Rightarrow> Inl err
           | Inr pk2 \<Rightarrow> Inr (PubkeyToAddress e pk2)))"

definition AccountPubKeyToEthAddress :: "ext \<Rightarrow> bytes \<Rightarrow> goerror + eth_address" where
  "AccountPubKeyToEthAddress e pk =
     (case DecompressPubkey e pk of
        Inl err \<Rightarrow> Inl err
      | Inr pubkey \<Rightarrow> Inr (PubkeyToAddress e pubkey))"

definition EthSignPubKeyToJoltAddr :: "ext \<Rightarrow> bytes \<Rightarrow> goerror + acc_address" where
  "EthSignPubKeyToJoltAddr e pk =
     (case ParsePubKey e pk of
        Inl err \<Rightarrow> Inl err
      | Inr pk2 \<Rightarrow> AccAddressFromHex e (PubKeyAddress e (SerializeCompressed e pk2)))"

section \<open>Slices and signatures\<close>

text \<open>\<open>copy(dst[lo:hi], src)\<close>: the bounds are checked, then the shorter length is copied.\<close>

definition copy_slice :: "bytes \<Rightarrow> int \<Rightarrow> int \<Rightarrow> bytes \<Rightarrow> bytes exec" where
  "copy_slice dst lo hi src =
     (if 0 \<le> lo \<and> lo \<le> hi \<and> hi \<le> int (length dst)
      then (let n = min (nat hi - nat lo) (length src)
            in Done (take (nat lo) dst @ take n src @ drop (nat lo + n) dst))
      else Panic ''slice bounds out of range'')"

definition big_Uint64 :: "int \<Rightarrow> u64" where
  "big_Uint64 x = word_of_int \<bar>x\<bar>"

definition MakeSignature :: "int \<Rightarrow> int \<Rightarrow> int \<Rightarrow> bytes exec" where
  "MakeSignature r s v =
     (let rBytes = big_Bytes (nat \<bar>r\<bar>); sBytes = big_Bytes (nat \<bar>s\<bar>);
          sigBytes = replicate 65 0
      in exec_bind (copy_slice sigBytes (32 - int (length rBytes)) 32 rBytes) (\<lambda>sig1.
         exec_bind (copy_slice sig1 (64 - int (length sBytes)) 64 sBytes) (\<lambda>sig2.
         Done (sig2[64 := ucast (big_Uint64 v)]))))"

record Signature =
  sig_R :: string
  sig_S :: string
  sig_RecoveryID :: string

definition SerializeSig :: "ext \<Rightarrow> Signature \<Rightarrow> bool \<Rightarrow> (goerror + bytes) exec" where
  "SerializeSig e sig needRecovery =
     (case base64_DecodeString (sig_R sig) of
        None \<Rightarrow> Done (Inl ''illegal base64 data'')
      | Some rRaw \<Rightarrow>
     (case base64_DecodeString (sig_S sig) of
        None \<Rightarrow> Done (Inl ''illegal base64 data'')
      | Some sRaw \<Rightarrow>
     (case base64_DecodeString (sig_RecoveryID sig) of
        None \<Rightarrow> Done (Inl ''illegal base64 data'')
      | Some vRaw \<Rightarrow>
     (let R = int (big_SetBytes rRaw); S0 = int (big_SetBytes sRaw); V = int (big_SetBytes vRaw);
          N = S256_N e; halfOrder = N div 2;
          S = (if S0 > halfOrder then N - S0 else S0);
          rBytes = big_Bytes (nat \<bar>R\<bar>); sBytes = big_Bytes (nat \<bar>S\<bar>); vBytes = big_Bytes (nat \<bar>V\<bar>)
      in if needRecovery then
           exec_bind (copy_slice (replicate 65 0) (32 - int (length rBytes)) 32 rBytes) (\<lambda>sig1.
           exec_bind (copy_slice sig1 (64 - int (length sBytes)) 64 sBytes) (\<lambda>sig2.
           exec_bind (copy_slice sig2 (65 - int (length vBytes)) 65 vBytes) (\<lambda>sig3.
           Done (Inr sig3))))
         else
           exec_bind (copy_slice (replicate 64 0) (32 - int (length rBytes)) 32 rBytes) (\<lambda>sig1.
           exec_bind (copy_slice sig1 (64 - int (length sBytes)) 64 sBytes) (\<lambda>sig2.
           Done (Inr sig2)))))))"

section \<open>The recovery id\<close>

definition isProtectedV :: "int \<Rightarrow> bool" where
  "isProtectedV v =
     (if \<bar>v\<bar> < 2 ^ 8
      then (let u = big_Uint64 v in u \<noteq> 27 \<and> u \<noteq> 28 \<and> u \<noteq> 1 \<and> u \<noteq> 0)
      else True)"

definition RecoverRecID :: "u64 \<Rightarrow> int \<Rightarrow> int" where
  "RecoverRecID chainID v =
     (if big_Uint64 v = 0 \<or> big_Uint64 v = 1 then v
      else if isProtectedV v then uint (big_Uint64 v - 35 - 2 * chainID)
      else uint (big_Uint64 v - 27))"

section \<open>Lemmas\<close>

text \<open>A 256-bit magnitude padded to 32 bytes, as both serialisers write R and S.\<close>

definition pad32 :: "int \<Rightarrow> bytes" where
  "pad32 x = replicate (32 - length (big_Bytes (nat \<bar>x\<bar>))) 0 @ big_Bytes (nat \<bar>x\<bar>)"

lemma pow256_32: "(256::nat) ^ 32 = 2 ^ 256"
  by (simp flip: power_mult)

lemma length_big_Bytes_32: "length (big_Bytes (nat \<bar>x\<bar>)) \<le> 32 \<longleftrightarrow> \<bar>x\<bar> < 2 ^ 256"
proof -
  have "nat \<bar>x\<bar> < 256 ^ 32 \<longleftrightarrow> \<bar>x\<bar> < 2 ^ 256"
    unfolding pow256_32 by (simp add: nat_less_iff)
  moreover have "length (big_Bytes (nat \<bar>x\<bar>)) \<le> 32 \<longleftrightarrow> nat \<bar>x\<bar> < 256 ^ 32"
    using length_big_Bytes_le length_big_Bytes_gt by (metis linorder_not_less)
  ultimately show ?thesis by simp
qed

lemma length_pad32 [simp]: "\<bar>x\<bar> < 2 ^ 256 \<Longrightarrow> length (pad32 x) = 32"
  using length_big_Bytes_32 [of x] by (simp add: pad32_def)

lemma big_SetBytes_pad32 [simp]: "big_SetBytes (pad32 x) = nat \<bar>x\<bar>"
  by (simp add: pad32_def)

lemma copy_slice_at:
  assumes "i + length bs = j" and "j \<le> length dst"
  shows "copy_slice dst (int i) (int j) bs = Done (take i dst @ bs @ drop j dst)"
  using assms by (auto simp: copy_slice_def Let_def)

lemma copy_slice_right:
  assumes hi: "hi = length pre + n" and le: "length bs \<le> n"
  shows "copy_slice (pre @ replicate n 0 @ post) (int hi - int (length bs)) (int hi) bs
           = Done (pre @ (replicate (n - length bs) 0 @ bs) @ post)"
proof -
  have lo: "int hi - int (length bs) = int (hi - length bs)"
    using hi le by simp
  have "copy_slice (pre @ replicate n 0 @ post) (int (hi - length bs)) (int hi) bs
      = Done (take (hi - length bs) (pre @ replicate n 0 @ post) @ bs
          @ drop hi (pre @ replicate n 0 @ post))"
    using hi le by (intro copy_slice_at) simp_all
  then show ?thesis
    unfolding lo using hi le by simp
qed

lemma copy_slice_too_long:
  "hi < length bs \<Longrightarrow> copy_slice dst (int hi - int (length bs)) (int hi) bs
     = Panic ''slice bounds out of range''"
  by (simp add: copy_slice_def)

lemma copy_slice_pad32_R:
  assumes "\<bar>r\<bar> < 2 ^ 256"
  shows "copy_slice (replicate (32 + n) 0) (32 - int (length (big_Bytes (nat \<bar>r\<bar>)))) 32
           (big_Bytes (nat \<bar>r\<bar>)) = Done (pad32 r @ replicate n 0)"
  using copy_slice_right [of 32 "[]" 32 "big_Bytes (nat \<bar>r\<bar>)" "replicate n 0"]
    length_big_Bytes_32 [of r] assms by (simp add: replicate_add pad32_def)

lemma copy_slice_pad32_S:
  assumes "\<bar>r\<bar> < 2 ^ 256" and "\<bar>s\<bar> < 2 ^ 256"
  shows "copy_slice (pad32 r @ replicate (32 + n) 0) (64 - int (length (big_Bytes (nat \<bar>s\<bar>)))) 64
           (big_Bytes (nat \<bar>s\<bar>)) = Done (pad32 r @ pad32 s @ replicate n 0)"
  using copy_slice_right [of 64 "pad32 r" 32 "big_Bytes (nat \<bar>s\<bar>)" "replicate n 0"]
    length_big_Bytes_32 [of s] assms by (simp add: replicate_add pad32_def [of s])

lemma copy_slice_pad32:
  assumes "\<bar>r\<bar> < 2 ^ 256" and "\<bar>s\<bar> < 2 ^ 256"
  shows "copy_slice (replicate 65 0) (32 - int (length (big_Bytes (nat \<bar>r\<bar>)))) 32 (big_Bytes (nat \<bar>r\<bar>))
           = Done (pad32 r @ replicate 33 0)"
    and "copy_slice (pad32 r @ replicate 33 0) (64 - int (length (big_Bytes (nat \<bar>s\<bar>)))) 64
           (big_Bytes (nat \<bar>s\<bar>)) = Done (pad32 r @ pad32 s @ [0])"
    and "copy_slice (replicate 64 0) (32 - int (length (big_Bytes (nat \<bar>r\<bar>)))) 32 (big_Bytes (nat \<bar>r\<bar>))
           = Done (pad32 r @ replicate 32 0)"
    and "copy_slice (pad32 r @ replicate 32 0) (64 - int (length (big_Bytes (nat \<bar>s\<bar>)))) 64
           (big_Bytes (nat \<bar>s\<bar>)) = Done (pad32 r @ pad32 s)"
  using copy_slice_pad32_R [OF assms(1), of 33] copy_slice_pad32_S [OF assms, of 1]
    copy_slice_pad32_R [OF assms(1), of 32] copy_slice_pad32_S [OF assms, of 0]
  by simp_all

lemma MakeSignature_value:
  assumes "\<bar>r\<bar> < 2 ^ 256" and "\<bar>s\<bar> < 2 ^ 256"
  shows "MakeSignature r s v = Done (pad32 r @ pad32 s @ [ucast (big_Uint64 v)])"
proof -
  have "length (pad32 r @ pad32 s) = 64" using assms by simp
  then show ?thesis
    using copy_slice_pad32 [OF assms]
    by (simp add: MakeSignature_def Let_def list_update_append flip: append_assoc)
qed

lemma copy_slice_last_byte:
  assumes "length pre = 64"
  shows "copy_slice (pre @ [0]) (65 - int (length (big_Bytes n))) 65 (big_Bytes n)
           = (if n < 256 then Done (pre @ [word_of_nat n]) else copy_slice (pre @ [0])
                (65 - int (length (big_Bytes n))) 65 (big_Bytes n))"
proof (cases "n < 256")
  case True
  then have "big_Bytes n = (if n = 0 then [] else [word_of_nat n])"
    by (subst big_Bytes.simps) simp
  then show ?thesis
    using True assms copy_slice_at [of 64 "[word_of_nat n]" 65 "pre @ [0]"]
      copy_slice_at [of 65 "[]" 65 "pre @ [0]"]
    by (simp split: if_splits)
next
  case False
  then show ?thesis by simp
qed

lemma SerializeSig_value:
  assumes "base64_DecodeString (sig_R sig) = Some rb" and "base64_DecodeString (sig_S sig) = Some sb"
    and "base64_DecodeString (sig_RecoveryID sig) = Some vb"
    and "S256_N e < 2 ^ 256" and "big_SetBytes rb < 2 ^ 256"
    and "int (big_SetBytes sb) < S256_N e" and "big_SetBytes vb < 256"
  shows "SerializeSig e sig rec = Done (Inr
     (pad32 (int (big_SetBytes rb)) @
      pad32 (if S256_N e div 2 < int (big_SetBytes sb) then S256_N e - int (big_SetBytes sb)
             else int (big_SetBytes sb)) @
      (if rec then [word_of_nat (big_SetBytes vb)] else [])))"
proof -
  let ?R = "int (big_SetBytes rb)"
  let ?S = "if S256_N e div 2 < int (big_SetBytes sb) then S256_N e - int (big_SetBytes sb)
            else int (big_SetBytes sb)"
  have R: "\<bar>?R\<bar> < 2 ^ 256" using assms(5) by simp
  have S: "\<bar>?S\<bar> < 2 ^ 256" using assms(4,6) by auto
  have V: "copy_slice (pad32 ?R @ pad32 ?S @ [0]) (65 - int (length (big_Bytes (big_SetBytes vb)))) 65
      (big_Bytes (big_SetBytes vb)) = Done (pad32 ?R @ pad32 ?S @ [word_of_nat (big_SetBytes vb)])"
    using copy_slice_last_byte [of "pad32 ?R @ pad32 ?S" "big_SetBytes vb"] assms(7) R S
    by (simp del: of_nat_less_iff)
  show ?thesis
    by (cases rec)
      (simp_all only: SerializeSig_def assms(1-3) option.case Let_def if_True if_False
        copy_slice_pad32 [OF R S, unfolded abs_of_nat nat_int] exec_bind.simps V abs_of_nat
        nat_int append_Nil2)
qed

section \<open>Properties\<close>

lemma byte_of_big_Uint64: "unat (ucast (big_Uint64 v) :: byte) = nat \<bar>v\<bar> mod 256"
proof -
  have "uint (ucast (big_Uint64 v) :: byte) = \<bar>v\<bar> mod 256"
    unfolding big_Uint64_def unsigned_ucast_eq uint_word_of_int take_bit_eq_mod
    by (simp add: unsigned_of_int take_bit_eq_mod mod_mod_cancel)
  then have "nat (uint (ucast (big_Uint64 v) :: byte)) = nat (\<bar>v\<bar> mod 256)" by simp
  then show ?thesis by (simp add: nat_mod_distrib)
qed

lemma MakeSignature_long_r:
  assumes "2 ^ 256 \<le> \<bar>r\<bar>"
  shows "MakeSignature r s v = Panic ''slice bounds out of range''"
proof -
  have "32 < length (big_Bytes (nat \<bar>r\<bar>))"
    using assms length_big_Bytes_32 [of r] by linarith
  then show ?thesis
    using copy_slice_too_long [of 32 "big_Bytes (nat \<bar>r\<bar>)" "replicate 65 0"]
    by (simp add: MakeSignature_def Let_def)
qed

text \<open>
  C38: \<open>MakeSignature\<close> writes a 65-byte signature whose first 32 bytes read back as R, whose
  next 32 read back as S and whose last byte is V modulo 256, for every R and S of at
  most 256 bits; an R of more bits is a slice-bounds panic.
\<close>

theorem MakeSignature_layout:
  "(\<bar>s\<bar> < 2 ^ 256 \<and> \<bar>r\<bar> < 2 ^ 256 \<longrightarrow>
      (\<exists>sig. MakeSignature r s v = Done sig \<and> length sig = 65
         \<and> big_SetBytes (take 32 sig) = nat \<bar>r\<bar>
         \<and> big_SetBytes (take 32 (drop 32 sig)) = nat \<bar>s\<bar>
         \<and> unat (sig ! 64) = nat \<bar>v\<bar> mod 256))
   \<and> (2 ^ 256 \<le> \<bar>r\<bar> \<longrightarrow> MakeSignature r s v = Panic ''slice bounds out of range'')"
  by (simp add: MakeSignature_value MakeSignature_long_r nth_append byte_of_big_Uint64
       flip: append_assoc)

theorem MakeSignature_layout_witness:
  "MakeSignature 1 2 27 = Done (replicate 31 0 @ [1] @ replicate 31 0 @ [2] @ [27])"
proof -
  obtain sig where "MakeSignature 1 2 27 = Done sig" and "length sig = 65"
    using MakeSignature_layout [of 2 1 27] by auto
  moreover have "big_Bytes 1 = [1]" and "big_Bytes 2 = [2]"
    by (simp_all add: big_Bytes.simps)
  ultimately show ?thesis
    by (simp add: MakeSignature_value pad32_def big_Uint64_def)
qed

text \<open>
  For a signature whose R, S and V are in range, \<open>SerializeSig\<close> succeeds; the result has
  65 bytes with the recovery id and 64 without; R is kept; and the S it writes is the
  low one of S and N - S, so at most half the group order.
\<close>

theorem SerializeSig_low_s:
  assumes "base64_DecodeString (sig_R sig) = Some rb" and "base64_DecodeString (sig_S sig) = Some sb"
    and "base64_DecodeString (sig_RecoveryID sig) = Some vb"
    and "S256_N e < 2 ^ 256" and "big_SetBytes rb < 2 ^ 256"
    and "int (big_SetBytes sb) < S256_N e" and "big_SetBytes vb < 256"
  shows "\<exists>out. SerializeSig e sig rec = Done (Inr out)
     \<and> length out = (if rec then 65 else 64)
     \<and> big_SetBytes (take 32 out) = big_SetBytes rb
     \<and> int (big_SetBytes (take 32 (drop 32 out))) \<in> {int (big_SetBytes sb), S256_N e - int (big_SetBytes sb)}
     \<and> int (big_SetBytes (take 32 (drop 32 out))) \<le> S256_N e div 2
     \<and> (rec \<longrightarrow> unat (out ! 64) = big_SetBytes vb)"
proof -
  define R S where "R = int (big_SetBytes rb)" and "S = (if S256_N e div 2 < int (big_SetBytes sb)
    then S256_N e - int (big_SetBytes sb) else int (big_SetBytes sb))"
  define out where "out = pad32 R @ pad32 S @ (if rec then [word_of_nat (big_SetBytes vb)] else [])"
  have R: "\<bar>R\<bar> < 2 ^ 256" "nat \<bar>R\<bar> = big_SetBytes rb" using assms(5) by (simp_all add: R_def)
  have S: "\<bar>S\<bar> < 2 ^ 256" "0 \<le> S" "S \<le> S256_N e div 2"
    "S \<in> {int (big_SetBytes sb), S256_N e - int (big_SetBytes sb)}"
    using assms(4,6) by (auto simp: S_def)
  have len: "length (pad32 R @ pad32 S) = 64" using R S by simp
  have "rec \<Longrightarrow> unat (out ! 64) = big_SetBytes vb"
    using nth_append_length [of "pad32 R @ pad32 S" "word_of_nat (big_SetBytes vb) :: byte" "[]"] len
      assms(7) unfolding len append_assoc
    by (simp add: out_def unsigned_of_nat take_bit_nat_eq_self)
  moreover have "length out = (if rec then 65 else 64)" using len by (simp add: out_def)
  moreover have "take 32 out = pad32 R" "take 32 (drop 32 out) = pad32 S"
    using R S by (simp_all add: out_def)
  moreover have "SerializeSig e sig rec = Done (Inr out)"
    unfolding out_def R_def S_def by (rule SerializeSig_value [OF assms])
  ultimately show ?thesis using S(2-4) R(2)
    by (intro exI [of _ out]) auto
qed

theorem SerializeSig_low_s_witness:
  "\<exists>out. SerializeSig sample_ext
       \<lparr>sig_R = base64_EncodeToString [7], sig_S = base64_EncodeToString [9],
        sig_RecoveryID = base64_EncodeToString [1]\<rparr> True = Done (Inr out) \<and> length out = 65"
proof -
  have "\<exists>out. SerializeSig sample_ext
       \<lparr>sig_R = base64_EncodeToString [7], sig_S = base64_EncodeToString [9],
        sig_RecoveryID = base64_EncodeToString [1]\<rparr> True = Done (Inr out)
     \<and> length out = (if True then 65 else 64)
     \<and> big_SetBytes (take 32 out) = big_SetBytes [7]
     \<and> int (big_SetBytes (take 32 (drop 32 out)))
         \<in> {int (big_SetBytes [9]), S256_N sample_ext - int (big_SetBytes [9])}
     \<and> int (big_SetBytes (take 32 (drop 32 out))) \<le> S256_N sample_ext div 2
     \<and> (True \<longrightarrow> unat (out ! 64) = big_SetBytes [1])"
    by (rule SerializeSig_low_s)
      (simp_all add: base64.dec_enc big_SetBytes_def sample_ext_def)
  then show ?thesis by auto
qed

text \<open>
  C37: the recovery id is lost when S is replaced: a signature and its mirror image, with
  N - S for S and the same R and V, serialise to the same bytes, although the two recover
  different public keys unless V is flipped as well.
\<close>

theorem SerializeSig_mirror:
  assumes "base64_DecodeString (sig_R sig) = Some rb" and "base64_DecodeString (sig_S sig) = Some sb"
    and "base64_DecodeString (sig_RecoveryID sig) = Some vb"
    and "S256_N e < 2 ^ 256" and "odd (S256_N e)" and "big_SetBytes rb < 2 ^ 256"
    and "0 < big_SetBytes sb" and "int (big_SetBytes sb) < S256_N e" and "big_SetBytes vb < 256"
  shows "SerializeSig e (sig\<lparr>sig_S := base64_EncodeToString
           (big_Bytes (nat (S256_N e - int (big_SetBytes sb))))\<rparr>) rec = SerializeSig e sig rec"
proof -
  let ?S = "int (big_SetBytes sb)" and ?sig = "sig\<lparr>sig_S := base64_EncodeToString
           (big_Bytes (nat (S256_N e - int (big_SetBytes sb))))\<rparr>"
  have mirror: "int (big_SetBytes (big_Bytes (nat (S256_N e - ?S)))) = S256_N e - ?S"
    using assms(8) by simp
  have "SerializeSig e ?sig rec = Done (Inr
     (pad32 (int (big_SetBytes rb)) @
      pad32 (if S256_N e div 2 < S256_N e - ?S then S256_N e - (S256_N e - ?S) else S256_N e - ?S) @
      (if rec then [word_of_nat (big_SetBytes vb)] else [])))"
    using SerializeSig_value [of ?sig rb "big_Bytes (nat (S256_N e - ?S))" vb e rec] assms mirror
    by (simp add: base64.dec_enc)
  moreover have "S256_N e div 2 < S256_N e - ?S \<longleftrightarrow> \<not> S256_N e div 2 < ?S"
    using assms(5) by (elim oddE) auto
  ultimately show ?thesis
    using SerializeSig_value [OF assms(1-4,6,8,9), of rec] by simp
qed

theorem SerializeSig_mirror_witness:
  "SerializeSig sample_ext (\<lparr>sig_R = base64_EncodeToString [7], sig_S = base64_EncodeToString [9],
        sig_RecoveryID = base64_EncodeToString [1]\<rparr>\<lparr>sig_S := base64_EncodeToString
          (big_Bytes (nat (S256_N sample_ext - int (big_SetBytes [9]))))\<rparr>) True
   = SerializeSig sample_ext \<lparr>sig_R = base64_EncodeToString [7], sig_S = base64_EncodeToString [9],
        sig_RecoveryID = base64_EncodeToString [1]\<rparr> True"
  by (rule SerializeSig_mirror [where rb = "[7]" and vb = "[1]"])
    (simp_all add: base64.dec_enc big_SetBytes_def sample_ext_def)

lemma big_Uint64_small: "0 \<le> v \<Longrightarrow> v < 2 ^ 64 \<Longrightarrow> uint (big_Uint64 v) = v"
  by (simp add: big_Uint64_def uint_word_of_int_eq take_bit_int_eq_self)

lemma big_Uint64_eq_iff:
  "0 \<le> v \<Longrightarrow> v < 2 ^ 64 \<Longrightarrow> big_Uint64 v = numeral n \<longleftrightarrow> v = uint (numeral n :: u64)"
  by (metis big_Uint64_small word_uint_eq_iff)

text \<open>
  \<open>RecoverRecID\<close> gives the parity bit b for each way a signature writes it: b itself,
  27 + b (unprotected), and 35 + 2c + b (EIP-155 with chain id c), for every chain id
  that leaves 35 + 2c + 1 within 64 bits.
\<close>

theorem RecoverRecID_parity:
  assumes "b \<in> {0, 1 :: int}" and "2 * uint c + 36 < 2 ^ 64"
  shows "RecoverRecID c b = b \<and> RecoverRecID c (27 + b) = b
    \<and> RecoverRecID c (35 + 2 * uint c + b) = b"
proof (intro conjI)
  show "RecoverRecID c b = b" using assms(1) by (auto simp: RecoverRecID_def big_Uint64_def)
  show "RecoverRecID c (27 + b) = b"
    using assms(1) by (auto simp: RecoverRecID_def big_Uint64_def isProtectedV_def Let_def)
  define v where "v = 35 + 2 * uint c + b"
  have v: "35 \<le> v" "v < 2 ^ 64" using assms unfolding v_def by auto
  then have ne: "big_Uint64 v \<noteq> 0" "big_Uint64 v \<noteq> 1" "big_Uint64 v \<noteq> 27" "big_Uint64 v \<noteq> 28"
    using big_Uint64_small [of v] by auto
  then have "isProtectedV v" by (simp add: isProtectedV_def Let_def)
  moreover have "big_Uint64 v - 35 - 2 * c = word_of_int b"
    using v by (simp add: big_Uint64_def) (simp add: v_def)
  ultimately show "RecoverRecID c (35 + 2 * uint c + b) = b"
    using ne assms(1) unfolding v_def [symmetric] by (auto simp: RecoverRecID_def)
qed

theorem RecoverRecID_parity_witness: "RecoverRecID 56 (35 + 2 * uint (56 :: u64) + 1) = 1"
  using RecoverRecID_parity [of 1 56] by simp

end
