(* ===== verification/Bridge_Queues.thy ===== *)
theory Bridge_Queues
  imports Bridge_Types
begin

text \<open>
  The interfaces both chain packages provide to the event loop, as locales: the pool of
  requests that wait for a retry (\<open>AddItem\<close>, \<open>PopItem\<close>, \<open>Size\<close>), the queue of retired
  pools whose funds have to be moved (\<open>AddMoveFundItem\<close>, \<open>PopMoveFundItem\<close>,
  \<open>PopMoveFundItemAfterBlock\<close>), and the cache of the last two pools (\<open>UpdatePool\<close>,
  \<open>GetPool\<close>). pubchain and joltifybridge each implement the three interfaces; their
  theories interpret the locales.

  Also here: the two \<open>Range\<close> scans (largest hash, smallest height) the implementations run.
\<close>

section \<open>Scanning for the largest hash\<close>

text \<open>
  \<open>max := big.NewInt(0); Range: if max.Cmp(h) == -1 {max = h}\<close>. The keys of the retry map
  are freshly allocated \<open>*big.Int\<close> pointers, compared as pointers by \<open>sync.Map\<close>: a
  stored request never replaces another one, and the scan keeps the first of several
  equal hashes.
\<close>

definition scan_max :: "(nat \<times> 'r) list \<Rightarrow> nat" where
  "scan_max es = fold (\<lambda>(h, _) mx. if mx < h then h else mx) es 0"

fun take_first :: "('a \<Rightarrow> bool) \<Rightarrow> 'a list \<Rightarrow> ('a \<times> 'a list) option" where
  "take_first P [] = None"
| "take_first P (x # xs) =
     (if P x then Some (x, xs) else map_option (\<lambda>(y, ys). (y, x # ys)) (take_first P xs))"

lemma scan_max_fold:
  "fold (\<lambda>(h, _) mx. if mx < h then h else mx) es m = Max (insert m (fst ` set es))"
proof (induction es arbitrary: m)
  case Nil
  show ?case by simp
next
  case (Cons e es)
  have "fold (\<lambda>(h, _) mx. if mx < h then h else mx) (e # es) m
      = Max (insert (max m (fst e)) (fst ` set es))"
    using Cons.IH by (cases e) (auto simp: max_def)
  also have "\<dots> = Max (insert m (fst ` set (e # es)))"
    by (cases "es = []") (auto simp: Max_insert2 max.assoc max.left_commute)
  finally show ?case .
qed

lemma scan_max_eq: "scan_max es = Max (insert 0 (fst ` set es))"
  unfolding scan_max_def by (rule scan_max_fold)

lemma scan_max_ge: "(h, r) \<in> set es \<Longrightarrow> h \<le> scan_max es"
  unfolding scan_max_eq by (force intro: Max_ge)

lemma scan_max_pos: "0 < scan_max es \<longleftrightarrow> (\<exists>(h, r) \<in> set es. 0 < h)"
  unfolding scan_max_eq by (subst Max_gr_iff) (auto simp: split_beta)

lemma scan_max_attained: "0 < scan_max es \<Longrightarrow> \<exists>r. (scan_max es, r) \<in> set es"
proof -
  assume pos: "0 < scan_max es"
  have "Max (insert 0 (fst ` set es)) \<in> insert 0 (fst ` set es)"
    by (rule Max_in) auto
  then show ?thesis using pos unfolding scan_max_eq by auto
qed

lemma scan_max_perm: "mset es = mset es' \<Longrightarrow> scan_max es = scan_max es'"
  unfolding scan_max_eq by (metis mset_eq_setD)

lemma take_first_None_iff: "take_first P xs = None \<longleftrightarrow> (\<forall>x \<in> set xs. \<not> P x)"
  by (induction xs) auto

lemma take_first_SomeD:
  "take_first P xs = Some (y, ys) \<Longrightarrow> P y \<and> y \<in> set xs \<and> mset xs = add_mset y (mset ys)"
  by (induction xs arbitrary: y ys) (auto split: if_splits)

text \<open>What popping the entry of the largest hash does, shared by both chains' pools.\<close>

lemma retry_pop_none:
  assumes "\<forall>(h, r) \<in> set es. h = (key r :: nat)" and "\<forall>r \<in># image_mset snd (mset es). key r = 0"
  shows "scan_max es = 0"
proof -
  have "h = 0" if "(h, r) \<in> set es" for h r using assms that by force
  then have "\<not> 0 < scan_max es" unfolding scan_max_pos by blast
  then show ?thesis by simp
qed

lemma retry_pop_some:
  assumes ok: "\<forall>(h, r) \<in> set es. h = (key r :: nat)" and r0: "r0 \<in># image_mset snd (mset es)" "0 < key r0"
  obtains r rest where "0 < scan_max es"
    and "take_first (\<lambda>(h, _). h = scan_max es) es = Some ((scan_max es, r), rest)"
    and "\<forall>x \<in># image_mset snd (mset es). key x \<le> key r"
    and "image_mset snd (mset es) = add_mset r (image_mset snd (mset rest))"
    and "\<forall>(h, r) \<in> set rest. h = key r"
proof -
  have pos: "0 < scan_max es" using ok r0 by (force simp: scan_max_pos)
  then obtain r1 where r1: "(scan_max es, r1) \<in> set es" using scan_max_attained by blast
  then obtain y rest where tf: "take_first (\<lambda>(h, _). h = scan_max es) es = Some (y, rest)"
    using take_first_None_iff [of "\<lambda>(h, _). h = scan_max es" es] by (metis (mono_tags, lifting) case_prodI not_Some_eq surj_pair)
  obtain r where y: "y = (scan_max es, r)" "y \<in> set es" and ms: "mset es = add_mset y (mset rest)"
    using take_first_SomeD [OF tf] by (cases y) auto
  have key: "key r = scan_max es" using ok y by force
  have "\<forall>x \<in># image_mset snd (mset es). key x \<le> key r"
    unfolding key using ok scan_max_ge by fastforce
  moreover have "set rest \<subseteq> set es" using ms by (metis set_mset_add_mset_insert set_mset_mset subset_insertI)
  then have "\<forall>(h, r) \<in> set rest. h = key r" using ok by blast
  ultimately show thesis
    using that [of r rest] pos tf ms y by simp
qed

lemma fold_count: "fold (\<lambda>_. Suc) xs n = n + length xs"
  by (induction xs arbitrary: n) simp_all

section \<open>Scanning for the smallest height\<close>

text \<open>\<open>min := int64(math.MaxInt64); Range: if h <= min {min = h}\<close>\<close>

definition scan_min :: "(i64 \<times> 'p) list \<Rightarrow> i64" where
  "scan_min es = fold (\<lambda>(h, _) mn. if sint h \<le> sint mn then h else mn) es int64_max"

lemma scan_min_fold:
  "let r = fold (\<lambda>(h, _) mn. if sint h \<le> sint mn then h else mn) es m
   in r \<in> insert m (fst ` set es) \<and> sint r \<le> sint m \<and> (\<forall>h \<in> fst ` set es. sint r \<le> sint h)"
proof (induction es arbitrary: m)
  case Nil
  show ?case by simp
next
  case (Cons e es)
  obtain h p where e: "e = (h, p)" by (cases e)
  show ?case
    using Cons.IH [of "if sint h \<le> sint m then h else m"]
    by (auto simp: e Let_def split: if_splits)
qed

lemma scan_min_le: "h \<in> fst ` set es \<Longrightarrow> sint (scan_min es) \<le> sint h"
  using scan_min_fold [of es int64_max] by (auto simp: scan_min_def Let_def)

lemma scan_min_in: "scan_min es = int64_max \<or> scan_min es \<in> fst ` set es"
  using scan_min_fold [of es int64_max] by (auto simp: scan_min_def Let_def)

lemma sint_less_max_iff: "sint (h :: i64) < sint int64_max \<longleftrightarrow> h \<noteq> int64_max"
  using sint_le_int64_max [of h] by (metis order_less_le signed_word_eqI)

text \<open>The entry a pop is about: the smallest height in the map, other than \<open>MaxInt64\<close>.\<close>

definition oldest :: "(i64 \<Rightarrow> 'p option) \<Rightarrow> i64 \<Rightarrow> bool" where
  "oldest m h \<longleftrightarrow> h \<in> dom m \<and> h \<noteq> int64_max \<and> (\<forall>j \<in> dom m. sint h \<le> sint j)"

lemma oldest_unique: "oldest m h \<Longrightarrow> oldest m j \<Longrightarrow> h = j"
  unfolding oldest_def by (metis order_antisym signed_word_eqI)

lemma oldest_scan_min:
  assumes "sm_wf es" and "view = (\<lambda>h. sm_Load h es)"
  shows "sint (scan_min es) < sint int64_max \<longleftrightarrow> oldest view (scan_min es)"
    and "oldest view h \<Longrightarrow> scan_min es = h"
proof -
  have dom: "dom view = fst ` set es"
    unfolding assms(2) by (force simp: dom_def sm_Load_eq_Some_iff [OF assms(1)])
  show iff: "sint (scan_min es) < sint int64_max \<longleftrightarrow> oldest view (scan_min es)"
    unfolding sint_less_max_iff oldest_def dom using scan_min_in [of es] scan_min_le by auto
  assume h: "oldest view h"
  then have "sint (scan_min es) \<le> sint h" using scan_min_le [of h es] by (simp add: oldest_def dom)
  moreover have "sint h < sint int64_max" using h unfolding sint_less_max_iff oldest_def by blast
  ultimately have "oldest view (scan_min es)" using iff by linarith
  with h show "scan_min es = h" by (rule oldest_unique [symmetric])
qed

text \<open>\<open>currentBlockHeight - min > config.MINCHECKBLOCKGAP\<close>, in 64-bit arithmetic.\<close>

definition due :: "i64 \<Rightarrow> i64 \<Rightarrow> bool" where
  "due current h \<longleftrightarrow> sint MINCHECKBLOCKGAP < sint (current - h)"

lemma due_iff:
  assumes "- (2 ^ 63) \<le> sint c - sint h" and "sint c - sint h < 2 ^ 63"
  shows "due c h \<longleftrightarrow> sint h + 6 < sint c"
  unfolding due_def using sint_diff_small [OF assms] by (auto simp: MINCHECKBLOCKGAP_def)

section \<open>The retry pool\<close>

text \<open>Popping up to n requests, one after the other.\<close>

fun drain :: "('s \<Rightarrow> ('r option \<times> 's) exec) \<Rightarrow> nat \<Rightarrow> 's \<Rightarrow> ('r list \<times> 's) exec" where
  "drain pop 0 s = Done ([], s)"
| "drain pop (Suc n) s =
     exec_bind (pop s) (\<lambda>(r, s'). case r of
         None \<Rightarrow> Done ([], s')
       | Some x \<Rightarrow> exec_bind (drain pop n s') (\<lambda>(xs, t). Done (x # xs, t)))"

locale retry_pool =
  fixes add :: "'r \<Rightarrow> 's \<Rightarrow> 's" and pop :: "'s \<Rightarrow> ('r option \<times> 's) exec" and size_of :: "'s \<Rightarrow> nat"
    and key :: "'r \<Rightarrow> nat" and bag :: "'s \<Rightarrow> 'r multiset" and ok :: "'s \<Rightarrow> bool"
  assumes bag_add: "bag (add r s) = add_mset r (bag s)"
    and ok_add: "ok s \<Longrightarrow> ok (add r s)"
    and pop_none: "ok s \<Longrightarrow> \<forall>r \<in># bag s. key r = 0 \<Longrightarrow> pop s = Done (None, s)"
    and pop_some: "ok s \<Longrightarrow> r0 \<in># bag s \<Longrightarrow> 0 < key r0 \<Longrightarrow>
      \<exists>r s'. pop s = Done (Some r, s') \<and> r \<in># bag s \<and> (\<forall>x \<in># bag s. key x \<le> key r)
        \<and> bag s' = bag s - {#r#} \<and> ok s'"
    and size_bag: "size_of s = size (bag s)"
begin

lemma pop_cases:
  assumes "ok s"
  obtains (none) "pop s = Done (None, s)" and "\<forall>r \<in># bag s. key r = 0"
  | (some) r s' where "pop s = Done (Some r, s')" and "bag s = add_mset r (bag s')"
      and "\<forall>x \<in># bag s. key x \<le> key r" and "ok s'"
proof (cases "\<exists>r0 \<in># bag s. 0 < key r0")
  case True
  then obtain r0 where "r0 \<in># bag s" "0 < key r0" by blast
  from pop_some [OF assms this] obtain r s' where
    "pop s = Done (Some r, s')" "r \<in># bag s" "\<forall>x \<in># bag s. key x \<le> key r"
    "bag s' = bag s - {#r#}" "ok s'" by blast
  then show thesis by (intro some [of r s']) simp_all
next
  case False
  then show thesis using none pop_none [OF assms] by auto
qed

lemma pop_total: "ok s \<Longrightarrow> \<exists>r s'. pop s = Done (r, s') \<and> ok s'"
  by (metis pop_cases)

lemma size_add: "size_of (add r s) = Suc (size_of s)"
  by (simp add: size_bag bag_add)

lemma bag_fold_add: "bag (fold add rs s) = mset rs + bag s"
  by (induction rs arbitrary: s) (simp_all add: bag_add)

lemma ok_fold_add: "ok s \<Longrightarrow> ok (fold add rs s)"
  by (induction rs arbitrary: s) (simp_all add: ok_add)

lemma drain_spec:
  assumes "ok s"
  shows "\<exists>rs t. drain pop n s = Done (rs, t) \<and> mset rs + bag t = bag s
    \<and> sorted_wrt (\<lambda>a b. key b \<le> key a) rs \<and> (\<forall>r \<in> set rs. \<forall>x \<in># bag t. key x \<le> key r)
    \<and> (length rs < n \<longrightarrow> (\<forall>x \<in># bag t. key x = 0)) \<and> ok t"
  using assms
proof (induction n arbitrary: s)
  case 0
  then show ?case by simp
next
  case (Suc n)
  from Suc.prems show ?case
  proof (cases s rule: pop_cases)
    case none
    then show ?thesis using Suc.prems by simp
  next
    case (some r s')
    from Suc.IH [OF some(4)] obtain rs t where
      rs: "drain pop n s' = Done (rs, t)" "mset rs + bag t = bag s'"
        "sorted_wrt (\<lambda>a b. key b \<le> key a) rs" "\<forall>r \<in> set rs. \<forall>x \<in># bag t. key x \<le> key r"
        "length rs < n \<longrightarrow> (\<forall>x \<in># bag t. key x = 0)" "ok t"
      by blast
    have "\<forall>x \<in> set rs. key x \<le> key r" "\<forall>x \<in># bag t. key x \<le> key r"
      using some(2,3) rs(2) by (metis add_mset_add_single set_mset_mset union_iff)+
    with rs some show ?thesis by auto
  qed
qed

text \<open>Enough pops empty the pool of everything with a non-zero hash, nothing lost.\<close>

lemma drain_all:
  assumes "ok s" and "\<forall>r \<in># bag s. 0 < key r"
  shows "\<exists>rs t. drain pop (size_of s) s = Done (rs, t) \<and> mset rs = bag s \<and> bag t = {#}
    \<and> sorted_wrt (\<lambda>a b. key b \<le> key a) rs"
proof -
  from drain_spec [OF assms(1), of "size_of s"] obtain rs t where
    d: "drain pop (size_of s) s = Done (rs, t)" "mset rs + bag t = bag s"
      "sorted_wrt (\<lambda>a b. key b \<le> key a) rs" "length rs < size_of s \<longrightarrow> (\<forall>x \<in># bag t. key x = 0)"
    by blast
  have "bag t = {#}"
  proof (rule ccontr)
    assume ne: "bag t \<noteq> {#}"
    then obtain x where x: "x \<in># bag t" by blast
    then have "0 < key x" using assms(2) d(2) by (metis union_iff)
    moreover have "length rs < size_of s"
      using d(2) ne unfolding size_bag by (metis add.right_neutral linorder_neqE_nat
          nat_add_left_cancel_less not_add_less1 size_eq_0_iff_empty size_mset size_union not_gr_zero)
    ultimately show False using d(4) x by auto
  qed
  with d show ?thesis by auto
qed

end

section \<open>The queue of retired pools\<close>

locale fund_queue =
  fixes add :: "'p \<Rightarrow> i64 \<Rightarrow> 's \<Rightarrow> 's" and pop :: "'s \<Rightarrow> ('p option \<times> i64 \<times> 's) exec"
    and pop_after :: "i64 \<Rightarrow> 's \<Rightarrow> ('p option \<times> i64 \<times> 's) exec"
    and view :: "'s \<Rightarrow> i64 \<Rightarrow> 'p option" and ok :: "'s \<Rightarrow> bool"
  assumes view_add: "ok s \<Longrightarrow> view (add p h s) = (view s)(h \<mapsto> p)"
    and ok_add: "ok s \<Longrightarrow> ok (add p h s)"
    and pop_empty: "ok s \<Longrightarrow> \<nexists>h. oldest (view s) h \<Longrightarrow> pop s = Done (None, 0, s)"
    and pop_oldest: "ok s \<Longrightarrow> oldest (view s) h \<Longrightarrow>
      \<exists>s'. pop s = Done (view s h, h, s') \<and> view s' = (view s)(h := None) \<and> ok s'"
    and pop_after_due: "ok s \<Longrightarrow> oldest (view s) h \<Longrightarrow> due c h \<Longrightarrow> pop_after c s = pop s"
    and pop_after_wait: "ok s \<Longrightarrow> \<nexists>h. oldest (view s) h \<and> due c h \<Longrightarrow> pop_after c s = Done (None, 0, s)"
begin

lemma pop_after_cases:
  assumes "ok s"
  obtains (wait) "pop_after c s = Done (None, 0, s)" and "\<nexists>h. oldest (view s) h \<and> due c h"
  | (got) h p s' where "oldest (view s) h" and "due c h" and "view s h = Some p"
      and "pop_after c s = Done (Some p, h, s')" and "view s' = (view s)(h := None)" and "ok s'"
proof (cases "\<exists>h. oldest (view s) h \<and> due c h")
  case True
  then obtain h where h: "oldest (view s) h" "due c h" by blast
  then obtain p where "view s h = Some p" by (auto simp: oldest_def)
  moreover obtain s' where "pop s = Done (view s h, h, s')" "view s' = (view s)(h := None)" "ok s'"
    using pop_oldest [OF assms h(1)] by blast
  ultimately show thesis using got h pop_after_due [OF assms h] by auto
next
  case False
  then show thesis using wait pop_after_wait [OF assms] by blast
qed

lemma pop_after_total: "ok s \<Longrightarrow> \<exists>p h s'. pop_after c s = Done (p, h, s') \<and> ok s'"
  by (metis pop_after_cases)

text \<open>Nothing is lost: a pop takes out one entry and leaves the others alone.\<close>

lemma pop_after_frame:
  "ok s \<Longrightarrow> pop_after c s = Done (q, h, s') \<Longrightarrow>
     (q = None \<longrightarrow> view s' = view s) \<and> (\<forall>p. q = Some p \<longrightarrow> view s h = Some p \<and> view s' = (view s)(h := None))"
  by (erule pop_after_cases [of s c]) auto

text \<open>When a pop gives nothing, every entry is less than seven blocks old.\<close>

lemma pop_after_none_young:
  assumes "ok s" and "pop_after c s = Done (None, k, s')" and "view s h = Some p" and "h \<noteq> int64_max"
    and "0 \<le> sint c" and "\<forall>j \<in> dom (view s). 0 \<le> sint j" and fin: "finite (dom (view s))"
  shows "sint c \<le> sint h + 6"
proof (rule ccontr)
  assume late: "\<not> sint c \<le> sint h + 6"
  let ?o = "arg_min_on sint (dom (view s))"
  have dom: "h \<in> dom (view s)" using assms(3) by auto
  then have ne: "dom (view s) \<noteq> {}" by blast
  have o: "?o \<in> dom (view s)" "\<forall>j \<in> dom (view s). sint ?o \<le> sint j"
    using arg_min_if_finite(1) [OF fin ne] arg_min_least [OF fin ne] by blast+
  have lt: "sint h < sint int64_max" using assms(4) unfolding sint_less_max_iff .
  then have "?o \<noteq> int64_max" using o(2) dom by force
  with o have old: "oldest (view s) ?o" by (simp add: oldest_def)
  have b: "0 \<le> sint ?o" "sint c < 2 ^ 63" using assms(6) o(1) sint_lt [of c] by auto
  have "sint ?o + 6 < sint c" using o(2) dom late by force
  then have "due c ?o" using b assms(5) sint_lt [of ?o] by (subst due_iff) auto
  with old have "pop_after c s = pop s" by (intro pop_after_due [OF assms(1)])
  moreover obtain s'' where "pop s = Done (view s ?o, ?o, s'')" using pop_oldest [OF assms(1) old] by blast
  ultimately show False using assms(2) o(1) by auto
qed

text \<open>An entry filed \<open>gap\<close> blocks back into an empty queue is due when \<open>gap\<close> exceeds 6.\<close>

lemma pop_after_add_empty:
  assumes "ok s" and "view s = (\<lambda>_. None)" and "h \<noteq> int64_max"
  shows "(\<exists>s'. pop_after c (add p h s) = Done (Some p, h, s')) \<longleftrightarrow> due c h"
proof -
  have v: "view (add p h s) = [h \<mapsto> p]" using view_add [OF assms(1)] assms(2) by simp
  then have old: "oldest (view (add p h s)) j \<longleftrightarrow> j = h" for j
    using assms(3) by (auto simp: oldest_def)
  show ?thesis
    using ok_add [OF assms(1), of p h] v old
    by (cases rule: pop_after_cases [of "add p h s" c]) (auto split: if_splits)
qed

end

section \<open>The cache of the last two pools\<close>

text \<open>
  \<open>accept v\<close> is the cache entry an update with \<open>v\<close> makes, \<open>None\<close> when the update is refused.
\<close>

locale pool_cache =
  fixes get :: "'s \<Rightarrow> pool_pair" and upd :: "'v \<Rightarrow> 's \<Rightarrow> 's" and accept :: "'v \<Rightarrow> PoolInfo option"
  assumes get_upd: "accept v = Some p \<Longrightarrow>
      get (upd v s) = ((case snd (get s) of None \<Rightarrow> fst (get s) | Some q \<Rightarrow> Some q), Some p)"
    and get_upd_refused: "accept v = None \<Longrightarrow> get (upd v s) = get s"
begin

lemma get_upd_latest: "accept v = Some p \<Longrightarrow> snd (get (upd v s)) = Some p"
  by (simp add: get_upd)

lemma get_upd_upd: "accept v = Some p \<Longrightarrow> accept w = Some q \<Longrightarrow> get (upd w (upd v s)) = (Some p, Some q)"
  by (simp add: get_upd)

text \<open>From an empty cache, it always holds the last two accepted pools, the latest second.\<close>

lemma get_fold_upd:
  assumes "get s = (None, None)"
  shows "get (fold upd vs s) =
     (let ps = List.map_filter accept vs
      in (if length ps < 2 then None else Some (ps ! (length ps - 2)),
          if ps = [] then None else Some (last ps)))"
proof (induction vs rule: rev_induct)
  case Nil
  then show ?case by (simp add: assms map_filter_simps)
next
  case (snoc v vs)
  have app: "List.map_filter accept (vs @ [v]) = List.map_filter accept vs
      @ (case accept v of None \<Rightarrow> [] | Some p \<Rightarrow> [p])"
    by (induction vs) (auto simp: map_filter_simps split: option.splits)
  show ?case
  proof (cases "accept v")
    case None
    then show ?thesis using snoc by (simp add: app get_upd_refused)
  next
    case (Some p)
    then show ?thesis using snoc
      by (auto simp: app get_upd Let_def nth_append last_conv_nth Suc_diff_Suc numeral_2_eq_2
          less_Suc_eq_0_disj Suc_le_eq split: option.splits)
  qed
qed

end

end
