(* ===== verification/Pub_Types.thy ===== *)
theory Pub_Types
  imports Misc_Helper Bridge_Queues
begin

text \<open>
  \<open>pubchain/types.go\<close> and the pool operations of \<open>pubchain/tx_inbound.go\<close>: the requests
  and pending transactions of the public chain side, the state \<open>PubChainInstance\<close>, its
  retry pool, its queue of retired pools and its cache of the last two pools, with the
  interpretations of the three interfaces of \<open>Bridge_Queues\<close>.

  The clients, the token contract, the logger and the locks of the Go struct are not part
  of the state: clients are answered by parameters, and every operation below runs under
  its lock (or on a \<open>sync.Map\<close>) as one atomic step. Items are Go pointers that at most one
  container holds at a time, so they are values here.
\<close>

section \<open>Data\<close>

record InboundReq =
  ir_address :: acc_address
  ir_txID :: bytes
  ir_toPoolAddr :: eth_address
  ir_coin :: Coin
  ir_blockHeight :: i64

record inboundTx =
  itx_address :: acc_address
  pubBlockHeight :: u64
  itx_token :: Coin
  itx_fee :: Coin

record inboundTxBnb =
  bnb_blockHeight :: u64
  bnb_txID :: string
  bnb_fee :: Coin

record PubChainInstance =
  tokenAddr :: string
  pendingInbounds :: "(string, inboundTx) syncmap"
  pendingInboundsBnB :: "(string, inboundTxBnb) syncmap"
  pub_lastTwoPools :: pool_pair
  InboundReqChan :: "InboundReq chan"
  RetryInboundReq :: "(nat \<times> InboundReq) list"
  pub_moveFundReq :: "(i64, PoolInfo) syncmap"
  pub_CurrentHeight :: i64

definition NewChainInstance :: "string \<Rightarrow> PubChainInstance" where
  "NewChainInstance addr =
     \<lparr>tokenAddr = addr, pendingInbounds = [], pendingInboundsBnB = [],
      pub_lastTwoPools = (None, None), InboundReqChan = [], RetryInboundReq = [],
      pub_moveFundReq = [], pub_CurrentHeight = 0\<rparr>"

definition NewAccountInboundReq ::
    "acc_address \<Rightarrow> eth_address \<Rightarrow> Coin \<Rightarrow> bytes \<Rightarrow> i64 \<Rightarrow> InboundReq" where
  "NewAccountInboundReq address toPool c txid height =
     \<lparr>ir_address = address, ir_txID = txid, ir_toPoolAddr = toPool, ir_coin = c, ir_blockHeight = height\<rparr>"

definition inbound_Hash :: "ext \<Rightarrow> InboundReq \<Rightarrow> bytes" where
  "inbound_Hash e i = Keccak256Hash e [ir_address i, ir_txID i]"

definition GetInboundReqInfo :: "InboundReq \<Rightarrow> acc_address \<times> eth_address \<times> Coin \<times> i64" where
  "GetInboundReqInfo acq = (ir_address acq, ir_toPoolAddr acq, ir_coin acq, ir_blockHeight acq)"

definition inbound_SetItemHeight :: "i64 \<Rightarrow> InboundReq \<Rightarrow> InboundReq" where
  "inbound_SetItemHeight h acq = acq\<lparr>ir_blockHeight := h\<rparr>"

section \<open>The retry pool\<close>

definition inbound_key :: "ext \<Rightarrow> InboundReq \<Rightarrow> nat" where
  "inbound_key e r = HashBig e (inbound_Hash e r)"

definition pub_AddItem :: "ext \<Rightarrow> InboundReq \<Rightarrow> PubChainInstance \<Rightarrow> PubChainInstance" where
  "pub_AddItem e req pi = pi\<lparr>RetryInboundReq := RetryInboundReq pi @ [(inbound_key e req, req)]\<rparr>"

definition pub_PopItem :: "PubChainInstance \<Rightarrow> (InboundReq option \<times> PubChainInstance) exec" where
  "pub_PopItem pi =
     (let mx = scan_max (RetryInboundReq pi)
      in if 0 < mx then
           (case take_first (\<lambda>(h, _). h = mx) (RetryInboundReq pi) of
              None \<Rightarrow> Panic ''interface conversion: interface is nil''
            | Some ((_, item), rest) \<Rightarrow> Done (Some item, pi\<lparr>RetryInboundReq := rest\<rparr>))
         else Done (None, pi))"

definition pub_Size :: "PubChainInstance \<Rightarrow> nat" where
  "pub_Size pi = fold (\<lambda>_ i. i + 1) (RetryInboundReq pi) 0"

section \<open>The queue of retired pools\<close>

definition pub_AddMoveFundItem :: "PoolInfo \<Rightarrow> i64 \<Rightarrow> PubChainInstance \<Rightarrow> PubChainInstance" where
  "pub_AddMoveFundItem pool height pi = pi\<lparr>pub_moveFundReq := sm_Store height pool (pub_moveFundReq pi)\<rparr>"

definition pub_take_fund :: "i64 \<Rightarrow> PubChainInstance \<Rightarrow> (PoolInfo option \<times> i64 \<times> PubChainInstance) exec" where
  "pub_take_fund mn pi =
     (case sm_LoadAndDelete mn (pub_moveFundReq pi) of
        (None, _) \<Rightarrow> Panic ''interface conversion: interface is nil''
      | (Some item, m) \<Rightarrow> Done (Some item, mn, pi\<lparr>pub_moveFundReq := m\<rparr>))"

definition pub_PopMoveFundItem :: "PubChainInstance \<Rightarrow> (PoolInfo option \<times> i64 \<times> PubChainInstance) exec" where
  "pub_PopMoveFundItem pi =
     (let mn = scan_min (pub_moveFundReq pi)
      in if sint mn < sint int64_max then pub_take_fund mn pi else Done (None, 0, pi))"

definition pub_PopMoveFundItemAfterBlock ::
    "i64 \<Rightarrow> PubChainInstance \<Rightarrow> (PoolInfo option \<times> i64 \<times> PubChainInstance) exec" where
  "pub_PopMoveFundItemAfterBlock current pi =
     (let mn = scan_min (pub_moveFundReq pi)
      in if sint mn < sint int64_max \<and> due current mn then pub_take_fund mn pi else Done (None, 0, pi))"

section \<open>The cache of the last two pools\<close>

definition pub_UpdatePool ::
    "ext \<Rightarrow> VaultPool option \<Rightarrow> PubChainInstance \<Rightarrow> (goerror option \<times> PubChainInstance) exec" where
  "pub_UpdatePool e pool pi =
     (case pool of
        None \<Rightarrow> Done (Some ''nil pool'', pi)
      | Some v \<Rightarrow>
     (case CreatePool v of
        None \<Rightarrow> Panic ''nil pointer dereference''
      | Some cp \<Rightarrow>
     (case PoolPubKeyToJoltAddress e (PoolPubKey cp) of
        Inl err \<Rightarrow> Done (Some err, pi)
      | Inr addr \<Rightarrow>
     (case PoolPubKeyToEthAddress e (PoolPubKey cp) of
        Inl err \<Rightarrow> Done (Some err, pi)
      | Inr ethAddr \<Rightarrow>
     (let p = \<lparr>Pk = PoolPubKey cp, JoltifyAddress = addr, EthAddress = ethAddr, VaultInfo = Some v\<rparr>;
          (old, latest) = pub_lastTwoPools pi
      in Done (None, pi\<lparr>pub_lastTwoPools :=
           ((case latest of None \<Rightarrow> old | Some q \<Rightarrow> Some q), Some p)\<rparr>))))))"

definition pub_GetPool :: "PubChainInstance \<Rightarrow> PoolInfo option list" where
  "pub_GetPool pi = [fst (pub_lastTwoPools pi), snd (pub_lastTwoPools pi)]"

definition checkToBridge :: "ext \<Rightarrow> eth_address \<Rightarrow> PubChainInstance \<Rightarrow> bool" where
  "checkToBridge e dest pi =
     list_ex (\<lambda>el. case el of None \<Rightarrow> False | Some p \<Rightarrow> EthHex e dest = EthHex e (EthAddress p))
       (pub_GetPool pi)"

section \<open>The interfaces, discharged\<close>

definition pub_retry_ok :: "ext \<Rightarrow> PubChainInstance \<Rightarrow> bool" where
  "pub_retry_ok e pi \<longleftrightarrow> (\<forall>(h, r) \<in> set (RetryInboundReq pi). h = inbound_key e r)"

definition pub_retry_bag :: "PubChainInstance \<Rightarrow> InboundReq multiset" where
  "pub_retry_bag pi = image_mset snd (mset (RetryInboundReq pi))"

interpretation pub_retry: retry_pool "pub_AddItem e" pub_PopItem pub_Size "inbound_key e"
  pub_retry_bag "pub_retry_ok e" for e
proof unfold_locales
  fix s r0
  assume ok: "pub_retry_ok e s" and r0: "r0 \<in># pub_retry_bag s" "0 < inbound_key e r0"
  show "\<exists>r s'. pub_PopItem s = Done (Some r, s') \<and> r \<in># pub_retry_bag s
      \<and> (\<forall>x \<in># pub_retry_bag s. inbound_key e x \<le> inbound_key e r)
      \<and> pub_retry_bag s' = pub_retry_bag s - {#r#} \<and> pub_retry_ok e s'"
    by (rule retry_pop_some [OF ok [unfolded pub_retry_ok_def] r0(1) [unfolded pub_retry_bag_def] r0(2)])
      (auto simp: pub_PopItem_def pub_retry_bag_def pub_retry_ok_def Let_def)
next
  fix s
  assume ok: "pub_retry_ok e s" and r0: "\<forall>r \<in># pub_retry_bag s. inbound_key e r = 0"
  show "pub_PopItem s = Done (None, s)"
    using retry_pop_none [OF ok [unfolded pub_retry_ok_def] r0 [unfolded pub_retry_bag_def]]
    by (simp add: pub_PopItem_def Let_def)
qed (simp_all add: pub_AddItem_def pub_Size_def pub_retry_bag_def pub_retry_ok_def fold_count)

definition pub_fund_view :: "PubChainInstance \<Rightarrow> i64 \<Rightarrow> PoolInfo option" where
  "pub_fund_view pi = (\<lambda>h. sm_Load h (pub_moveFundReq pi))"

definition pub_fund_ok :: "PubChainInstance \<Rightarrow> bool" where
  "pub_fund_ok pi \<longleftrightarrow> sm_wf (pub_moveFundReq pi)"

lemma pub_take_fund_oldest:
  assumes "pub_fund_ok s" and "oldest (pub_fund_view s) h"
  shows "\<exists>s'. pub_take_fund h s = Done (pub_fund_view s h, h, s')
    \<and> pub_fund_view s' = (pub_fund_view s)(h := None) \<and> pub_fund_ok s'"
  using assms
  by (auto simp: pub_take_fund_def sm_LoadAndDelete_eq pub_fund_view_def pub_fund_ok_def oldest_def
      sm.load_del sm.wf_del fun_eq_iff split: option.splits)

interpretation pub_fund: fund_queue pub_AddMoveFundItem pub_PopMoveFundItem
  pub_PopMoveFundItemAfterBlock pub_fund_view pub_fund_ok
proof unfold_locales
  fix s :: PubChainInstance and h c :: i64
  assume ok: "pub_fund_ok s"
  note scan = oldest_scan_min [OF ok [unfolded pub_fund_ok_def] pub_fund_view_def]
  show "\<nexists>h. oldest (pub_fund_view s) h \<Longrightarrow> pub_PopMoveFundItem s = Done (None, 0, s)"
    using scan(1) by (auto simp: pub_PopMoveFundItem_def Let_def)
  show "\<nexists>h. oldest (pub_fund_view s) h \<and> due c h \<Longrightarrow> pub_PopMoveFundItemAfterBlock c s = Done (None, 0, s)"
    using scan(1) by (auto simp: pub_PopMoveFundItemAfterBlock_def Let_def)
  assume old: "oldest (pub_fund_view s) h"
  then have mn: "scan_min (pub_moveFundReq s) = h" and lt: "sint h < sint int64_max"
    using scan by auto
  show "\<exists>s'. pub_PopMoveFundItem s = Done (pub_fund_view s h, h, s')
      \<and> pub_fund_view s' = (pub_fund_view s)(h := None) \<and> pub_fund_ok s'"
    using pub_take_fund_oldest [OF ok old] mn lt by (simp add: pub_PopMoveFundItem_def)
  show "due c h \<Longrightarrow> pub_PopMoveFundItemAfterBlock c s = pub_PopMoveFundItem s"
    using mn lt by (simp add: pub_PopMoveFundItem_def pub_PopMoveFundItemAfterBlock_def)
qed (auto simp: pub_fund_view_def pub_fund_ok_def pub_AddMoveFundItem_def sm.load_store sm.wf_store fun_eq_iff)

text \<open>The cache entry an accepted update makes.\<close>

definition pool_entry :: "ext \<Rightarrow> VaultPool \<Rightarrow> PoolInfo option" where
  "pool_entry e v =
     (case CreatePool v of None \<Rightarrow> None | Some cp \<Rightarrow>
     (case (PoolPubKeyToJoltAddress e (PoolPubKey cp), PoolPubKeyToEthAddress e (PoolPubKey cp)) of
        (Inr addr, Inr ethAddr) \<Rightarrow>
          Some \<lparr>Pk = PoolPubKey cp, JoltifyAddress = addr, EthAddress = ethAddr, VaultInfo = Some v\<rparr>
      | _ \<Rightarrow> None))"

definition pub_upd :: "ext \<Rightarrow> VaultPool \<Rightarrow> PubChainInstance \<Rightarrow> PubChainInstance" where
  "pub_upd e v pi = (case pub_UpdatePool e (Some v) pi of Done (_, pi') \<Rightarrow> pi' | _ \<Rightarrow> pi)"

interpretation pub_cache: pool_cache pub_lastTwoPools "pub_upd e" "pool_entry e" for e
  by unfold_locales
    (auto simp: pub_upd_def pub_UpdatePool_def pool_entry_def split: option.splits sum.splits prod.splits)

lemma pub_UpdatePool_done:
  "CreatePool v \<noteq> None \<Longrightarrow> \<exists>err. pub_UpdatePool e (Some v) pi = Done (err, pub_upd e v pi)
     \<and> (err = None \<longleftrightarrow> pool_entry e v \<noteq> None)"
  by (auto simp: pub_upd_def pub_UpdatePool_def pool_entry_def Let_def split: option.splits sum.splits prod.splits)

lemma pub_upd_only_pools: "pub_upd e v pi = pi\<lparr>pub_lastTwoPools := pub_lastTwoPools (pub_upd e v pi)\<rparr>"
  by (auto simp: pub_upd_def pub_UpdatePool_def Let_def split: option.splits sum.splits prod.splits)

section \<open>Properties\<close>

text \<open>
  The inbound retry pool loses nothing and repeats nothing. Popping as often as \<open>Size\<close>
  says returns exactly the requests that were added, each once (twice when it was added
  twice), those with the larger hash first, and leaves the pool empty; this needs every
  request to have a non-zero hash.
\<close>

theorem pub_retry_drain:
  assumes "\<forall>r \<in> set reqs. 0 < inbound_key e r"
  shows "\<exists>rs t. drain pub_PopItem (length reqs) (fold (pub_AddItem e) reqs (NewChainInstance addr)) = Done (rs, t)
    \<and> mset rs = mset reqs \<and> pub_Size t = 0 \<and> sorted_wrt (\<lambda>a b. inbound_key e b \<le> inbound_key e a) rs"
proof -
  let ?s = "fold (pub_AddItem e) reqs (NewChainInstance addr)"
  have "pub_retry_ok e (NewChainInstance addr) \<and> pub_retry_bag (NewChainInstance addr) = {#}"
    by (simp add: NewChainInstance_def pub_retry_ok_def pub_retry_bag_def)
  then have s: "pub_retry_ok e ?s" "pub_retry_bag ?s = mset reqs"
    using pub_retry.ok_fold_add pub_retry.bag_fold_add by auto
  then have "pub_Size ?s = length reqs" by (simp add: pub_retry.size_bag)
  with pub_retry.drain_all [OF s(1)] s(2) assms show ?thesis
    by (auto simp: pub_retry.size_bag)
qed

theorem pub_retry_drain_witness:
  "\<exists>rs t. drain pub_PopItem 1 (fold (pub_AddItem sample_ext)
       [NewAccountInboundReq [1] [2] \<lparr>Denom = InBoundDenom, Amount = 5\<rparr> [3] 0] (NewChainInstance ''0x''))
     = Done (rs, t) \<and> mset rs = {#NewAccountInboundReq [1] [2] \<lparr>Denom = InBoundDenom, Amount = 5\<rparr> [3] 0#}"
proof -
  let ?rs = "[NewAccountInboundReq [1] [2] \<lparr>Denom = InBoundDenom, Amount = 5\<rparr> [3] 0]"
  have "\<forall>r \<in> set ?rs. 0 < inbound_key sample_ext r"
    by (simp add: inbound_key_def inbound_Hash_def sample_ext_def NewAccountInboundReq_def big_SetBytes_def)
  from pub_retry_drain [OF this, of "''0x''"] show ?thesis by auto
qed

text \<open>
  The queue of retired pools. A pool filed at height h into an empty queue comes out of
  \<open>PopMoveFundItemAfterBlock\<close> at height c exactly when more than six blocks have passed;
  filed the way the event loop files it (current - 6 + 5) it therefore waits until six
  blocks after the current one, and the first try is not immediate.
\<close>

theorem pub_fund_gap:
  assumes "pub_moveFundReq pi = []" and "0 \<le> sint cur" and "0 \<le> sint c" and "sint cur < 2 ^ 62" and "sint c < 2 ^ 62"
  shows "(\<exists>s'. pub_PopMoveFundItemAfterBlock c (pub_AddMoveFundItem p (cur - MINCHECKBLOCKGAP + 5) pi)
            = Done (Some p, cur - MINCHECKBLOCKGAP + 5, s'))
         \<longleftrightarrow> sint cur + 6 \<le> sint c"
proof -
  have h: "cur - MINCHECKBLOCKGAP + 5 = cur - 1" by (simp add: MINCHECKBLOCKGAP_def)
  have s: "sint (cur - 1) = sint cur - 1"
    using assms(2,4) sint_diff_small [of cur 1] by simp
  have ne: "cur - 1 \<noteq> int64_max"
  proof
    assume "cur - 1 = int64_max"
    then have "sint cur - 1 = 2 ^ 63 - 1" using s sint_int64_max by metis
    then show False using assms(4) by simp
  qed
  have "due c (cur - 1) \<longleftrightarrow> sint (cur - 1) + 6 < sint c"
    using s assms by (intro due_iff) simp_all
  moreover have "pub_fund_ok pi \<and> pub_fund_view pi = (\<lambda>_. None)"
    using assms(1) by (simp add: pub_fund_ok_def pub_fund_view_def)
  ultimately show ?thesis
    using pub_fund.pop_after_add_empty [of pi "cur - 1" c p] ne s unfolding h by auto
qed

theorem pub_fund_gap_witness:
  "\<exists>s'. pub_PopMoveFundItemAfterBlock 106 (pub_AddMoveFundItem
       \<lparr>Pk = ''pk'', JoltifyAddress = [1], EthAddress = [2], VaultInfo = None\<rparr>
       (100 - MINCHECKBLOCKGAP + 5) (NewChainInstance ''0x''))
     = Done (Some \<lparr>Pk = ''pk'', JoltifyAddress = [1], EthAddress = [2], VaultInfo = None\<rparr>,
         100 - MINCHECKBLOCKGAP + 5, s')"
  by (subst pub_fund_gap) (simp_all add: NewChainInstance_def)

text \<open>
  The pool cache. After any sequence of updates from an empty cache, in which some are
  refused (a key that does not decode), slot 1 holds the last accepted pool and slot 0 the
  one accepted before it, each with the addresses derived from its key.
\<close>

theorem pub_UpdatePool_latest_two:
  "pub_lastTwoPools (fold (pub_upd e) vs (NewChainInstance addr)) =
     (let ps = List.map_filter (pool_entry e) vs
      in (if length ps < 2 then None else Some (ps ! (length ps - 2)),
          if ps = [] then None else Some (last ps)))"
  by (rule pub_cache.get_fold_upd) (simp add: NewChainInstance_def)

end
