(* ===== verification/Pub_Inbound.thy ===== *)
theory Pub_Inbound
  imports Pub_Types
begin

text \<open>
  \<open>pubchain/tx_inbound.go\<close>: how a block of the public chain becomes mint requests. A
  token transfer (ERC20) and a fee payment (BNB, whose data names the transfer) meet in
  \<open>pendingInbounds\<close> and \<open>pendingInboundsBnB\<close>; when the fee is enough, the request goes to
  the channel (transfer last) or to the retry pool (fee last).

  The node's answers are parameters, in \<open>pub_env\<close>: the receipt of a transaction, and the
  ABI decoder of the \<open>transfer\<close> arguments (\<open>None\<close> when the ABI has no such method).
\<close>

section \<open>Transactions and the node's answers\<close>

record EthTx =
  tx_To :: "eth_address option"
  tx_Data :: "bytes option"
  tx_Value :: int
  tx_Hash :: bytes
  tx_ChainId :: u64
  tx_SigningHash :: bytes
  tx_V :: int
  tx_R :: int
  tx_S :: int

record EthBlock =
  Transactions :: "EthTx list"
  NumberU64 :: u64

datatype abi_value = AbiAddress eth_address | AbiInt int | AbiUint8 byte | AbiString string | AbiBool bool
  | AbiAddresses "eth_address list" | AbiOther

record pub_env =
  transfer_Unpack :: "(bytes \<Rightarrow> goerror + abi_value list) option"
  Receipt :: "bytes \<Rightarrow> goerror + u64"

section \<open>Operations\<close>

definition inbound_Verify :: "ext \<Rightarrow> inboundTx \<Rightarrow> goerror option exec" where
  "inbound_Verify e a =
     (if Denom (itx_fee a) \<noteq> InBoundDenomFee then
        Done (Some (''invalid inbound fee denom with fee demo : '' @ Denom (itx_fee a)
                      @ '' and want '' @ InBoundDenom))
      else case NewDecFromStr e InBoundFeeMin of
        Inl _ \<Rightarrow> Done (Some ''invalid minimal inbound fee'')
      | Inr amount \<Rightarrow>
          exec_bind (or_panic ''NewIntFromBigInt() out of bound'' (NewIntFromBigInt e amount)) (\<lambda>m.
          if Amount (itx_fee a) < m then Done (Some ''the fee is not enough'') else Done None))"

definition updateInboundTx ::
    "ext \<Rightarrow> string \<Rightarrow> int \<Rightarrow> u64 \<Rightarrow> PubChainInstance \<Rightarrow> (inboundTx option \<times> PubChainInstance) exec" where
  "updateInboundTx e txID amount blockNum pi =
     (case sm_Load txID (pendingInbounds pi) of
        None \<Rightarrow>
          exec_bind (or_panic ''NewIntFromBigInt() out of bound'' (NewIntFromBigInt e amount)) (\<lambda>n.
          exec_bind (or_panic ''invalid coin'' (NewCoin e InBoundDenomFee n)) (\<lambda>c.
          Done (None, pi\<lparr>pendingInboundsBnB := sm_Store txID
             \<lparr>bnb_blockHeight = blockNum, bnb_txID = txID, bnb_fee = c\<rparr> (pendingInboundsBnB pi)\<rparr>)))
      | Some data \<Rightarrow>
          exec_bind (or_panic ''NewIntFromBigInt() out of bound'' (NewIntFromBigInt e amount)) (\<lambda>n.
          exec_bind (or_panic ''Int overflow'' (IntAdd e (Amount (itx_fee data)) n)) (\<lambda>total.
          let thisAccount = data\<lparr>itx_fee := (itx_fee data)\<lparr>Amount := total\<rparr>\<rparr>
          in exec_bind (inbound_Verify e thisAccount) (\<lambda>err.
             case err of
               Some _ \<Rightarrow> Done (None, pi\<lparr>pendingInbounds := sm_Store txID thisAccount (pendingInbounds pi)\<rparr>)
             | None \<Rightarrow> Done (Some thisAccount, pi\<lparr>pendingInbounds := sm_Delete txID (pendingInbounds pi)\<rparr>)))))"

definition processInboundTx ::
    "ext \<Rightarrow> string \<Rightarrow> u64 \<Rightarrow> acc_address \<Rightarrow> eth_address \<Rightarrow> int \<Rightarrow> eth_address
       \<Rightarrow> PubChainInstance \<Rightarrow> (goerror option \<times> PubChainInstance) exec" where
  "processInboundTx e txID blockHeight from to val addr pi =
     (if sm_Load txID (pendingInbounds pi) \<noteq> None then Done (Some ''tx existed'', pi)
      else if EthHex e addr \<noteq> tokenAddr pi then Done (Some ''incorrect top up token'', pi)
      else
        exec_bind (or_panic ''NewIntFromBigInt() out of bound'' (NewIntFromBigInt e val)) (\<lambda>n.
        let token = \<lparr>Denom = InBoundDenom, Amount = n\<rparr>;
            (inTxBnB, bnbs) = sm_LoadAndDelete txID (pendingInboundsBnB pi);
            pi1 = pi\<lparr>pendingInboundsBnB := bnbs\<rparr>
        in case inTxBnB of
             None \<Rightarrow>
               (let fee = \<lparr>Denom = InBoundDenomFee, Amount = 0\<rparr>;
                    tx = \<lparr>itx_address = from, pubBlockHeight = blockHeight, itx_token = token, itx_fee = fee\<rparr>
                in Done (None, pi1\<lparr>pendingInbounds := sm_Store txID tx (pendingInbounds pi1)\<rparr>))
           | Some b \<Rightarrow>
               (let tx = \<lparr>itx_address = from, pubBlockHeight = blockHeight, itx_token = token, itx_fee = bnb_fee b\<rparr>
                in exec_bind (inbound_Verify e tx) (\<lambda>err.
                   case err of
                     Some _ \<Rightarrow> Done (None, pi1\<lparr>pendingInbounds := sm_Store txID tx (pendingInbounds pi1)\<rparr>)
                   | None \<Rightarrow>
                       (case hex_DecodeString txID of
                          None \<Rightarrow> Done (None, pi1)
                        | Some txIDBytes \<Rightarrow>
                            (let item = NewAccountInboundReq (itx_address tx) to (itx_token tx) txIDBytes blockHeight
                             in exec_bind (chan_send reqCacheSize item (InboundReqChan pi1)) (\<lambda>c.
                                Done (None, pi1\<lparr>InboundReqChan := c\<rparr>))))))))"

definition checkErc20 :: "pub_env \<Rightarrow> bytes \<Rightarrow> goerror + eth_address \<times> int" where
  "checkErc20 env data =
     (case transfer_Unpack env of
        None \<Rightarrow> Inl ''invalid method for decode''
      | Some unpack \<Rightarrow>
          if length data < 4 then Inl ''invalid data''
          else case unpack (drop 4 data) of
            Inl err \<Rightarrow> Inl err
          | Inr params \<Rightarrow>
              if length params \<noteq> 2 then Inl ''invalid transfer parameter''
              else case params ! 0 of
                AbiAddress toAddr \<Rightarrow>
                  (case params ! 1 of
                     AbiInt amount \<Rightarrow> Inr (toAddr, amount)
                   | _ \<Rightarrow> Inl ''not valid amount'')
              | _ \<Rightarrow> Inl ''not valid address'')"

definition ProcessInBoundERC20 ::
    "ext \<Rightarrow> EthTx \<Rightarrow> eth_address \<Rightarrow> eth_address \<Rightarrow> int \<Rightarrow> u64
       \<Rightarrow> PubChainInstance \<Rightarrow> (goerror option \<times> PubChainInstance) exec" where
  "ProcessInBoundERC20 e tx tokAddr transferTo amount blockHeight pi =
     (let plainV = RecoverRecID (tx_ChainId tx) (tx_V tx)
      in exec_bind (MakeSignature (tx_R tx) (tx_S tx) plainV) (\<lambda>sigBytes.
         case Ecrecover e (tx_SigningHash tx) sigBytes of
           Inl err \<Rightarrow> Done (Some err, pi)
         | Inr sigPublicKey \<Rightarrow>
             (case EthSignPubKeyToJoltAddr e sigPublicKey of
                Inl err \<Rightarrow> Done (Some err, pi)
              | Inr transferFrom \<Rightarrow>
                  processInboundTx e (drop 2 (HashHex e (tx_Hash tx))) blockHeight transferFrom
                    transferTo amount tokAddr pi)))"

definition checkEachTx :: "pub_env \<Rightarrow> bytes \<Rightarrow> goerror + u64" where
  "checkEachTx env h = Receipt env h"

text \<open>The fee part of the loop body: a payment to a pool whose data names a transfer.\<close>

definition process_fee ::
    "ext \<Rightarrow> u64 \<Rightarrow> EthTx \<Rightarrow> eth_address \<Rightarrow> PubChainInstance \<Rightarrow> PubChainInstance exec" where
  "process_fee e number tx to pi =
     (if checkToBridge e to pi then
        (case tx_Data tx of
           None \<Rightarrow> Done pi
         | Some payTxID \<Rightarrow>
             exec_bind (updateInboundTx e (hex_EncodeToString payTxID) (tx_Value tx) number pi)
               (\<lambda>(account, pi1).
                  case account of
                    None \<Rightarrow> Done pi1
                  | Some a \<Rightarrow>
                      Done (pub_AddItem e (NewAccountInboundReq (itx_address a) to (itx_token a) payTxID 0) pi1)))
      else Done pi)"

text \<open>One round of the loop over the block's transactions; \<open>Done pi\<close> early is \<open>continue\<close>.\<close>

definition process_tx ::
    "ext \<Rightarrow> pub_env \<Rightarrow> u64 \<Rightarrow> EthTx \<Rightarrow> PubChainInstance \<Rightarrow> PubChainInstance exec" where
  "process_tx e env number tx pi =
     (case tx_To tx of
        None \<Rightarrow> Done pi
      | Some to \<Rightarrow>
          if checkEachTx env (tx_Hash tx) \<noteq> Inr 1 then Done pi
          else case checkErc20 env (case tx_Data tx of None \<Rightarrow> [] | Some d \<Rightarrow> d) of
            Inr (toAddr, amount) \<Rightarrow>
              if EthHex e to \<noteq> tokenAddr pi then Done pi
              else if \<not> checkToBridge e toAddr pi then Done pi
              else exec_bind (ProcessInBoundERC20 e tx to toAddr amount number pi) (\<lambda>(err, pi1).
                     case err of Some _ \<Rightarrow> Done pi1 | None \<Rightarrow> process_fee e number tx to pi1)
          | Inl _ \<Rightarrow> process_fee e number tx to pi)"

definition processEachBlock ::
    "ext \<Rightarrow> pub_env \<Rightarrow> EthBlock \<Rightarrow> PubChainInstance \<Rightarrow> PubChainInstance exec" where
  "processEachBlock e env block pi =
     exec_fold (process_tx e env (NumberU64 block)) (Transactions block) pi"

text \<open>\<open>block\<close> is the node's answer to \<open>BlockByNumber\<close>.\<close>

definition ProcessNewBlock ::
    "ext \<Rightarrow> pub_env \<Rightarrow> goerror + EthBlock \<Rightarrow> PubChainInstance
       \<Rightarrow> (goerror option \<times> PubChainInstance) exec" where
  "ProcessNewBlock e env block pi =
     (case block of
        Inl err \<Rightarrow> Done (Some err, pi)
      | Inr b \<Rightarrow> exec_bind (processEachBlock e env b pi) (\<lambda>pi1. Done (None, pi1)))"

definition DeleteExpired :: "u64 \<Rightarrow> PubChainInstance \<Rightarrow> PubChainInstance" where
  "DeleteExpired currentHeight pi =
     (let expiredTx = sm_Range_select (\<lambda>el. TxTimeout < currentHeight - pubBlockHeight el) (pendingInbounds pi);
          pi1 = pi\<lparr>pendingInbounds := fold sm_Delete expiredTx (pendingInbounds pi)\<rparr>;
          expiredTxBnb = sm_Range_select (\<lambda>el. TxTimeout < currentHeight - bnb_blockHeight el) (pendingInboundsBnB pi1)
      in pi1\<lparr>pendingInboundsBnB := fold sm_Delete expiredTxBnb (pendingInboundsBnB pi1)\<rparr>)"

text \<open>
  \<open>CheckTxStatus\<close> polls through \<open>backoff.Retry\<close>, a parameter: given the answer of each
  attempt, it returns the number of the last attempt and what \<open>Retry\<close> returns. Attempt k
  asks the node \<open>envs k\<close> for the receipt; \<open>status\<close> keeps the last one.
\<close>

definition retry_ok :: "((nat \<Rightarrow> goerror option) \<Rightarrow> nat \<times> goerror option) \<Rightarrow> bool" where
  "retry_ok Retry \<longleftrightarrow> (\<forall>op. snd (Retry op) = op (fst (Retry op)) \<and> (\<forall>k < fst (Retry op). op k \<noteq> None))"

definition pub_CheckTxStatus ::
    "ext \<Rightarrow> ((nat \<Rightarrow> goerror option) \<Rightarrow> nat \<times> goerror option) \<Rightarrow> (nat \<Rightarrow> pub_env) \<Rightarrow> string \<Rightarrow> goerror option" where
  "pub_CheckTxStatus e Retry envs hashStr =
     (let answers = (\<lambda>k. checkEachTx (envs k) (HexToHash e hashStr));
          op = (\<lambda>k. case answers k of Inl err \<Rightarrow> Some err | Inr _ \<Rightarrow> None);
          (n, err) = Retry op;
          status = fold (\<lambda>k st. case answers k of Inl _ \<Rightarrow> st | Inr ret \<Rightarrow> ret) [0..<Suc n] 0
      in case err of
           Some x \<Rightarrow> Some x
         | None \<Rightarrow> if status \<noteq> 1 then Some ''tx failed'' else None)"

section \<open>What the operations do, under the laws of the sdk's numbers\<close>

lemma inbound_Verify_eq:
  assumes "sdk_ok M e"
  shows "inbound_Verify e a = Done
     (if Denom (itx_fee a) \<noteq> InBoundDenomFee then
        Some (''invalid inbound fee denom with fee demo : '' @ Denom (itx_fee a)
                      @ '' and want '' @ InBoundDenom)
      else if Amount (itx_fee a) < 10 then Some ''the fee is not enough'' else None)"
  using assms by (simp add: inbound_Verify_def sdk_ok_min)

lemma updateInboundTx_unknown:
  assumes "sdk_ok M e" and "sm_Load txID (pendingInbounds pi) = None" and "0 \<le> amount"
  shows "updateInboundTx e txID amount n pi =
     (if amount < 2 ^ M then
        Done (None, pi\<lparr>pendingInboundsBnB := sm_Store txID
          \<lparr>bnb_blockHeight = n, bnb_txID = txID, bnb_fee = \<lparr>Denom = InBoundDenomFee, Amount = amount\<rparr>\<rparr>
          (pendingInboundsBnB pi)\<rparr>)
      else Panic ''NewIntFromBigInt() out of bound'')"
  using assms by (simp add: updateInboundTx_def sdk_ok_ints)

lemma updateInboundTx_known:
  assumes "sdk_ok M e" and "sm_Load txID (pendingInbounds pi) = Some t"
    and "Denom (itx_fee t) = InBoundDenomFee" and "0 \<le> amount" and "0 \<le> Amount (itx_fee t)"
  shows "updateInboundTx e txID amount n pi =
     (let f = Amount (itx_fee t) + amount;
          t' = t\<lparr>itx_fee := \<lparr>Denom = InBoundDenomFee, Amount = f\<rparr>\<rparr>
      in if 2 ^ M \<le> amount then Panic ''NewIntFromBigInt() out of bound''
         else if 2 ^ M \<le> f then Panic ''Int overflow''
         else if f < 10 then Done (None, pi\<lparr>pendingInbounds := sm_Store txID t' (pendingInbounds pi)\<rparr>)
         else Done (Some t', pi\<lparr>pendingInbounds := sm_Delete txID (pendingInbounds pi)\<rparr>))"
proof -
  obtain a where "itx_fee t = \<lparr>Denom = InBoundDenomFee, Amount = a\<rparr>"
    using assms(3) by (cases "itx_fee t") auto
  then show ?thesis
    using assms by (auto simp: updateInboundTx_def sdk_ok_ints inbound_Verify_eq Let_def)
qed

text \<open>The request a completed transfer becomes.\<close>

lemma processInboundTx_no_fee:
  assumes "sdk_ok M e" and "sm_Load txID (pendingInbounds pi) = None" and "EthHex e addr = tokenAddr pi"
    and "sm_Load txID (pendingInboundsBnB pi) = None"
  shows "processInboundTx e txID h from to val addr pi =
     (if \<bar>val\<bar> < 2 ^ M then
        Done (None, pi\<lparr>pendingInboundsBnB := sm_Delete txID (pendingInboundsBnB pi),
          pendingInbounds := sm_Store txID \<lparr>itx_address = from, pubBlockHeight = h,
            itx_token = \<lparr>Denom = InBoundDenom, Amount = val\<rparr>, itx_fee = \<lparr>Denom = InBoundDenomFee, Amount = 0\<rparr>\<rparr>
            (pendingInbounds pi)\<rparr>)
      else Panic ''NewIntFromBigInt() out of bound'')"
  using assms by (simp add: processInboundTx_def sdk_ok_ints sm_LoadAndDelete_eq Let_def)

lemma processInboundTx_with_fee:
  assumes "sdk_ok M e" and "sm_Load txID (pendingInbounds pi) = None" and "EthHex e addr = tokenAddr pi"
    and "sm_Load txID (pendingInboundsBnB pi) = Some b" and "Denom (bnb_fee b) = InBoundDenomFee"
  shows "processInboundTx e txID h from to val addr pi =
     (let token = \<lparr>Denom = InBoundDenom, Amount = val\<rparr>;
          pi1 = pi\<lparr>pendingInboundsBnB := sm_Delete txID (pendingInboundsBnB pi)\<rparr>
      in if 2 ^ M \<le> \<bar>val\<bar> then Panic ''NewIntFromBigInt() out of bound''
         else if Amount (bnb_fee b) < 10 then
           Done (None, pi1\<lparr>pendingInbounds := sm_Store txID \<lparr>itx_address = from, pubBlockHeight = h,
             itx_token = token, itx_fee = bnb_fee b\<rparr> (pendingInbounds pi)\<rparr>)
         else case hex_DecodeString txID of
           None \<Rightarrow> Done (None, pi1)
         | Some bs \<Rightarrow> exec_bind (chan_send reqCacheSize (NewAccountInboundReq from to token bs h) (InboundReqChan pi))
             (\<lambda>c. Done (None, pi1\<lparr>InboundReqChan := c\<rparr>)))"
  using assms
  by (auto simp: processInboundTx_def sdk_ok_ints sm_LoadAndDelete_eq inbound_Verify_eq Let_def
      split: option.splits)

section \<open>The invariant of the pending transfers\<close>

text \<open>
  A transfer waits in at most one of the two maps; what waits has the right denominations
  and a fee below the minimum; queued requests are for the inbound coin and filed under
  their own hash; the channel is within its capacity.
\<close>

definition pending_ok :: "(string, inboundTx) syncmap \<Rightarrow> (string, inboundTxBnb) syncmap \<Rightarrow> bool" where
  "pending_ok ins bnbs \<longleftrightarrow> sm_wf ins \<and> sm_wf bnbs
     \<and> (\<forall>k. sm_Load k ins \<noteq> None \<longrightarrow> sm_Load k bnbs = None)
     \<and> (\<forall>k t. sm_Load k ins = Some t \<longrightarrow> Denom (itx_token t) = InBoundDenom
          \<and> Denom (itx_fee t) = InBoundDenomFee \<and> 0 \<le> Amount (itx_fee t) \<and> Amount (itx_fee t) < 10)
     \<and> (\<forall>k b. sm_Load k bnbs = Some b \<longrightarrow> bnb_txID b = k \<and> Denom (bnb_fee b) = InBoundDenomFee
          \<and> 0 \<le> Amount (bnb_fee b))"

definition queued_ok :: "ext \<Rightarrow> PubChainInstance \<Rightarrow> bool" where
  "queued_ok e pi \<longleftrightarrow> pub_retry_ok e pi \<and> length (InboundReqChan pi) \<le> reqCacheSize
     \<and> (\<forall>r \<in> set (InboundReqChan pi) \<union> snd ` set (RetryInboundReq pi). Denom (ir_coin r) = InBoundDenom)"

definition pub_inv :: "ext \<Rightarrow> PubChainInstance \<Rightarrow> bool" where
  "pub_inv e pi \<longleftrightarrow> pending_ok (pendingInbounds pi) (pendingInboundsBnB pi) \<and> queued_ok e pi"

lemma pending_okI_bnb:
  assumes "pending_ok ins bnbs" and "sm_Load k ins = None" and "bnb_txID b = k"
    and "Denom (bnb_fee b) = InBoundDenomFee" and "0 \<le> Amount (bnb_fee b)"
  shows "pending_ok ins (sm_Store k b bnbs)"
  using assms by (auto simp: pending_ok_def sm.load_store sm.wf_store)

lemma pending_okI_in:
  assumes "pending_ok ins bnbs" and "sm_Load k bnbs = None" and "Denom (itx_token t) = InBoundDenom"
    and "Denom (itx_fee t) = InBoundDenomFee" and "0 \<le> Amount (itx_fee t)" and "Amount (itx_fee t) < 10"
  shows "pending_ok (sm_Store k t ins) bnbs"
  using assms by (auto simp: pending_ok_def sm.load_store sm.wf_store)

lemma pending_ok_del:
  "pending_ok ins bnbs \<Longrightarrow> pending_ok (sm_Delete k ins) bnbs"
  "pending_ok ins bnbs \<Longrightarrow> pending_ok ins (sm_Delete k bnbs)"
  by (auto simp: pending_ok_def sm.load_del sm.wf_del)

lemma pending_ok_fold_del:
  "pending_ok ins bnbs \<Longrightarrow> pending_ok (fold sm_Delete ks ins) (fold sm_Delete js bnbs)"
proof (induction js arbitrary: bnbs)
  case Nil
  then show ?case by (induction ks arbitrary: ins) (auto intro: pending_ok_del)
next
  case (Cons j js)
  then show ?case using pending_ok_del(2) by simp
qed

lemma pending_okD:
  assumes "pending_ok ins bnbs"
  shows "sm_Load k ins = Some t \<Longrightarrow> sm_Load k bnbs = None \<and> Denom (itx_token t) = InBoundDenom
      \<and> Denom (itx_fee t) = InBoundDenomFee \<and> 0 \<le> Amount (itx_fee t) \<and> Amount (itx_fee t) < 10"
    and "sm_Load k bnbs = Some b \<Longrightarrow> bnb_txID b = k \<and> Denom (bnb_fee b) = InBoundDenomFee \<and> 0 \<le> Amount (bnb_fee b)"
  using assms by (auto simp: pending_ok_def)

lemma queued_ok_pending [simp]:
  "queued_ok e (pi\<lparr>pendingInbounds := a\<rparr>) = queued_ok e pi"
  "queued_ok e (pi\<lparr>pendingInboundsBnB := b\<rparr>) = queued_ok e pi"
  by (simp_all add: queued_ok_def pub_retry_ok_def)

lemma queued_ok_AddItem:
  "queued_ok e pi \<Longrightarrow> Denom (ir_coin r) = InBoundDenom \<Longrightarrow> queued_ok e (pub_AddItem e r pi)"
  using pub_retry.ok_add [of e pi r] by (auto simp: queued_ok_def pub_AddItem_def)

lemma queued_ok_send:
  "chan_send reqCacheSize r (InboundReqChan pi) = Done c \<Longrightarrow> queued_ok e pi \<Longrightarrow> Denom (ir_coin r) = InBoundDenom
     \<Longrightarrow> queued_ok e (pi\<lparr>InboundReqChan := c\<rparr>)"
  by (auto simp: queued_ok_def chan_send_Done_iff pub_retry_ok_def)

lemma processInboundTx_inv:
  assumes "sdk_ok M e" and "pub_inv e pi"
    and run: "processInboundTx e txID h from to val addr pi = Done (err, pi')"
  shows "pub_inv e pi'"
proof (cases "sm_Load txID (pendingInbounds pi) = None \<and> EthHex e addr = tokenAddr pi")
  case False
  then show ?thesis using run assms(2) by (auto simp: processInboundTx_def split: if_splits)
next
  case True
  note ok = assms(2) [unfolded pub_inv_def, THEN conjunct1] and q = assms(2) [unfolded pub_inv_def, THEN conjunct2]
  let ?bnbs = "sm_Delete txID (pendingInboundsBnB pi)"
  have del: "pending_ok (pendingInbounds pi) ?bnbs" by (rule pending_ok_del(2) [OF ok])
  show ?thesis
  proof (cases "sm_Load txID (pendingInboundsBnB pi)")
    case None
    then show ?thesis
      using run True assms(1) q pending_okI_in [OF del, of txID]
      by (auto simp: processInboundTx_no_fee pub_inv_def sm.load_del split: if_splits)
  next
    case (Some b)
    with ok have b: "Denom (bnb_fee b) = InBoundDenomFee" "0 \<le> Amount (bnb_fee b)"
      by (auto dest: pending_okD)
    then show ?thesis
      using run True assms(1) q del pending_okI_in [OF del, of txID] Some
      by (auto intro: queued_ok_send [of _ "pi\<lparr>pendingInboundsBnB := ?bnbs\<rparr>", simplified] simp: processInboundTx_with_fee [OF assms(1) _ _ Some b(1)] pub_inv_def sm.load_del Let_def
          exec_bind_eq_Done_iff NewAccountInboundReq_def split: if_splits option.splits)
  qed
qed

lemma updateInboundTx_inv:
  assumes "sdk_ok M e" and "pub_inv e pi" and "0 \<le> amount"
    and run: "updateInboundTx e txID amount n pi = Done (acc, pi')"
  shows "pub_inv e pi' \<and> (\<forall>a. acc = Some a \<longrightarrow> Denom (itx_token a) = InBoundDenom)"
proof (cases "sm_Load txID (pendingInbounds pi)")
  note ok = assms(2) [unfolded pub_inv_def, THEN conjunct1]
  case None
  then show ?thesis
    using run assms by (auto simp: updateInboundTx_unknown pub_inv_def intro!: pending_okI_bnb split: if_splits)
next
  note ok = assms(2) [unfolded pub_inv_def, THEN conjunct1]
  case (Some t)
  with ok have t: "sm_Load txID (pendingInboundsBnB pi) = None" "Denom (itx_token t) = InBoundDenom"
    "Denom (itx_fee t) = InBoundDenomFee" "0 \<le> Amount (itx_fee t)"
    by (auto dest: pending_okD)
  show ?thesis
    using run assms t Some pending_ok_del(1) [OF ok, of txID]
    by (auto simp: updateInboundTx_known [OF assms(1) Some t(3) assms(3) t(4)] Let_def pub_inv_def
        intro!: pending_okI_in split: if_splits)
qed

lemma pub_inv_AddItem:
  "pub_inv e pi \<Longrightarrow> Denom (ir_coin r) = InBoundDenom \<Longrightarrow> pub_inv e (pub_AddItem e r pi)"
  using queued_ok_AddItem [of e pi r] by (auto simp: pub_inv_def pub_AddItem_def)

lemma process_fee_cases:
  assumes "process_fee e n tx to pi = Done pi'"
  obtains (none) "pi' = pi"
  | (kept) d where "tx_Data tx = Some d"
      and "updateInboundTx e (hex_EncodeToString d) (tx_Value tx) n pi = Done (None, pi')"
  | (released) d a pi1 where "tx_Data tx = Some d"
      and "updateInboundTx e (hex_EncodeToString d) (tx_Value tx) n pi = Done (Some a, pi1)"
      and "pi' = pub_AddItem e (NewAccountInboundReq (itx_address a) to (itx_token a) d 0) pi1"
proof (cases "checkToBridge e to pi")
  case False
  then show thesis using none assms by (simp add: process_fee_def)
next
  case True
  show thesis
  proof (cases "tx_Data tx")
    case None
    then show thesis using none assms True by (simp add: process_fee_def)
  next
    case (Some d)
    with assms True obtain acc pi1 where
      u: "updateInboundTx e (hex_EncodeToString d) (tx_Value tx) n pi = Done (acc, pi1)"
      and r: "(case acc of None \<Rightarrow> Done pi1 | Some a \<Rightarrow>
        Done (pub_AddItem e (NewAccountInboundReq (itx_address a) to (itx_token a) d 0) pi1)) = Done pi'"
      by (auto simp: process_fee_def exec_bind_eq_Done_iff)
    show thesis using kept [OF Some] released [OF Some] u r by (cases acc) auto
  qed
qed

lemma process_fee_inv:
  assumes "sdk_ok M e" and "pub_inv e pi" and "0 \<le> tx_Value tx"
    and "process_fee e n tx to pi = Done pi'"
  shows "pub_inv e pi'"
  using assms(4)
  by (cases rule: process_fee_cases)
    (use assms(2) in \<open>auto dest!: updateInboundTx_inv [OF assms(1-3)] intro!: pub_inv_AddItem
      simp: NewAccountInboundReq_def\<close>)

text \<open>Who sent a transfer: the address recovered from its signature.\<close>

definition transfer_sender :: "ext \<Rightarrow> EthTx \<Rightarrow> (goerror + acc_address) exec" where
  "transfer_sender e tx =
     exec_bind (MakeSignature (tx_R tx) (tx_S tx) (RecoverRecID (tx_ChainId tx) (tx_V tx))) (\<lambda>sigBytes.
       Done (case Ecrecover e (tx_SigningHash tx) sigBytes of
               Inl err \<Rightarrow> Inl err | Inr pk \<Rightarrow> EthSignPubKeyToJoltAddr e pk))"

lemma ProcessInBoundERC20_eq:
  "ProcessInBoundERC20 e tx tok to amount h pi =
     exec_bind (transfer_sender e tx) (\<lambda>r. case r of
         Inl err \<Rightarrow> Done (Some err, pi)
       | Inr sender \<Rightarrow> processInboundTx e (drop 2 (HashHex e (tx_Hash tx))) h sender to amount tok pi)"
  by (auto simp: ProcessInBoundERC20_def transfer_sender_def exec_bind_assoc Let_def
      intro!: exec_bind_cong split: sum.splits)

lemma ProcessInBoundERC20_cases:
  assumes "ProcessInBoundERC20 e tx tok to amount h pi = Done (err, pi')"
  obtains (refused) "pi' = pi" and "err \<noteq> None"
  | (passed) sender where "transfer_sender e tx = Done (Inr sender)"
      and "processInboundTx e (drop 2 (HashHex e (tx_Hash tx))) h sender to amount tok pi = Done (err, pi')"
proof -
  from assms obtain r where r: "transfer_sender e tx = Done r"
    and run: "(case r of Inl err \<Rightarrow> Done (Some err, pi)
       | Inr sender \<Rightarrow> processInboundTx e (drop 2 (HashHex e (tx_Hash tx))) h sender to amount tok pi)
       = Done (err, pi')"
    unfolding ProcessInBoundERC20_eq by (auto simp: exec_bind_eq_Done_iff)
  show thesis
    using refused passed r run by (cases r) auto
qed

text \<open>The ways through one round of the loop.\<close>

lemma process_tx_cases:
  assumes "process_tx e env n tx pi = Done pi'"
  obtains (skip) "pi' = pi"
  | (fee) to where "tx_To tx = Some to" and "process_fee e n tx to pi = Done pi'"
  | (failed) to dest amount err where "tx_To tx = Some to" and "EthHex e to = tokenAddr pi" and "checkToBridge e dest pi"
      and "checkErc20 env (case tx_Data tx of None \<Rightarrow> [] | Some d \<Rightarrow> d) = Inr (dest, amount)"
      and "ProcessInBoundERC20 e tx to dest amount n pi = Done (Some err, pi')"
  | (transfer) to dest amount pi1 where "tx_To tx = Some to" and "EthHex e to = tokenAddr pi" and "checkToBridge e dest pi"
      and "checkErc20 env (case tx_Data tx of None \<Rightarrow> [] | Some d \<Rightarrow> d) = Inr (dest, amount)"
      and "ProcessInBoundERC20 e tx to dest amount n pi = Done (None, pi1)"
      and "process_fee e n tx to pi1 = Done pi'"
proof (cases "tx_To tx")
  case None
  then show thesis using skip assms by (simp add: process_tx_def)
next
  case (Some to)
  let ?d = "case tx_Data tx of None \<Rightarrow> [] | Some d \<Rightarrow> d"
  show thesis
  proof (cases "checkEachTx env (tx_Hash tx) = Inr 1")
    case False
    then show thesis using skip assms Some by (simp add: process_tx_def)
  next
    case ok: True
    show thesis
    proof (cases "checkErc20 env ?d")
      case (Inl err)
      then show thesis using fee assms Some ok by (simp add: process_tx_def)
    next
      case (Inr p)
      obtain dest amount where p: "p = (dest, amount)" by (cases p)
      show thesis
      proof (cases "EthHex e to = tokenAddr pi \<and> checkToBridge e dest pi")
        case False
        then show thesis using skip assms Some ok Inr p by (auto simp: process_tx_def split: if_splits)
      next
        case True
        with assms Some ok Inr p have "exec_bind (ProcessInBoundERC20 e tx to dest amount n pi) (\<lambda>(err, pi1).
            case err of Some _ \<Rightarrow> Done pi1 | None \<Rightarrow> process_fee e n tx to pi1) = Done pi'"
          by (simp add: process_tx_def)
        then obtain err pi1 where run: "ProcessInBoundERC20 e tx to dest amount n pi = Done (err, pi1)"
          and rest: "(case err of Some _ \<Rightarrow> Done pi1 | None \<Rightarrow> process_fee e n tx to pi1) = Done pi'"
          by (auto simp: exec_bind_eq_Done_iff)
        show thesis
          using transfer [OF Some _ _ Inr [unfolded p]] failed [OF Some _ _ Inr [unfolded p]] True run rest
          by (cases err) auto
      qed
    qed
  qed
qed

lemma process_tx_inv:
  assumes "sdk_ok M e" and "pub_inv e pi" and "0 \<le> tx_Value tx"
    and "process_tx e env n tx pi = Done pi'"
  shows "pub_inv e pi'"
proof -
  have erc: "pub_inv e pi1" if "ProcessInBoundERC20 e tx to dest amount n pi = Done (err, pi1)" for to dest amount err pi1
    using that by (cases rule: ProcessInBoundERC20_cases) (auto intro: processInboundTx_inv [OF assms(1,2)] assms(2))
  show ?thesis
    using assms(4)
    by (cases rule: process_tx_cases) (auto intro: assms(2) erc process_fee_inv [OF assms(1) _ assms(3)])
qed

end
