(* ===== verification/Pub_Inbound_Correct.thy ===== *)
theory Pub_Inbound_Correct
  imports Pub_Inbound
begin

text \<open>
  The properties of the public chain's inbound side (\<open>pubchain/types.go\<close>,
  \<open>pubchain/tx_inbound.go\<close>): its queues and pool cache, the invariant of the pending
  transfers, that no request is made up, what the order of transfer and fee changes,
  when a fee is enough, what expires, and when a block panics or goes through.
\<close>

section \<open>Requests come from transfers\<close>

text \<open>What the bridge owes or may come to owe: transfers that wait, and queued requests.\<close>

definition backing :: "PubChainInstance \<Rightarrow> (acc_address \<times> Coin) multiset" where
  "backing pi = image_mset (\<lambda>(k, t). (itx_address t, itx_token t)) (mset (pendingInbounds pi))
     + image_mset (\<lambda>r. (ir_address r, ir_coin r)) (mset (InboundReqChan pi) + pub_retry_bag pi)"

text \<open>
  What the code takes for a transfer to a pool: a successful call of the token contract whose
  arguments decode to a pool and an amount, whatever its selector, by a recovered sender.
\<close>

definition valid_transfer ::
    "ext \<Rightarrow> pub_env \<Rightarrow> PubChainInstance \<Rightarrow> EthTx \<Rightarrow> (acc_address \<times> Coin) option" where
  "valid_transfer e env pi tx =
     (case (tx_To tx, checkErc20 env (case tx_Data tx of None \<Rightarrow> [] | Some d \<Rightarrow> d), transfer_sender e tx) of
        (Some to, Inr (dest, amount), Done (Inr sender)) \<Rightarrow>
          if Receipt env (tx_Hash tx) = Inr 1 \<and> EthHex e to = tokenAddr pi \<and> checkToBridge e dest pi
          then Some (sender, \<lparr>Denom = InBoundDenom, Amount = amount\<rparr>) else None
      | _ \<Rightarrow> None)"

lemma subset_mset_add_rightI: "(A :: 'a multiset) \<subseteq># B \<Longrightarrow> A \<subseteq># B + C"
  by (metis mset_subset_eq_add_left subset_mset.order_trans)

lemma processInboundTx_backing:
  assumes "sdk_ok M e" and "pub_inv e pi"
    and run: "processInboundTx e txID h from to val addr pi = Done (err, pi')"
  shows "backing pi' \<subseteq># backing pi + {#(from, \<lparr>Denom = InBoundDenom, Amount = val\<rparr>)#}
    \<and> tokenAddr pi' = tokenAddr pi \<and> pub_lastTwoPools pi' = pub_lastTwoPools pi"
proof (cases "sm_Load txID (pendingInbounds pi) = None \<and> EthHex e addr = tokenAddr pi")
  case False
  then show ?thesis using run by (auto simp: processInboundTx_def split: if_splits)
next
  case True
  have wf: "sm_wf (pendingInbounds pi)" using assms(2) by (simp add: pub_inv_def pending_ok_def)
  have st: "mset (sm_Store txID t (pendingInbounds pi)) = add_mset (txID, t) (mset (pendingInbounds pi))" for t
    using mset_sm_Store [OF wf] True by simp
  show ?thesis
  proof (cases "sm_Load txID (pendingInboundsBnB pi)")
    case None
    then show ?thesis
      using run True assms(1)
      by (auto simp: processInboundTx_no_fee backing_def st pub_retry_bag_def split: if_splits)
  next
    case (Some b)
    then have b: "Denom (bnb_fee b) = InBoundDenomFee"
      using assms(2) by (auto simp: pub_inv_def pending_ok_def)
    show ?thesis
      using run True
      by (auto simp: processInboundTx_with_fee [OF assms(1) _ _ Some b] backing_def st pub_retry_bag_def Let_def
          exec_bind_eq_Done_iff chan_send_Done_iff NewAccountInboundReq_def
          split: if_splits option.splits)
  qed
qed

lemma updateInboundTx_backing:
  assumes "sdk_ok M e" and "pub_inv e pi" and "0 \<le> amount"
    and run: "updateInboundTx e txID amount n pi = Done (acc, pi')"
  shows "backing pi = backing pi' + (case acc of None \<Rightarrow> {#} | Some a \<Rightarrow> {#(itx_address a, itx_token a)#})
    \<and> tokenAddr pi' = tokenAddr pi \<and> pub_lastTwoPools pi' = pub_lastTwoPools pi"
proof (cases "sm_Load txID (pendingInbounds pi)")
  case None
  then show ?thesis
    using run assms by (auto simp: updateInboundTx_unknown backing_def pub_retry_bag_def split: if_splits)
next
  case (Some t)
  have wf: "sm_wf (pendingInbounds pi)" using assms(2) by (simp add: pub_inv_def pending_ok_def)
  have t: "Denom (itx_fee t) = InBoundDenomFee" "0 \<le> Amount (itx_fee t)"
    using assms(2) Some by (auto simp: pub_inv_def dest: pending_okD)
  show ?thesis
    using run mset_sm_Delete [OF wf Some]
    by (auto simp: updateInboundTx_known [OF assms(1) Some t(1) assms(3) t(2)] Let_def backing_def
        pub_retry_bag_def mset_sm_Store [OF wf] split: if_splits)
qed

lemma process_fee_backing:
  assumes "sdk_ok M e" and "pub_inv e pi" and "0 \<le> tx_Value tx"
    and "process_fee e n tx to pi = Done pi'"
  shows "backing pi' = backing pi \<and> tokenAddr pi' = tokenAddr pi \<and> pub_lastTwoPools pi' = pub_lastTwoPools pi"
proof -
  have add: "backing (pub_AddItem e r s) = add_mset (ir_address r, ir_coin r) (backing s)" for r s
    by (simp add: backing_def pub_AddItem_def pub_retry_bag_def)
  have frame: "tokenAddr (pub_AddItem e r s) = tokenAddr s" "pub_lastTwoPools (pub_AddItem e r s) = pub_lastTwoPools s" for r s
    by (simp_all add: pub_AddItem_def)
  show ?thesis
    using assms(4)
    by (cases rule: process_fee_cases)
      (auto dest!: updateInboundTx_backing [OF assms(1-3)] simp: add frame NewAccountInboundReq_def)
qed

lemma process_tx_backing:
  assumes "sdk_ok M e" and "pub_inv e pi" and "0 \<le> tx_Value tx"
    and run: "process_tx e env n tx pi = Done pi'"
  shows "backing pi' \<subseteq># backing pi + (case valid_transfer e env pi tx of None \<Rightarrow> {#} | Some p \<Rightarrow> {#p#})
    \<and> tokenAddr pi' = tokenAddr pi \<and> pub_lastTwoPools pi' = pub_lastTwoPools pi"
proof -
  let ?new = "case valid_transfer e env pi tx of None \<Rightarrow> {#} | Some p \<Rightarrow> {#p#}"
  let ?frame = "\<lambda>s. tokenAddr s = tokenAddr pi \<and> pub_lastTwoPools s = pub_lastTwoPools pi"
  have rec: "Receipt env (tx_Hash tx) = Inr 1 \<or> pi' = pi"
    using run by (auto simp: process_tx_def checkEachTx_def split: option.splits if_splits)
  have erc: "backing pi1 \<subseteq># backing pi + ?new \<and> ?frame pi1 \<and> pub_inv e pi1"
    if t: "tx_To tx = Some to" "EthHex e to = tokenAddr pi" "checkToBridge e dest pi"
        "checkErc20 env (case tx_Data tx of None \<Rightarrow> [] | Some d \<Rightarrow> d) = Inr (dest, amount)"
      and r: "ProcessInBoundERC20 e tx to dest amount n pi = Done (err, pi1)"
      and ok: "Receipt env (tx_Hash tx) = Inr 1" for to dest amount err pi1
    using r
  proof (cases rule: ProcessInBoundERC20_cases)
    case refused
    then show ?thesis using assms(2) by (simp add: subset_mset_add_rightI)
  next
    case (passed sender)
    then have "valid_transfer e env pi tx = Some (sender, \<lparr>Denom = InBoundDenom, Amount = amount\<rparr>)"
      using t ok by (simp add: valid_transfer_def)
    then show ?thesis
      using processInboundTx_backing [OF assms(1,2) passed(2)] processInboundTx_inv [OF assms(1,2) passed(2)]
      by simp
  qed
  show ?thesis
    using run
  proof (cases rule: process_tx_cases)
    case (transfer to dest amount pi1)
    then show ?thesis
      using erc [OF transfer(1-5)] rec process_fee_backing [OF assms(1) _ assms(3) transfer(6)]
      by (auto simp: subset_mset_add_rightI)
  next
    case (failed to dest amount err)
    then show ?thesis using erc [OF failed] rec by (auto simp: subset_mset_add_rightI)
  qed (use process_fee_backing [OF assms(1-3)] in \<open>auto simp: subset_mset_add_rightI\<close>)
qed

section \<open>Properties of a block\<close>

lemma valid_transfer_cong:
  assumes "tokenAddr pi1 = tokenAddr pi" and "pub_lastTwoPools pi1 = pub_lastTwoPools pi"
  shows "valid_transfer e env pi1 = valid_transfer e env pi"
proof -
  have eqs: "tokenAddr pi1 = tokenAddr pi" "\<And>d. checkToBridge e d pi1 = checkToBridge e d pi"
    using assms by (simp_all add: checkToBridge_def pub_GetPool_def)
  show ?thesis unfolding valid_transfer_def [abs_def] eqs by (rule refl)
qed

lemma processEachBlock_run:
  assumes "sdk_ok M e" and "pub_inv e pi" and "\<forall>tx \<in> set txs. 0 \<le> tx_Value tx"
    and "exec_fold (process_tx e env n) txs pi = Done pi'"
  shows "pub_inv e pi' \<and> backing pi' \<subseteq># backing pi + mset (List.map_filter (valid_transfer e env pi) txs)
    \<and> tokenAddr pi' = tokenAddr pi \<and> pub_lastTwoPools pi' = pub_lastTwoPools pi"
  using assms(2-4)
proof (induction txs arbitrary: pi)
  case Nil
  then show ?case by (simp add: map_filter_simps)
next
  case (Cons tx txs)
  then obtain pi1 where s1: "process_tx e env n tx pi = Done pi1"
    and rest: "exec_fold (process_tx e env n) txs pi1 = Done pi'"
    by (auto simp: exec_bind_eq_Done_iff)
  have v: "0 \<le> tx_Value tx" using Cons.prems(2) by simp
  note b = process_tx_backing [OF assms(1) Cons.prems(1) v s1] and i = process_tx_inv [OF assms(1) Cons.prems(1) v s1]
  have "valid_transfer e env pi1 = valid_transfer e env pi" using b by (intro valid_transfer_cong) auto
  with Cons.IH [OF i _ rest] Cons.prems(2) b
  have "pub_inv e pi'" and "tokenAddr pi' = tokenAddr pi" "pub_lastTwoPools pi' = pub_lastTwoPools pi"
    and "backing pi' \<subseteq># backing pi1 + mset (List.map_filter (valid_transfer e env pi) txs)" by auto
  moreover have "backing pi1 + mset (List.map_filter (valid_transfer e env pi) txs)
      \<subseteq># backing pi + mset (List.map_filter (valid_transfer e env pi) (tx # txs))"
    using b by (auto simp: map_filter_simps split: option.splits)
  ultimately show ?case by (meson subset_mset.order_trans)
qed

section \<open>No transfer is lost in a block\<close>

text \<open>The name a transfer is filed under.\<close>

definition tx_key :: "ext \<Rightarrow> EthTx \<Rightarrow> string" where
  "tx_key e tx = drop 2 (HashHex e (tx_Hash tx))"

definition transfer_keys :: "ext \<Rightarrow> pub_env \<Rightarrow> PubChainInstance \<Rightarrow> EthTx list \<Rightarrow> string list" where
  "transfer_keys e env pi txs = map (tx_key e) (filter (\<lambda>tx. valid_transfer e env pi tx \<noteq> None) txs)"

definition fresh_transfers :: "ext \<Rightarrow> pub_env \<Rightarrow> PubChainInstance \<Rightarrow> EthTx list \<Rightarrow> bool" where
  "fresh_transfers e env pi txs \<longleftrightarrow> distinct (transfer_keys e env pi txs)
     \<and> (\<forall>k \<in> set (transfer_keys e env pi txs). sm_Load k (pendingInbounds pi) = None \<and> hex_DecodeString k \<noteq> None)"

lemma transfer_keys_Cons:
  "transfer_keys e env pi (tx # txs) = (if valid_transfer e env pi tx = None then [] else [tx_key e tx]) @ transfer_keys e env pi txs"
  by (simp add: transfer_keys_def)

lemma processInboundTx_exact:
  assumes "sdk_ok M e" and "pub_inv e pi" and "sm_Load txID (pendingInbounds pi) = None" and "hex_DecodeString txID \<noteq> None"
    and "EthHex e addr = tokenAddr pi" and run: "processInboundTx e txID h from to val addr pi = Done (err, pi')"
  shows "err = None \<and> backing pi' = backing pi + {#(from, \<lparr>Denom = InBoundDenom, Amount = val\<rparr>)#}
    \<and> (\<forall>k. k \<noteq> txID \<longrightarrow> sm_Load k (pendingInbounds pi) = None \<longrightarrow> sm_Load k (pendingInbounds pi') = None)"
proof -
  have wf: "sm_wf (pendingInbounds pi)" using assms(2) by (simp add: pub_inv_def pending_ok_def)
  have st: "mset (sm_Store txID t (pendingInbounds pi)) = add_mset (txID, t) (mset (pendingInbounds pi))" for t
    using mset_sm_Store [OF wf] assms(3) by simp
  show ?thesis
  proof (cases "sm_Load txID (pendingInboundsBnB pi)")
    case None
    then show ?thesis
      using run assms(1,3,5)
      by (auto simp: processInboundTx_no_fee backing_def st pub_retry_bag_def sm.load_store split: if_splits)
  next
    case (Some b)
    then have b: "Denom (bnb_fee b) = InBoundDenomFee"
      using assms(2) by (auto simp: pub_inv_def pending_ok_def)
    show ?thesis
      using run assms(3,4)
      by (auto simp: processInboundTx_with_fee [OF assms(1,3,5) Some b] backing_def st pub_retry_bag_def Let_def
          exec_bind_eq_Done_iff chan_send_Done_iff NewAccountInboundReq_def sm.load_store
          split: if_splits option.splits)
  qed
qed

lemma process_fee_keys:
  assumes "process_fee e n tx to pi = Done pi'" and "sm_Load k (pendingInbounds pi) = None"
  shows "sm_Load k (pendingInbounds pi') = None"
proof -
  have u: "sm_Load k (pendingInbounds s) = None" if "updateInboundTx e txID (tx_Value tx) n pi = Done (acc, s)" for txID acc s
    using that assms(2)
    by (auto simp: updateInboundTx_def exec_bind_eq_Done_iff Let_def sm.load_store sm.load_del split: option.splits)
  show ?thesis
    using assms by (cases rule: process_fee_cases) (auto dest: u simp: pub_AddItem_def)
qed

text \<open>What makes a valid transfer, and what the loop then does.\<close>

lemma valid_transfer_Some:
  assumes "valid_transfer e env pi tx = Some p"
  obtains to dest sender amount where "tx_To tx = Some to" and "EthHex e to = tokenAddr pi" and "p = (sender, \<lparr>Denom = InBoundDenom, Amount = amount\<rparr>)"
    and "process_tx e env n tx pi = exec_bind (processInboundTx e (tx_key e tx) n sender dest amount to pi)
      (\<lambda>(err, pi1). case err of Some _ \<Rightarrow> Done pi1 | None \<Rightarrow> process_fee e n tx to pi1)"
  using assms
  by (auto simp: valid_transfer_def process_tx_def checkEachTx_def ProcessInBoundERC20_eq tx_key_def
      split: option.splits sum.splits exec.splits if_splits)

lemma process_tx_other:
  assumes "valid_transfer e env pi tx = None" and "sdk_ok M e" and "pub_inv e pi" and "0 \<le> tx_Value tx"
    and run: "process_tx e env n tx pi = Done pi'"
  shows "backing pi' = backing pi \<and> (sm_Load k (pendingInbounds pi) = None \<longrightarrow> sm_Load k (pendingInbounds pi') = None)"
proof -
  have no: "pi1 = pi \<and> err \<noteq> None"
    if t: "tx_To tx = Some to" "EthHex e to = tokenAddr pi" "checkToBridge e dest pi"
        "checkErc20 env (case tx_Data tx of None \<Rightarrow> [] | Some d \<Rightarrow> d) = Inr (dest, amount)"
      and r: "ProcessInBoundERC20 e tx to dest amount n pi = Done (err, pi1)"
      and ok: "Receipt env (tx_Hash tx) = Inr 1" for to dest amount err pi1
    using r by (cases rule: ProcessInBoundERC20_cases) (use assms(1) t ok in \<open>simp_all add: valid_transfer_def\<close>)
  have rec: "Receipt env (tx_Hash tx) = Inr 1 \<or> pi' = pi"
    using run by (auto simp: process_tx_def checkEachTx_def split: option.splits if_splits)
  show ?thesis
    using run
  proof (cases rule: process_tx_cases)
    case (fee to)
    then show ?thesis using process_fee_backing [OF assms(2-4)] process_fee_keys by blast
  next
    case (failed to dest amount err)
    then show ?thesis using no rec by blast
  next
    case (transfer to dest amount pi1)
    then show ?thesis using no rec by blast
  qed simp
qed

lemma process_tx_exact:
  assumes "sdk_ok M e" and "pub_inv e pi" and "0 \<le> tx_Value tx" and run: "process_tx e env n tx pi = Done pi'"
    and fresh: "valid_transfer e env pi tx \<noteq> None \<longrightarrow> sm_Load (tx_key e tx) (pendingInbounds pi) = None \<and> hex_DecodeString (tx_key e tx) \<noteq> None"
  shows "backing pi' = backing pi + mset (List.map_filter (valid_transfer e env pi) [tx])
    \<and> (\<forall>k. (valid_transfer e env pi tx = None \<or> k \<noteq> tx_key e tx) \<longrightarrow> sm_Load k (pendingInbounds pi) = None
         \<longrightarrow> sm_Load k (pendingInbounds pi') = None)"
proof (cases "valid_transfer e env pi tx")
  case None
  then show ?thesis using process_tx_other [OF None assms(1-3) run] by (simp add: map_filter_simps)
next
  case (Some p)
  then obtain to dest sender amount where t: "tx_To tx = Some to" "EthHex e to = tokenAddr pi"
      "p = (sender, \<lparr>Denom = InBoundDenom, Amount = amount\<rparr>)"
    and eq: "process_tx e env n tx pi = exec_bind (processInboundTx e (tx_key e tx) n sender dest amount to pi)
      (\<lambda>(err, pi1). case err of Some _ \<Rightarrow> Done pi1 | None \<Rightarrow> process_fee e n tx to pi1)"
    by (rule valid_transfer_Some)
  from run eq obtain err pi1 where r: "processInboundTx e (tx_key e tx) n sender dest amount to pi = Done (err, pi1)"
    and rest: "(case err of Some _ \<Rightarrow> Done pi1 | None \<Rightarrow> process_fee e n tx to pi1) = Done pi'"
    by (auto simp: exec_bind_eq_Done_iff)
  have x: "err = None \<and> backing pi1 = backing pi + {#p#}
      \<and> (\<forall>k. k \<noteq> tx_key e tx \<longrightarrow> sm_Load k (pendingInbounds pi) = None \<longrightarrow> sm_Load k (pendingInbounds pi1) = None)"
    using processInboundTx_exact [OF assms(1,2) _ _ t(2) r] fresh Some t(3) by simp
  then have f: "process_fee e n tx to pi1 = Done pi'" using rest by simp
  show ?thesis
    using x Some process_fee_backing [OF assms(1) processInboundTx_inv [OF assms(1,2) r] assms(3) f] process_fee_keys [OF f]
    by (simp add: map_filter_simps)
qed

lemma process_txs_exact:
  assumes "sdk_ok M e" and "pub_inv e pi" and "\<forall>tx \<in> set txs. 0 \<le> tx_Value tx" and "fresh_transfers e env pi txs"
    and "exec_fold (process_tx e env n) txs pi = Done pi'"
  shows "backing pi' = backing pi + mset (List.map_filter (valid_transfer e env pi) txs)"
  using assms(2-5)
proof (induction txs arbitrary: pi)
  case (Cons tx txs)
  then obtain pi1 where s1: "process_tx e env n tx pi = Done pi1" and rest: "exec_fold (process_tx e env n) txs pi1 = Done pi'"
    by (auto simp: exec_bind_eq_Done_iff)
  have v: "0 \<le> tx_Value tx" using Cons.prems(2) by simp
  have cong: "valid_transfer e env pi1 = valid_transfer e env pi"
    using process_tx_backing [OF assms(1) Cons.prems(1) v s1] by (intro valid_transfer_cong) auto
  have x: "backing pi1 = backing pi + mset (List.map_filter (valid_transfer e env pi) [tx])
    \<and> (\<forall>k. (valid_transfer e env pi tx = None \<or> k \<noteq> tx_key e tx) \<longrightarrow> sm_Load k (pendingInbounds pi) = None
         \<longrightarrow> sm_Load k (pendingInbounds pi1) = None)"
    by (rule process_tx_exact [OF assms(1) Cons.prems(1) v s1]) (use Cons.prems(3) in \<open>auto simp: fresh_transfers_def transfer_keys_Cons split: if_splits\<close>)
  let ?keys = "transfer_keys e env pi txs"
  have k: "distinct ?keys" "\<forall>k \<in> set ?keys. (valid_transfer e env pi tx = None \<or> k \<noteq> tx_key e tx)
      \<and> sm_Load k (pendingInbounds pi) = None \<and> hex_DecodeString k \<noteq> None"
    using Cons.prems(3) unfolding fresh_transfers_def transfer_keys_Cons by (auto split: if_splits)
  then have "\<forall>k \<in> set ?keys. sm_Load k (pendingInbounds pi1) = None" using x by blast
  with k have "fresh_transfers e env pi1 txs" unfolding fresh_transfers_def transfer_keys_def cong by blast
  with Cons.IH [OF process_tx_inv [OF assms(1) Cons.prems(1) v s1] _ _ rest] Cons.prems(2) x cong show ?case
    by (auto simp: map_filter_simps split: option.splits)
qed (simp add: map_filter_simps)

section \<open>The clean-up after a block\<close>

definition waiting :: "string \<times> inboundTx \<Rightarrow> acc_address \<times> Coin" where
  "waiting = (\<lambda>(k, t). (itx_address t, itx_token t))"

definition expired_transfers :: "u64 \<Rightarrow> PubChainInstance \<Rightarrow> (acc_address \<times> Coin) multiset" where
  "expired_transfers h pi =
     image_mset waiting (mset (filter (\<lambda>(k, t). TxTimeout < h - pubBlockHeight t) (pendingInbounds pi)))"

lemma DeleteExpired_backing:
  assumes "pub_inv e pi"
  shows "backing (DeleteExpired h pi) + expired_transfers h pi = backing pi"
proof -
  let ?m = "pendingInbounds pi"
  let ?r = "image_mset (\<lambda>r. (ir_address r, ir_coin r)) (mset (InboundReqChan pi) + pub_retry_bag pi)"
  let ?new = "filter (\<lambda>(k, t). \<not> TxTimeout < h - pubBlockHeight t) ?m"
  let ?old = "filter (\<lambda>(k, t). TxTimeout < h - pubBlockHeight t) ?m"
  have wf: "sm_wf ?m" using assms by (simp add: pub_inv_def pending_ok_def)
  have "mset ?m = mset ?new + mset ?old"
    using multiset_partition [of "mset ?m" "\<lambda>(k, t). TxTimeout < h - pubBlockHeight t"]
    by (simp add: case_prod_unfold)
  then have m: "image_mset waiting (mset ?m) = image_mset waiting (mset ?new) + image_mset waiting (mset ?old)"
    by (simp only: image_mset_union)
  have new: "backing (DeleteExpired h pi) = image_mset waiting (mset ?new) + ?r"
    by (simp add: DeleteExpired_def Let_def sm_Delete_selected [OF wf] backing_def pub_retry_bag_def waiting_def)
  have all: "backing pi = image_mset waiting (mset ?m) + ?r" by (simp add: backing_def waiting_def)
  show ?thesis unfolding new all m expired_transfers_def by (simp only: ac_simps)
qed

section \<open>The theorems of a block\<close>

text \<open>
  C12: processing a block keeps the invariant of the pending transfers: a transfer waits in at
  most one of the two maps, everything that waits has the right denominations and a fee
  below the minimum, queued requests are for the inbound coin and filed under their own
  hash. The clean-up of expired entries after the block keeps it too.
\<close>

theorem processEachBlock_inv:
  assumes "sdk_ok M e" and "pub_inv e pi" and "\<forall>tx \<in> set (Transactions block). 0 \<le> tx_Value tx"
    and "processEachBlock e env block pi = Done pi'"
  shows "pub_inv e pi' \<and> pub_inv e (DeleteExpired h pi')"
proof -
  have i: "pub_inv e pi'"
    using processEachBlock_run [OF assms(1-3)] assms(4) by (simp add: processEachBlock_def)
  moreover have "queued_ok e (DeleteExpired h pi')"
    using i by (simp add: DeleteExpired_def Let_def pub_inv_def)
  moreover have "pending_ok (pendingInbounds (DeleteExpired h pi')) (pendingInboundsBnB (DeleteExpired h pi'))"
    using i pending_ok_fold_del by (simp add: DeleteExpired_def Let_def pub_inv_def)
  ultimately show ?thesis by (simp add: pub_inv_def)
qed

text \<open>
  C8: no mint request is made up, and none is lost. After a block, every transfer that waits
  and every queued request (sender, coin) was there before, or is the sender and amount of a
  transaction of this block that succeeded, called the token contract with arguments that
  decode to one of the bridge's pools and that amount (of whichever method), and was signed
  by that sender; one transaction backs at most one of them. When the transfers of the block
  have different hashes, printed in hex, none of which waits already, each backs exactly one.
\<close>

theorem processEachBlock_no_mint:
  assumes "sdk_ok M e" and "pub_inv e pi" and "\<forall>tx \<in> set (Transactions block). 0 \<le> tx_Value tx"
    and "processEachBlock e env block pi = Done pi'"
  shows "backing pi' \<subseteq># backing pi + mset (List.map_filter (valid_transfer e env pi) (Transactions block))
    \<and> (fresh_transfers e env pi (Transactions block) \<longrightarrow>
         backing pi' = backing pi + mset (List.map_filter (valid_transfer e env pi) (Transactions block)))"
  using processEachBlock_run [OF assms(1-3)] process_txs_exact [OF assms(1-3)] assms(4) by (simp add: processEachBlock_def)

text \<open>A block with a transfer of 100 to a pool and the fee for it, for the witnesses.\<close>

definition sample_env :: pub_env where
  "sample_env = \<lparr>transfer_Unpack = Some (\<lambda>_. Inr [AbiAddress [9], AbiInt 100]), Receipt = (\<lambda>_. Inr 1)\<rparr>"

definition sample_pi :: PubChainInstance where
  "sample_pi = (NewChainInstance ''0x07'')\<lparr>pub_lastTwoPools :=
     (None, Some \<lparr>Pk = ''k'', JoltifyAddress = [8], EthAddress = [9], VaultInfo = None\<rparr>)\<rparr>"

definition transfer_tx :: EthTx where
  "transfer_tx = \<lparr>tx_To = Some [7], tx_Data = Some [1, 2, 3, 4], tx_Value = 0, tx_Hash = [5],
     tx_ChainId = 56, tx_SigningHash = [1], tx_V = 27, tx_R = 1, tx_S = 1\<rparr>"

definition fee_tx :: EthTx where
  "fee_tx = \<lparr>tx_To = Some [9], tx_Data = Some [5], tx_Value = 20, tx_Hash = [6],
     tx_ChainId = 56, tx_SigningHash = [1], tx_V = 27, tx_R = 1, tx_S = 1\<rparr>"

definition sample_block :: EthBlock where
  "sample_block = \<lparr>Transactions = [transfer_tx, fee_tx], NumberU64 = 100\<rparr>"

definition transferred :: PubChainInstance where
  "transferred = sample_pi\<lparr>pendingInbounds := [(''05'', \<lparr>itx_address = [0], pubBlockHeight = 100,
      itx_token = \<lparr>Denom = ''JUSD'', Amount = 100\<rparr>, itx_fee = \<lparr>Denom = ''BNB'', Amount = 0\<rparr>\<rparr>)]\<rparr>"

lemma hex_samples [simp]:
  "hex_EncodeToString [5] = ''05''" "hex_EncodeToString [7] = ''07''" "hex_EncodeToString [9] = ''09''"
  "hex_EncodeToString [0] = ''00''" "hex_DecodeString ''00'' = Some [0]" "hex_DecodeString ''05'' = Some [5]"
  by (simp_all add: hex_char_def hextable_def fromHexChar_def)

lemma sample_sender: "transfer_sender sample_ext transfer_tx = Done (Inr [0])"
proof -
  have "MakeSignature 1 1 (RecoverRecID 56 27) = Done (pad32 1 @ pad32 1 @ [ucast (big_Uint64 (RecoverRecID 56 27))])"
    by (rule MakeSignature_value) simp_all
  moreover have "take 1 (pad32 1 @ x) = [0]" for x
    by (simp add: pad32_def big_Bytes.simps)
  moreover have "length (pad32 1 @ pad32 1 @ [ucast (big_Uint64 (RecoverRecID 56 27))]) = 65"
    by simp
  ultimately show ?thesis
    by (simp del: take_append length_append hex_EncodeToString.simps hex_DecodeString.simps
        add: transfer_sender_def transfer_tx_def EthSignPubKeyToJoltAddr_def)
qed

lemma sample_transfer: "process_tx sample_ext sample_env 100 transfer_tx sample_pi = Done transferred"
proof -
  have erc: "ProcessInBoundERC20 sample_ext transfer_tx [7] [9] 100 100 sample_pi = Done (None, transferred)"
    unfolding ProcessInBoundERC20_eq sample_sender exec_bind.simps sum.case
    by (subst processInboundTx_no_fee [OF sample_ext_ok])
      (simp_all del: hex_EncodeToString.simps
        add: sample_pi_def NewChainInstance_def transferred_def transfer_tx_def config_defs sm_Store_def)
  show ?thesis
    unfolding process_tx_def process_fee_def checkEachTx_def checkErc20_def
    using erc by (simp del: hex_EncodeToString.simps
        add: transfer_tx_def sample_env_def sample_pi_def checkToBridge_def pub_GetPool_def NewChainInstance_def transferred_def)
qed

definition released_pi :: PubChainInstance where
  "released_pi = sample_pi\<lparr>RetryInboundReq :=
     [(5, \<lparr>ir_address = [0], ir_txID = [5], ir_toPoolAddr = [9],
        ir_coin = \<lparr>Denom = ''JUSD'', Amount = 100\<rparr>, ir_blockHeight = 0\<rparr>)]\<rparr>"

lemma sample_fee: "process_tx sample_ext sample_env 100 fee_tx transferred = Done released_pi"
proof -
  have load: "sm_Load ''05'' (pendingInbounds transferred) = Some
     \<lparr>itx_address = [0], pubBlockHeight = 100, itx_token = \<lparr>Denom = ''JUSD'', Amount = 100\<rparr>,
      itx_fee = \<lparr>Denom = ''BNB'', Amount = 0\<rparr>\<rparr>"
    by (simp add: transferred_def sm_Load_def)
  have "updateInboundTx sample_ext ''05'' 20 100 transferred = Done (Some
     \<lparr>itx_address = [0], pubBlockHeight = 100, itx_token = \<lparr>Denom = ''JUSD'', Amount = 100\<rparr>,
      itx_fee = \<lparr>Denom = ''BNB'', Amount = 20\<rparr>\<rparr>, sample_pi)"
    using updateInboundTx_known [OF sample_ext_ok load, of 20 100]
    by (simp add: transferred_def config_defs sm_Delete_def sample_pi_def NewChainInstance_def)
  then show ?thesis
    unfolding process_tx_def process_fee_def checkEachTx_def checkErc20_def
    by (simp del: hex_EncodeToString.simps
        add: fee_tx_def sample_env_def checkToBridge_def pub_GetPool_def transferred_def sample_pi_def
          NewChainInstance_def NewAccountInboundReq_def pub_AddItem_def inbound_key_def inbound_Hash_def
          released_pi_def big_SetBytes_def)
qed

lemma sample_block_run: "processEachBlock sample_ext sample_env sample_block sample_pi = Done released_pi"
  by (simp add: processEachBlock_def sample_block_def sample_transfer sample_fee)

lemma sample_block_values: "\<forall>tx \<in> set (Transactions sample_block). 0 \<le> tx_Value tx"
  by (simp add: sample_block_def transfer_tx_def fee_tx_def)

lemma sample_pi_inv: "pub_inv sample_ext sample_pi"
  by (simp add: pub_inv_def pending_ok_def queued_ok_def pub_retry_ok_def sample_pi_def NewChainInstance_def)

theorem processEachBlock_inv_witness: "pub_inv sample_ext released_pi"
  using processEachBlock_inv [OF sample_ext_ok sample_pi_inv sample_block_values sample_block_run] by simp

lemma sample_valid:
  "valid_transfer sample_ext sample_env sample_pi transfer_tx = Some ([0], \<lparr>Denom = ''JUSD'', Amount = 100\<rparr>)"
  "valid_transfer sample_ext sample_env sample_pi fee_tx = None"
proof -
  have "tx_To transfer_tx = Some [7]" "tx_Data transfer_tx = Some [1, 2, 3, 4]" by (simp_all add: transfer_tx_def)
  then show "valid_transfer sample_ext sample_env sample_pi transfer_tx = Some ([0], \<lparr>Denom = ''JUSD'', Amount = 100\<rparr>)"
    by (simp del: hex_EncodeToString.simps
        add: valid_transfer_def sample_sender checkErc20_def sample_env_def sample_pi_def checkToBridge_def pub_GetPool_def
          NewChainInstance_def config_defs)
  show "valid_transfer sample_ext sample_env sample_pi fee_tx = None"
    by (simp add: valid_transfer_def fee_tx_def checkErc20_def sample_env_def)
qed

theorem processEachBlock_no_mint_witness:
  "backing released_pi = backing sample_pi + {#([0], \<lparr>Denom = ''JUSD'', Amount = 100\<rparr>)#}"
proof -
  have "transfer_keys sample_ext sample_env sample_pi (Transactions sample_block) = [tx_key sample_ext transfer_tx]"
    by (simp add: transfer_keys_def sample_block_def sample_valid)
  moreover have "tx_key sample_ext transfer_tx = ''05''" "sm_Load k (pendingInbounds sample_pi) = None" for k
    by (simp_all del: hex_EncodeToString.simps add: tx_key_def transfer_tx_def sample_pi_def NewChainInstance_def)
  ultimately have "fresh_transfers sample_ext sample_env sample_pi (Transactions sample_block)"
    by (simp del: hex_DecodeString.simps add: fresh_transfers_def)
  then show ?thesis
    using processEachBlock_no_mint [OF sample_ext_ok sample_pi_inv sample_block_values sample_block_run]
    by (simp add: sample_block_def map_filter_simps sample_valid)
qed

section \<open>Fees\<close>

text \<open>Paying for a waiting transfer, payment by payment, until it is released.\<close>

fun pay_fees ::
    "ext \<Rightarrow> string \<Rightarrow> u64 \<Rightarrow> int list \<Rightarrow> PubChainInstance \<Rightarrow> (inboundTx option \<times> PubChainInstance) exec" where
  "pay_fees e txID n [] pi = Done (None, pi)"
| "pay_fees e txID n (a # as) pi =
     exec_bind (updateInboundTx e txID a n pi) (\<lambda>(acc, pi1).
       case acc of Some t \<Rightarrow> Done (Some t, pi1) | None \<Rightarrow> pay_fees e txID n as pi1)"

text \<open>
  C18: fees add up. However a fee for a waiting transfer is split into payments, the transfer
  is released, with its own sender and token and removed from the waiting ones, as soon as
  the payments reach the minimum of 10 units; while they do not, it waits with the sum.
\<close>

theorem pay_fees_released:
  assumes "sdk_ok M e" and "sm_Load txID (pendingInbounds pi) = Some t"
    and "Denom (itx_fee t) = InBoundDenomFee" and "0 \<le> Amount (itx_fee t)" and "Amount (itx_fee t) < 10"
    and "\<forall>a \<in> set amounts. 0 \<le> a \<and> a + 10 \<le> 2 ^ M"
  shows "\<exists>r pi'. pay_fees e txID n amounts pi = Done (r, pi')
    \<and> (Amount (itx_fee t) + sum_list amounts < 10 \<longrightarrow> r = None
         \<and> (\<exists>t'. sm_Load txID (pendingInbounds pi') = Some t' \<and> itx_token t' = itx_token t
              \<and> Amount (itx_fee t') = Amount (itx_fee t) + sum_list amounts))
    \<and> (10 \<le> Amount (itx_fee t) + sum_list amounts \<longrightarrow>
         (\<exists>a. r = Some a \<and> itx_address a = itx_address t \<and> itx_token a = itx_token t
            \<and> 10 \<le> Amount (itx_fee a) \<and> sm_Load txID (pendingInbounds pi') = None))"
  using assms(2-6)
proof (induction amounts arbitrary: pi t)
  case Nil
  then show ?case by simp
next
  case (Cons a as)
  let ?f = "Amount (itx_fee t) + a" and ?t = "t\<lparr>itx_fee := \<lparr>Denom = InBoundDenomFee, Amount = Amount (itx_fee t) + a\<rparr>\<rparr>"
  have b: "0 \<le> a" "a < 2 ^ M" "?f < 2 ^ M" using Cons.prems(4,5) by auto
  note step = updateInboundTx_known [OF assms(1) Cons.prems(1,2) b(1) Cons.prems(3), of n]
  show ?case
  proof (cases "?f < 10")
    case True
    let ?pi = "pi\<lparr>pendingInbounds := sm_Store txID ?t (pendingInbounds pi)\<rparr>"
    have "sm_Load txID (pendingInbounds ?pi) = Some ?t" by (simp add: sm.load_store)
    from Cons.IH [OF this] True b Cons.prems show ?thesis
      by (simp add: step Let_def add.assoc)
  next
    case False
    moreover have "0 \<le> sum_list as" using Cons.prems(5) by (simp add: sum_list_nonneg)
    ultimately show ?thesis
      using b by (simp add: step Let_def sm.load_del)
  qed
qed

theorem pay_fees_released_witness:
  "\<exists>r pi'. pay_fees sample_ext ''05'' 101 [4, 6] transferred = Done (r, pi') \<and> r \<noteq> None
     \<and> sm_Load ''05'' (pendingInbounds pi') = None"
proof -
  have load: "sm_Load ''05'' (pendingInbounds transferred) = Some
     \<lparr>itx_address = [0], pubBlockHeight = 100, itx_token = \<lparr>Denom = ''JUSD'', Amount = 100\<rparr>,
      itx_fee = \<lparr>Denom = ''BNB'', Amount = 0\<rparr>\<rparr>"
    by (simp add: transferred_def sm_Load_def)
  show ?thesis
    using pay_fees_released [OF sample_ext_ok load, of "[4, 6]" 101] by (fastforce simp: config_defs)
qed

text \<open>
  C17: transfer and fee may come in either order, in one block or in two. When a transfer of
  the token to a pool and a payment to a pool, of the minimum at least, that names it go
  through the loop over transactions, both orders produce one mint request, for the same
  sender, coin and transaction and with the same hash (so the same index on the other
  chain), and leave nothing waiting for the transaction. When the payment comes last, the
  request goes to the retry pool, at height 0 and for the pool that was paid; otherwise it
  goes to the channel, at the transfer's height and for the transfer's pool.
\<close>

theorem transfer_fee_order:
  assumes "sdk_ok M e" and "tx_To tx = Some token" and "EthHex e token = tokenAddr pi" and "Receipt env (tx_Hash tx) = Inr 1"
    and "checkErc20 env (case tx_Data tx of None \<Rightarrow> [] | Some d \<Rightarrow> d) = Inr (dest, amount)" and "checkToBridge e dest pi"
    and "\<not> checkToBridge e token pi" and "transfer_sender e tx = Done (Inr sender)" and "\<bar>amount\<bar> < 2 ^ M"
    and "drop 2 (HashHex e (tx_Hash tx)) = hex_EncodeToString txhash"
    and "tx_To fee = Some pool" and "checkToBridge e pool pi" and "Receipt env' (tx_Hash fee) = Inr 1"
    and "tx_Data fee = Some txhash" and "checkErc20 env' txhash = Inl err" and "10 \<le> tx_Value fee" and "tx_Value fee < 2 ^ M"
    and "sm_Load (hex_EncodeToString txhash) (pendingInbounds pi) = None"
    and "sm_Load (hex_EncodeToString txhash) (pendingInboundsBnB pi) = None" and "length (InboundReqChan pi) < reqCacheSize"
  shows "let coin = \<lparr>Denom = InBoundDenom, Amount = amount\<rparr>;
      late = NewAccountInboundReq sender pool coin txhash 0; early = NewAccountInboundReq sender dest coin txhash h
    in \<exists>pi1 pi2. exec_bind (process_tx e env h tx pi) (process_tx e env' n fee) = Done pi1
      \<and> exec_bind (process_tx e env' n fee pi) (process_tx e env h tx) = Done pi2
      \<and> map snd (RetryInboundReq pi1) = map snd (RetryInboundReq pi) @ [late] \<and> InboundReqChan pi1 = InboundReqChan pi
      \<and> RetryInboundReq pi2 = RetryInboundReq pi \<and> InboundReqChan pi2 = InboundReqChan pi @ [early]
      \<and> inbound_key e late = inbound_key e early
      \<and> (\<forall>s \<in> {pi1, pi2}. sm_Load (hex_EncodeToString txhash) (pendingInbounds s) = None
           \<and> sm_Load (hex_EncodeToString txhash) (pendingInboundsBnB s) = None)"
proof -
  let ?k = "hex_EncodeToString txhash" and ?coin = "\<lparr>Denom = InBoundDenom, Amount = amount\<rparr>"
  let ?t = "\<lparr>itx_address = sender, pubBlockHeight = h, itx_token = ?coin, itx_fee = \<lparr>Denom = InBoundDenomFee, Amount = 0\<rparr>\<rparr>"
  let ?b = "\<lparr>bnb_blockHeight = n, bnb_txID = ?k, bnb_fee = \<lparr>Denom = InBoundDenomFee, Amount = tx_Value fee\<rparr>\<rparr>"
  let ?p1 = "pi\<lparr>pendingInbounds := sm_Store ?k ?t (pendingInbounds pi)\<rparr>"
  let ?p2 = "?p1\<lparr>pendingInbounds := sm_Delete ?k (pendingInbounds ?p1)\<rparr>"
  let ?q1 = "pi\<lparr>pendingInboundsBnB := sm_Store ?k ?b (pendingInboundsBnB pi)\<rparr>"
  let ?late = "NewAccountInboundReq sender pool ?coin txhash 0" and ?early = "NewAccountInboundReq sender dest ?coin txhash h"
  let ?q2 = "?q1\<lparr>pendingInboundsBnB := sm_Delete ?k (pendingInboundsBnB ?q1), InboundReqChan := InboundReqChan pi @ [?early]\<rparr>"
  have bridge: "checkToBridge e a ?p1 = checkToBridge e a pi" "checkToBridge e a ?q1 = checkToBridge e a pi"
    "checkToBridge e a (pi\<lparr>pendingInboundsBnB := x, InboundReqChan := c\<rparr>) = checkToBridge e a pi" for a x c
    by (simp_all add: checkToBridge_def pub_GetPool_def)
  have "processInboundTx e ?k h sender dest amount token pi = Done (None, ?p1)"
    using processInboundTx_no_fee [OF assms(1,18,3,19)] assms(9,19) by simp
  then have t1: "process_tx e env h tx pi = Done ?p1"
    using assms(2-8,10) by (simp add: process_tx_def process_fee_def checkEachTx_def ProcessInBoundERC20_eq bridge)
  have l1: "sm_Load ?k (pendingInbounds ?p1) = Some ?t" by (simp add: sm.load_store)
  have "updateInboundTx e ?k (tx_Value fee) n ?p1
      = Done (Some (?t\<lparr>itx_fee := \<lparr>Denom = InBoundDenomFee, Amount = tx_Value fee\<rparr>\<rparr>), ?p2)"
    using updateInboundTx_known [OF assms(1) l1, of "tx_Value fee" n] assms(16,17) by simp
  then have t2: "process_tx e env' n fee ?p1 = Done (pub_AddItem e ?late ?p2)"
    using assms(11-15) by (simp add: process_tx_def process_fee_def checkEachTx_def bridge)
  have "updateInboundTx e ?k (tx_Value fee) n pi = Done (None, ?q1)"
    using updateInboundTx_unknown [OF assms(1,18)] assms(16,17) by simp
  then have u1: "process_tx e env' n fee pi = Done ?q1"
    using assms(11-15) by (simp add: process_tx_def process_fee_def checkEachTx_def)
  have l2: "sm_Load ?k (pendingInbounds ?q1) = None" "EthHex e token = tokenAddr ?q1"
    "sm_Load ?k (pendingInboundsBnB ?q1) = Some ?b" using assms(3,18) by (simp_all add: sm.load_store)
  have "processInboundTx e ?k h sender dest amount token ?q1 = Done (None, ?q2)"
    using processInboundTx_with_fee [OF assms(1) l2, of h sender dest amount] assms(9,16,20)
    by (simp add: hex.dec_enc chan_send_def)
  then have u2: "process_tx e env h tx ?q1 = Done ?q2"
    using assms(2-8,10) by (simp add: process_tx_def process_fee_def checkEachTx_def ProcessInBoundERC20_eq bridge)
  have key: "inbound_key e ?late = inbound_key e ?early"
    by (simp add: inbound_key_def inbound_Hash_def NewAccountInboundReq_def)
  show ?thesis
    unfolding Let_def using t1 t2 u1 u2 key assms(18,19)
    by (intro exI [of _ "pub_AddItem e ?late ?p2"] exI [of _ ?q2])
      (simp add: pub_AddItem_def sm.load_del sm.load_store)
qed

theorem transfer_fee_order_witness:
  "\<exists>pi1 pi2. exec_bind (process_tx sample_ext sample_env 100 transfer_tx sample_pi) (process_tx sample_ext sample_env 101 fee_tx) = Done pi1
     \<and> exec_bind (process_tx sample_ext sample_env 101 fee_tx sample_pi) (process_tx sample_ext sample_env 100 transfer_tx) = Done pi2
     \<and> map snd (RetryInboundReq pi1) = [NewAccountInboundReq [0] [9] \<lparr>Denom = InBoundDenom, Amount = 100\<rparr> [5] 0]
     \<and> InboundReqChan pi2 = [NewAccountInboundReq [0] [9] \<lparr>Denom = InBoundDenom, Amount = 100\<rparr> [5] 100]"
proof -
  have pools: "checkToBridge sample_ext [9] sample_pi" "\<not> checkToBridge sample_ext [7] sample_pi"
    by (simp_all add: sample_pi_def checkToBridge_def pub_GetPool_def hex_char_def hextable_def)
  have tx: "tx_To transfer_tx = Some [7]" "checkErc20 sample_env (case tx_Data transfer_tx of None \<Rightarrow> [] | Some d \<Rightarrow> d) = Inr ([9], 100)"
    "drop 2 (HashHex sample_ext (tx_Hash transfer_tx)) = hex_EncodeToString [5]"
    by (simp_all add: transfer_tx_def checkErc20_def sample_env_def del: hex_EncodeToString.simps)
  have fee: "tx_To fee_tx = Some [9]" "tx_Data fee_tx = Some [5]" "10 \<le> tx_Value fee_tx" "tx_Value fee_tx < 2 ^ 255"
    "checkErc20 sample_env [5] = Inl ''invalid data''"
    by (simp_all add: fee_tx_def checkErc20_def sample_env_def)
  have env: "Receipt sample_env h = Inr 1" for h by (simp add: sample_env_def)
  have start: "EthHex sample_ext [7] = tokenAddr sample_pi" "sm_Load k (pendingInbounds sample_pi) = None"
    "sm_Load k (pendingInboundsBnB sample_pi) = None" "length (InboundReqChan sample_pi) < reqCacheSize"
    "RetryInboundReq sample_pi = []" "InboundReqChan sample_pi = []" for k
    by (simp_all add: sample_pi_def NewChainInstance_def reqCacheSize_def del: hex_EncodeToString.simps)
  have small: "\<bar>100\<bar> < (2::int) ^ 255" by simp
  show ?thesis
    using transfer_fee_order [OF sample_ext_ok tx(1) start(1) env tx(2) pools sample_sender small tx(3) fee(1) pools(1) env fee(2,5,3,4)
        start(2,3,4), of 100 101]
    unfolding Let_def start(5,6) by auto
qed

text \<open>
  An early fee is not added up. Two payments that arrive before the transfer they are for,
  each below the minimum but enough together, are not: the second replaces the first, and
  the transfer then waits with the second fee only. After the transfer, the same two
  payments release it.
\<close>

theorem early_fee_replaced:
  assumes "sdk_ok M e" and "sm_Load k (pendingInbounds pi) = None" and "sm_Load k (pendingInboundsBnB pi) = None"
    and "EthHex e addr = tokenAddr pi" and "\<bar>val\<bar> < 2 ^ M"
    and "0 \<le> a1" "a1 < 10" "0 \<le> a2" "a2 < 10" "10 \<le> a1 + a2"
  shows "\<exists>s1 s2 t. exec_bind (updateInboundTx e k a1 n pi) (\<lambda>(_, pi1).
        exec_bind (updateInboundTx e k a2 n pi1) (\<lambda>(_, pi2). processInboundTx e k h from to val addr pi2)) = Done (None, s1)
      \<and> sm_Load k (pendingInbounds s1) = Some \<lparr>itx_address = from, pubBlockHeight = h,
          itx_token = \<lparr>Denom = InBoundDenom, Amount = val\<rparr>, itx_fee = \<lparr>Denom = InBoundDenomFee, Amount = a2\<rparr>\<rparr>
      \<and> InboundReqChan s1 = InboundReqChan pi
      \<and> exec_bind (processInboundTx e k h from to val addr pi) (\<lambda>(_, pi1). pay_fees e k n [a1, a2] pi1)
          = Done (Some t, s2)"
proof -
  have b: "a1 < 2 ^ M" "a2 < 2 ^ M" "a1 + a2 < 2 ^ M" using sdk_ok_pow [OF assms(1)] assms by linarith+
  let ?b = "\<lambda>a. \<lparr>bnb_blockHeight = n, bnb_txID = k, bnb_fee = \<lparr>Denom = InBoundDenomFee, Amount = a\<rparr>\<rparr>"
  let ?p1 = "pi\<lparr>pendingInboundsBnB := sm_Store k (?b a1) (pendingInboundsBnB pi)\<rparr>"
  let ?p2 = "?p1\<lparr>pendingInboundsBnB := sm_Store k (?b a2) (pendingInboundsBnB ?p1)\<rparr>"
  let ?t = "\<lambda>a. \<lparr>itx_address = from, pubBlockHeight = h, itx_token = \<lparr>Denom = InBoundDenom, Amount = val\<rparr>,
     itx_fee = \<lparr>Denom = InBoundDenomFee, Amount = a\<rparr>\<rparr>"
  let ?q1 = "pi\<lparr>pendingInbounds := sm_Store k (?t 0) (pendingInbounds pi)\<rparr>"
  have u: "updateInboundTx e k a1 n pi = Done (None, ?p1)" "updateInboundTx e k a2 n ?p1 = Done (None, ?p2)"
    using updateInboundTx_unknown [OF assms(1)] assms b by simp_all
  have l2: "sm_Load k (pendingInbounds ?p2) = None" "EthHex e addr = tokenAddr ?p2"
    "sm_Load k (pendingInboundsBnB ?p2) = Some (?b a2)" using assms(2,4) by (simp_all add: sm.load_store)
  have early: "\<exists>s1. processInboundTx e k h from to val addr ?p2 = Done (None, s1)
      \<and> sm_Load k (pendingInbounds s1) = Some (?t a2) \<and> InboundReqChan s1 = InboundReqChan pi"
    using processInboundTx_with_fee [OF assms(1) l2, of h "from" to val] assms by (simp add: sm.load_store)
  have p: "processInboundTx e k h from to val addr pi = Done (None, ?q1)"
    using processInboundTx_no_fee [OF assms(1,2,4,3)] assms(3,5) by simp
  have lq: "sm_Load k (pendingInbounds ?q1) = Some (?t 0)" by (simp add: sm.load_store)
  let ?q2 = "?q1\<lparr>pendingInbounds := sm_Store k (?t a1) (pendingInbounds ?q1)\<rparr>"
  have v1: "updateInboundTx e k a1 n ?q1 = Done (None, ?q2)"
    using updateInboundTx_known [OF assms(1) lq, of a1 n] assms b by simp
  have lq2: "sm_Load k (pendingInbounds ?q2) = Some (?t a1)" by (simp add: sm.load_store)
  have late: "\<exists>t s2. updateInboundTx e k a2 n ?q2 = Done (Some t, s2)"
    using updateInboundTx_known [OF assms(1) lq2, of a2 n] assms b by auto
  show ?thesis
    using early late p u v1 by auto
qed

theorem early_fee_replaced_witness:
  "\<exists>s2 t. exec_bind (processInboundTx sample_ext ''05'' 100 [0] [9] 100 [7] sample_pi)
     (\<lambda>(_, pi1). pay_fees sample_ext ''05'' 101 [6, 7] pi1) = Done (Some t, s2)"
  using early_fee_replaced [OF sample_ext_ok, of "''05''" sample_pi "[7]" 100 6 7 101 100 "[0]" "[9]"]
  by (auto simp del: hex_EncodeToString.simps pay_fees.simps simp: sample_pi_def NewChainInstance_def)

section \<open>Expiry\<close>

text \<open>How old an entry is, as the code computes it, in 64-bit arithmetic.\<close>

lemma age_uint:
  "uint (a :: u64) \<le> uint c \<Longrightarrow> TxTimeout < c - a \<longleftrightarrow> 300 < uint c - uint a"
  "uint c < uint (a :: u64) \<Longrightarrow> uint a - uint c < 2 ^ 64 - 300 \<Longrightarrow> TxTimeout < c - a"
proof -
  have "uint (c - a) = (uint c - uint a) mod 2 ^ 64" for c a :: u64
    by (simp add: uint_word_ariths)
  note sub = this
  have b: "0 \<le> uint x" "uint x < 2 ^ 64" for x :: u64 using unsigned_less [of x, where ?'a = int] by simp_all
  show "uint a \<le> uint c \<Longrightarrow> TxTimeout < c - a \<longleftrightarrow> 300 < uint c - uint a"
  proof -
    assume le: "uint a \<le> uint c"
    have "(uint c - uint a) mod 2 ^ 64 = uint c - uint a"
      using le b [of c] b [of a] by (intro mod_pos_pos_trivial) linarith+
    then show ?thesis by (simp add: word_less_alt sub TxTimeout_def)
  qed
  assume lt: "uint c < uint a" and near: "uint a - uint c < 2 ^ 64 - 300"
  have wrap: "(uint c - uint a) mod 2 ^ 64 = uint c - uint a + 2 ^ 64"
  proof -
    have "(uint c - uint a) mod 2 ^ 64 = (uint c - uint a + 2 ^ 64) mod 2 ^ 64" by simp
    also have "\<dots> = uint c - uint a + 2 ^ 64"
      using b [of c] b [of a] lt by (intro mod_pos_pos_trivial) linarith+
    finally show ?thesis .
  qed
  show "TxTimeout < c - a" using near by (simp add: word_less_alt sub wrap [simplified] TxTimeout_def)
qed

lemma DeleteExpired_load:
  assumes "sm_wf (pendingInbounds pi)" and "sm_wf (pendingInboundsBnB pi)"
  shows "sm_Load k (pendingInbounds (DeleteExpired c pi)) = (case sm_Load k (pendingInbounds pi) of
           None \<Rightarrow> None | Some t \<Rightarrow> if TxTimeout < c - pubBlockHeight t then None else Some t)"
    and "sm_Load k (pendingInboundsBnB (DeleteExpired c pi)) = (case sm_Load k (pendingInboundsBnB pi) of
           None \<Rightarrow> None | Some t \<Rightarrow> if TxTimeout < c - bnb_blockHeight t then None else Some t)"
  using assms
  by (auto simp: DeleteExpired_def Let_def sm.load_fold_del in_sm_Range_select split: option.splits)

text \<open>
  C36: expiry. An entry filed at or before the current block survives \<open>DeleteExpired\<close> exactly
  for 300 blocks, unchanged, in both maps; but an entry filed at a height above the current
  block (the chain reported an older block, as in a reorganisation) is deleted at once,
  however fresh it is, because its age is computed with unsigned wrap-around.
\<close>

theorem DeleteExpired_age:
  assumes "pub_inv e pi"
  shows "(\<forall>t. sm_Load k (pendingInbounds pi) = Some t \<longrightarrow>
       (uint (pubBlockHeight t) \<le> uint c \<longrightarrow> sm_Load k (pendingInbounds (DeleteExpired c pi))
          = (if uint c - uint (pubBlockHeight t) \<le> 300 then Some t else None))
     \<and> (uint c < uint (pubBlockHeight t) \<and> uint (pubBlockHeight t) - uint c < 2 ^ 64 - 300 \<longrightarrow>
          sm_Load k (pendingInbounds (DeleteExpired c pi)) = None))
   \<and> (\<forall>b. sm_Load k (pendingInboundsBnB pi) = Some b \<longrightarrow>
       (uint (bnb_blockHeight b) \<le> uint c \<longrightarrow> sm_Load k (pendingInboundsBnB (DeleteExpired c pi))
          = (if uint c - uint (bnb_blockHeight b) \<le> 300 then Some b else None))
     \<and> (uint c < uint (bnb_blockHeight b) \<and> uint (bnb_blockHeight b) - uint c < 2 ^ 64 - 300 \<longrightarrow>
          sm_Load k (pendingInboundsBnB (DeleteExpired c pi)) = None))"
proof -
  have "sm_wf (pendingInbounds pi)" "sm_wf (pendingInboundsBnB pi)"
    using assms by (simp_all add: pub_inv_def pending_ok_def)
  note load = DeleteExpired_load [OF this]
  show ?thesis
    by (auto simp: load age_uint)
qed

theorem DeleteExpired_age_witness:
  "sm_Load ''05'' (pendingInbounds (DeleteExpired 99 transferred)) = None"
proof -
  have "pub_inv sample_ext transferred"
    by (rule process_tx_inv [OF sample_ext_ok sample_pi_inv _ sample_transfer]) (simp add: transfer_tx_def)
  from DeleteExpired_age [OF this, of "''05''" 99] show ?thesis
    by (simp add: transferred_def sm_Load_def)
qed

section \<open>When a block goes through\<close>

lemma updateInboundTx_total:
  assumes "sdk_ok M e" and "pub_inv e pi" and "0 \<le> amount" and "amount + 10 \<le> 2 ^ M"
  shows "\<exists>acc pi'. updateInboundTx e k amount n pi = Done (acc, pi') \<and> InboundReqChan pi' = InboundReqChan pi"
proof (cases "sm_Load k (pendingInbounds pi)")
  case None
  then show ?thesis using assms by (simp add: updateInboundTx_unknown)
next
  case (Some t)
  then have "Denom (itx_fee t) = InBoundDenomFee" "0 \<le> Amount (itx_fee t)" "Amount (itx_fee t) < 10"
    using assms(2) by (auto simp: pub_inv_def dest: pending_okD)
  with Some show ?thesis
    using assms by (auto simp: updateInboundTx_known Let_def)
qed

lemma process_fee_total:
  assumes "sdk_ok M e" and "pub_inv e pi" and "0 \<le> tx_Value tx" and "tx_Value tx + 10 \<le> 2 ^ M"
  shows "\<exists>pi'. process_fee e n tx to pi = Done pi' \<and> InboundReqChan pi' = InboundReqChan pi"
proof (cases "checkToBridge e to pi \<and> tx_Data tx \<noteq> None")
  case False
  then show ?thesis by (auto simp: process_fee_def split: option.splits)
next
  case True
  then obtain d where d: "tx_Data tx = Some d" by blast
  from updateInboundTx_total [OF assms, of "hex_EncodeToString d" n] obtain acc pi1 where
    u: "updateInboundTx e (hex_EncodeToString d) (tx_Value tx) n pi = Done (acc, pi1)"
    "InboundReqChan pi1 = InboundReqChan pi" by blast
  show ?thesis
    using True d u by (cases acc) (simp_all add: process_fee_def pub_AddItem_def)
qed

lemma processInboundTx_total:
  assumes "sdk_ok M e" and "pub_inv e pi" and "\<bar>val\<bar> < 2 ^ M" and "length (InboundReqChan pi) < reqCacheSize"
  shows "\<exists>err pi'. processInboundTx e k h from to val addr pi = Done (err, pi')
    \<and> length (InboundReqChan pi') \<le> Suc (length (InboundReqChan pi))"
proof (cases "sm_Load k (pendingInbounds pi) = None \<and> EthHex e addr = tokenAddr pi")
  case False
  then show ?thesis by (auto simp: processInboundTx_def)
next
  case True
  show ?thesis
  proof (cases "sm_Load k (pendingInboundsBnB pi)")
    case None
    then show ?thesis using True assms by (simp add: processInboundTx_no_fee)
  next
    case (Some b)
    then have "Denom (bnb_fee b) = InBoundDenomFee" using assms(2) by (auto simp: pub_inv_def dest: pending_okD)
    with Some show ?thesis
      using True assms by (auto simp: processInboundTx_with_fee Let_def chan_send_def split: option.splits)
  qed
qed

text \<open>A transaction with a signature of at most 256 bits and amounts the sdk can hold.\<close>

definition tx_in_range :: "nat \<Rightarrow> pub_env \<Rightarrow> EthTx \<Rightarrow> bool" where
  "tx_in_range M env tx \<longleftrightarrow> 0 \<le> tx_Value tx \<and> tx_Value tx + 10 \<le> 2 ^ M
     \<and> \<bar>tx_R tx\<bar> < 2 ^ 256 \<and> \<bar>tx_S tx\<bar> < 2 ^ 256
     \<and> (\<forall>dest amount. checkErc20 env (case tx_Data tx of None \<Rightarrow> [] | Some d \<Rightarrow> d) = Inr (dest, amount)
          \<longrightarrow> \<bar>amount\<bar> < 2 ^ M)"

lemma process_tx_total:
  assumes "sdk_ok M e" and "pub_inv e pi" and "tx_in_range M env tx" and "length (InboundReqChan pi) < reqCacheSize"
  shows "\<exists>pi'. process_tx e env n tx pi = Done pi' \<and> length (InboundReqChan pi') \<le> Suc (length (InboundReqChan pi))"
proof -
  have v: "0 \<le> tx_Value tx" "tx_Value tx + 10 \<le> 2 ^ M" and rs: "\<bar>tx_R tx\<bar> < 2 ^ 256" "\<bar>tx_S tx\<bar> < 2 ^ 256"
    using assms(3) by (simp_all add: tx_in_range_def)
  have fee: "\<exists>pi'. process_fee e n tx to s = Done pi' \<and> InboundReqChan pi' = InboundReqChan s"
    if "pub_inv e s" for to s using process_fee_total [OF assms(1) that v] .
  have erc: "\<exists>err pi1. ProcessInBoundERC20 e tx to dest amount n pi = Done (err, pi1) \<and> pub_inv e pi1
      \<and> length (InboundReqChan pi1) \<le> Suc (length (InboundReqChan pi))"
    if "\<bar>amount\<bar> < 2 ^ M" for to dest amount
  proof -
    obtain r where r: "transfer_sender e tx = Done r"
      by (simp add: transfer_sender_def MakeSignature_value [OF rs])
    show ?thesis
    proof (cases r)
      case (Inl err)
      then show ?thesis using assms(2) by (simp add: ProcessInBoundERC20_eq r)
    next
      case (Inr sender)
      from processInboundTx_total [OF assms(1,2) that assms(4), of "drop 2 (HashHex e (tx_Hash tx))" n sender dest to]
      obtain err pi1 where "processInboundTx e (drop 2 (HashHex e (tx_Hash tx))) n sender dest amount to pi = Done (err, pi1)"
        "length (InboundReqChan pi1) \<le> Suc (length (InboundReqChan pi))" by blast
      then show ?thesis
        using Inr processInboundTx_inv [OF assms(1,2)] by (simp add: ProcessInBoundERC20_eq r)
    qed
  qed
  show ?thesis
  proof (cases "tx_To tx")
    case None
    then show ?thesis by (simp add: process_tx_def)
  next
    case (Some to)
    show ?thesis
    proof (cases "checkErc20 env (case tx_Data tx of None \<Rightarrow> [] | Some d \<Rightarrow> d)")
      case (Inl err)
      then show ?thesis using Some fee [OF assms(2), of to] by (auto simp: process_tx_def)
    next
      case (Inr p)
      then obtain dest amount where p: "p = (dest, amount)" and a: "\<bar>amount\<bar> < 2 ^ M"
        using assms(3) by (cases p) (auto simp: tx_in_range_def)
      from erc [OF a, of to dest] obtain err pi1 where r: "ProcessInBoundERC20 e tx to dest amount n pi = Done (err, pi1)"
        "pub_inv e pi1" "length (InboundReqChan pi1) \<le> Suc (length (InboundReqChan pi))" by blast
      then show ?thesis
        using Some Inr p fee [OF r(2), of to] by (cases err) (auto simp: process_tx_def)
    qed
  qed
qed

text \<open>
  C23: a block of transactions in range always goes through, without panic, when the request
  channel has room for one request per transaction; it never adds more than that.
\<close>

theorem processEachBlock_total:
  assumes "sdk_ok M e" and "pub_inv e pi" and "\<forall>tx \<in> set (Transactions block). tx_in_range M env tx"
    and "length (InboundReqChan pi) + length (Transactions block) \<le> reqCacheSize"
  shows "\<exists>pi'. processEachBlock e env block pi = Done pi'
    \<and> length (InboundReqChan pi') \<le> length (InboundReqChan pi) + length (Transactions block)"
proof -
  have "\<exists>pi'. exec_fold (process_tx e env n) txs pi = Done pi'
      \<and> length (InboundReqChan pi') \<le> length (InboundReqChan pi) + length txs"
    if "pub_inv e pi" "\<forall>tx \<in> set txs. tx_in_range M env tx" "length (InboundReqChan pi) + length txs \<le> reqCacheSize"
    for n txs pi
    using that
  proof (induction txs arbitrary: pi)
    case Nil
    then show ?case by simp
  next
    case (Cons tx txs)
    then have r: "tx_in_range M env tx" and room: "length (InboundReqChan pi) < reqCacheSize" by auto
    from process_tx_total [OF assms(1) Cons.prems(1) this, of n] obtain pi1 where
      p: "process_tx e env n tx pi = Done pi1" "length (InboundReqChan pi1) \<le> Suc (length (InboundReqChan pi))" by blast
    have "pub_inv e pi1" using process_tx_inv [OF assms(1) Cons.prems(1) _ p(1)] r by (simp add: tx_in_range_def)
    from Cons.IH [OF this] Cons.prems(2,3) p show ?case by fastforce
  qed
  from this [OF assms(2-4)] show ?thesis by (simp add: processEachBlock_def)
qed

theorem processEachBlock_total_witness:
  "\<exists>pi'. processEachBlock sample_ext sample_env sample_block sample_pi = Done pi'"
proof -
  have "\<forall>tx \<in> set (Transactions sample_block). tx_in_range 255 sample_env tx"
    by (auto simp: tx_in_range_def sample_block_def transfer_tx_def fee_tx_def checkErc20_def sample_env_def)
  from processEachBlock_total [OF sample_ext_ok sample_pi_inv this] show ?thesis
    by (auto simp: sample_pi_def NewChainInstance_def reqCacheSize_def sample_block_def)
qed

text \<open>
  C33: one transaction can bring the bridge down. \<open>checkErc20\<close> never looks at the four
  selector bytes, so any successful call of the token contract whose arguments decode to
  (pool, amount), an approval for instance, counts as a transfer; and when the amount
  exceeds what \<open>sdk.Int\<close> holds, such as an unlimited approval, processing the block panics.
\<close>

theorem any_selector_panics:
  assumes "sdk_ok M e" and "tx_To tx = Some to" and "EthHex e to = tokenAddr pi" and "Receipt env (tx_Hash tx) = Inr 1"
    and "tx_Data tx = Some (selector @ args)" and "length selector = 4"
    and "transfer_Unpack env = Some unpack" and "unpack args = Inr [AbiAddress pool, AbiInt amount]"
    and "checkToBridge e pool pi" and "transfer_sender e tx = Done (Inr sender)"
    and "sm_Load (drop 2 (HashHex e (tx_Hash tx))) (pendingInbounds pi) = None" and "2 ^ M \<le> amount"
  shows "processEachBlock e env \<lparr>Transactions = tx # txs, NumberU64 = n\<rparr> pi = Panic ''NewIntFromBigInt() out of bound''"
proof -
  have "(0::int) < 2 ^ M" by simp
  then have "\<not> \<bar>amount\<bar> < 2 ^ M" using assms(12) by linarith
  then have "processInboundTx e (drop 2 (HashHex e (tx_Hash tx))) n sender pool amount to pi
      = Panic ''NewIntFromBigInt() out of bound''"
    using assms(1,3,11) by (simp add: processInboundTx_def sdk_ok_ints)
  then show ?thesis
    using assms(2-10)
    by (simp add: processEachBlock_def process_tx_def checkEachTx_def checkErc20_def ProcessInBoundERC20_eq)
qed

theorem any_selector_panics_witness:
  "processEachBlock sample_ext (sample_env\<lparr>transfer_Unpack := Some (\<lambda>_. Inr [AbiAddress [9], AbiInt (2 ^ 256 - 1)])\<rparr>)
     \<lparr>Transactions = [transfer_tx], NumberU64 = 100\<rparr> sample_pi = Panic ''NewIntFromBigInt() out of bound''"
  by (rule any_selector_panics [OF sample_ext_ok, where selector = "[1, 2, 3, 4]" and args = "[]" and
        unpack = "\<lambda>_. Inr [AbiAddress [9], AbiInt (2 ^ 256 - 1)]" and pool = "[9]"
        and sender = "[0]" and to = "[7]" and amount = "2 ^ 256 - 1"])
    (simp_all del: hex_EncodeToString.simps add: sample_sender,
     simp_all del: hex_EncodeToString.simps add: transfer_tx_def sample_env_def sample_pi_def NewChainInstance_def
       checkToBridge_def pub_GetPool_def)

section \<open>The status of a transaction\<close>

text \<open>
  \<open>CheckTxStatus\<close> returns nil exactly when the last attempt of the polling found a receipt
  with status 1, and \<open>tx failed\<close> (the only error that makes the event loop send again) when
  it found one with another status, or else the node's own error; the attempts before the
  last found no receipt.
\<close>

lemma CheckTxStatus_last:
  assumes "retry_ok Retry"
  shows "\<exists>n. (\<forall>k < n. \<exists>err. Receipt (envs k) (HexToHash e hashStr) = Inl err)
     \<and> pub_CheckTxStatus e Retry envs hashStr =
         (case Receipt (envs n) (HexToHash e hashStr) of
            Inl err \<Rightarrow> Some err | Inr st \<Rightarrow> if st = 1 then None else Some ''tx failed'')"
proof -
  let ?answers = "\<lambda>k. Receipt (envs k) (HexToHash e hashStr)"
  let ?op = "\<lambda>k. case ?answers k of Inl err \<Rightarrow> Some err | Inr _ \<Rightarrow> None"
  obtain n err where R: "Retry ?op = (n, err)" by (cases "Retry ?op")
  have last: "err = ?op n" and before: "\<forall>k < n. ?op k \<noteq> None"
    using assms [unfolded retry_ok_def, rule_format, of ?op] by (auto simp: R)
  have bad: "\<exists>err. ?answers k = Inl err" if "k < n" for k
    using before that by (cases "?answers k") auto
  have "fold (\<lambda>k st. case ?answers k of Inl _ \<Rightarrow> st | Inr ret \<Rightarrow> ret) [0..<Suc n] 0
      = (case ?answers n of Inl _ \<Rightarrow> fold (\<lambda>k st. case ?answers k of Inl _ \<Rightarrow> st | Inr ret \<Rightarrow> ret) [0..<n] 0 | Inr ret \<Rightarrow> ret)"
    by simp
  then have "pub_CheckTxStatus e Retry envs hashStr =
      (case ?answers n of Inl err \<Rightarrow> Some err | Inr st \<Rightarrow> if st = 1 then None else Some ''tx failed'')"
    using last by (auto simp: pub_CheckTxStatus_def checkEachTx_def R Let_def split: sum.splits)
  with bad show ?thesis by blast
qed

end
