(* ===== verification/Pub_Selector.thy ===== *)
theory Pub_Selector
  imports Pub_Inbound_Correct
begin

text \<open>
  What \<open>checkErc20\<close> of \<open>pubchain/tx_inbound.go\<close> does not look at: the selector of the call. The
  token of \<open>generated/erc20.go\<close> has \<open>transfer\<close> (\<open>0xa9059cbb\<close>) and \<open>approve\<close> (\<open>0x095ea7b3\<close>), both
  of an address and an amount.
\<close>

definition sel_transfer :: bytes where
  "sel_transfer = [0xa9, 0x05, 0x9c, 0xbb]"

definition sel_approve :: bytes where
  "sel_approve = [0x09, 0x5e, 0xa7, 0xb3]"

lemma checkErc20_selector:
  assumes "length sel = 4" and "length sel' = 4"
  shows "checkErc20 env (sel @ args) = checkErc20 env (sel' @ args)"
  using assms by (simp add: checkErc20_def cong: option.case_cong)

text \<open>
  C16: an approval is minted like a transfer. A block with a successful \<open>approve\<close> of the token
  contract, of an amount for a pool, and with a payment of the fee that names it, ends with
  a mint request of that amount for the caller, although no token has moved; the state is the
  same as if the call had been a \<open>transfer\<close> with the same hash and signature.
\<close>

theorem approval_mints:
  assumes "sdk_ok M e" and "tx_To tx = Some token" and "EthHex e token = tokenAddr pi" and "Receipt env (tx_Hash tx) = Inr 1"
    and "tx_Data tx = Some (sel_approve @ args)" and "transfer_Unpack env = Some unpack"
    and "unpack args = Inr [AbiAddress pool, AbiInt amount]" and "checkToBridge e pool pi" and "\<not> checkToBridge e token pi"
    and "transfer_sender e tx = Done (Inr caller)" and "drop 2 (HashHex e (tx_Hash tx)) = hex_EncodeToString txhash"
    and "sm_Load (hex_EncodeToString txhash) (pendingInbounds pi) = None"
    and "sm_Load (hex_EncodeToString txhash) (pendingInboundsBnB pi) = None" and "\<bar>amount\<bar> < 2 ^ M"
    and "tx_To fee = Some pool2" and "checkToBridge e pool2 pi" and "Receipt env (tx_Hash fee) = Inr 1"
    and "tx_Data fee = Some txhash" and "checkErc20 env txhash = Inl err" and "10 \<le> tx_Value fee" and "tx_Value fee < 2 ^ M"
  shows "\<exists>pi'. processEachBlock e env \<lparr>Transactions = [tx, fee], NumberU64 = n\<rparr> pi = Done pi'
    \<and> map snd (RetryInboundReq pi') = map snd (RetryInboundReq pi)
         @ [NewAccountInboundReq caller pool2 \<lparr>Denom = InBoundDenom, Amount = amount\<rparr> txhash 0]
    \<and> processEachBlock e env \<lparr>Transactions = [tx\<lparr>tx_Data := Some (sel_transfer @ args)\<rparr>, fee], NumberU64 = n\<rparr> pi = Done pi'"
proof -
  let ?k = "hex_EncodeToString txhash"
  let ?t = "\<lparr>itx_address = caller, pubBlockHeight = n, itx_token = \<lparr>Denom = InBoundDenom, Amount = amount\<rparr>,
     itx_fee = \<lparr>Denom = InBoundDenomFee, Amount = 0\<rparr>\<rparr>"
  let ?p1 = "pi\<lparr>pendingInbounds := sm_Store ?k ?t (pendingInbounds pi)\<rparr>"
  let ?t2 = "?t\<lparr>itx_fee := \<lparr>Denom = InBoundDenomFee, Amount = tx_Value fee\<rparr>\<rparr>"
  let ?p2 = "?p1\<lparr>pendingInbounds := sm_Delete ?k (pendingInbounds ?p1)\<rparr>"
  let ?r = "NewAccountInboundReq caller pool2 \<lparr>Denom = InBoundDenom, Amount = amount\<rparr> txhash 0"
  have bridge: "checkToBridge e a ?p1 = checkToBridge e a pi" for a
    by (simp add: checkToBridge_def pub_GetPool_def)
  have stored: "processInboundTx e ?k n caller pool amount token pi = Done (None, ?p1)"
    using processInboundTx_no_fee [OF assms(1,12,3,13)] assms(13,14) by simp
  have erc: "ProcessInBoundERC20 e (tx\<lparr>tx_Data := d\<rparr>) token pool amount n pi = Done (None, ?p1)" for d
    using assms(10,11) stored by (simp add: ProcessInBoundERC20_eq transfer_sender_def)
  have dec: "checkErc20 env (sel @ args) = Inr (pool, amount)" if "length sel = 4" for sel
    using that assms(6,7) checkErc20_selector [OF that, of "replicate 4 0" env args] by (simp add: checkErc20_def)
  have tx: "process_tx e env n (tx\<lparr>tx_Data := Some (sel @ args)\<rparr>) pi = Done ?p1" if "length sel = 4" for sel
    using assms(2-4,8,9) erc dec [OF that] by (simp add: process_tx_def process_fee_def checkEachTx_def bridge)
  have "tx = tx\<lparr>tx_Data := Some (sel_approve @ args)\<rparr>" using assms(5) by (cases tx) simp
  then have tx0: "process_tx e env n tx pi = Done ?p1" using tx [of sel_approve] by (simp add: sel_approve_def)
  have l1: "sm_Load ?k (pendingInbounds ?p1) = Some ?t" by (simp add: sm.load_store)
  have "updateInboundTx e ?k (tx_Value fee) n ?p1 = Done (Some ?t2, ?p2)"
    using updateInboundTx_known [OF assms(1) l1, of "tx_Value fee" n] assms(20,21) by simp
  then have "process_tx e env n fee ?p1 = Done (pub_AddItem e ?r ?p2)"
    using assms(15-19) by (simp add: process_tx_def process_fee_def checkEachTx_def bridge)
  then show ?thesis
    using tx0 tx [of sel_transfer] by (simp add: processEachBlock_def sel_transfer_def pub_AddItem_def)
qed

theorem approval_mints_witness:
  "\<exists>pi'. processEachBlock sample_ext sample_env
       \<lparr>Transactions = [transfer_tx\<lparr>tx_Data := Some (sel_approve @ [])\<rparr>, fee_tx], NumberU64 = 100\<rparr> sample_pi = Done pi'
    \<and> map snd (RetryInboundReq pi') = [NewAccountInboundReq [0] [9] \<lparr>Denom = InBoundDenom, Amount = 100\<rparr> [5] 0]"
proof -
  let ?tx = "transfer_tx\<lparr>tx_Data := Some (sel_approve @ [])\<rparr>"
  have s: "transfer_sender sample_ext ?tx = Done (Inr [0])"
    using sample_sender by (simp add: transfer_sender_def transfer_tx_def)
  have "\<exists>pi'. processEachBlock sample_ext sample_env \<lparr>Transactions = [?tx, fee_tx], NumberU64 = 100\<rparr> sample_pi = Done pi'
    \<and> map snd (RetryInboundReq pi') = map snd (RetryInboundReq sample_pi)
         @ [NewAccountInboundReq [0] [9] \<lparr>Denom = InBoundDenom, Amount = 100\<rparr> [5] 0]
    \<and> processEachBlock sample_ext sample_env
        \<lparr>Transactions = [?tx\<lparr>tx_Data := Some (sel_transfer @ [])\<rparr>, fee_tx], NumberU64 = 100\<rparr> sample_pi = Done pi'"
    by (rule approval_mints [OF sample_ext_ok, where token = "[7]" and pool = "[9]" and unpack = "\<lambda>_. Inr [AbiAddress [9], AbiInt 100]"
          and err = "''invalid data''"])
      (simp_all del: hex_EncodeToString.simps add: s [simplified], simp_all del: hex_EncodeToString.simps add: transfer_tx_def fee_tx_def
        sample_env_def sample_pi_def NewChainInstance_def checkToBridge_def pub_GetPool_def checkErc20_def)
  then show ?thesis by (auto simp: sample_pi_def NewChainInstance_def)
qed

end
