(* ===== verification/Tss_Client.thy ===== *)
theory Tss_Client
  imports Misc_Helper
begin

text \<open>
  \<open>tssclient\<close>: the messages to the threshold-signature service and the two wrappers around
  it. The service (\<open>joltify-finance/tss\<close>) is a parameter: a function from requests to
  responses. A response's status is reduced to whether it is \<open>common.Success\<close>.
\<close>

definition TssVersion :: string where
  "TssVersion = ''0.14.0''"

record TssSignigMsg =
  sm_Pk :: string
  sm_Msgs :: "string list"
  sm_Signers :: "string list"
  sm_BlockHeight :: i64
  sm_Version :: string

record keysign_request =
  ksr_PoolPubKey :: string
  ksr_Messages :: "string list"
  ksr_BlockHeight :: i64
  ksr_Signers :: "string list"
  ksr_Version :: string

record keysign_response =
  Signatures :: "Signature list"
  ks_Success :: bool

record keygen_request =
  kgr_Keys :: "string list"
  kgr_BlockHeight :: i64
  kgr_Version :: string

record keygen_response =
  kg_PubKey :: string
  kg_Success :: bool

type_synonym keysign_service = "keysign_request \<Rightarrow> goerror + keysign_response"
type_synonym keygen_service = "keygen_request \<Rightarrow> goerror + keygen_response"

definition KeySign ::
    "keysign_service \<Rightarrow> string \<Rightarrow> string list \<Rightarrow> i64 \<Rightarrow> string list \<Rightarrow> string
       \<Rightarrow> goerror + keysign_response" where
  "KeySign ts pk msgs blockHeight signers version =
     (let req = \<lparr>ksr_PoolPubKey = pk, ksr_Messages = msgs, ksr_BlockHeight = blockHeight,
                 ksr_Signers = signers, ksr_Version = version\<rparr>
      in case ts req of Inl err \<Rightarrow> Inl err | Inr resp \<Rightarrow> Inr resp)"

definition KeyGen ::
    "keygen_service \<Rightarrow> string list \<Rightarrow> i64 \<Rightarrow> string \<Rightarrow> goerror + keygen_response" where
  "KeyGen ts keys blockHeight version =
     (let req = \<lparr>kgr_Keys = keys, kgr_BlockHeight = blockHeight, kgr_Version = version\<rparr>
      in case ts req of Inl err \<Rightarrow> Inl err | Inr resp \<Rightarrow> Inr resp)"

text \<open>A service that answers every request with the same small signature, for witnesses.\<close>

definition sample_sig :: Signature where
  "sample_sig = \<lparr>sig_R = base64_EncodeToString [7], sig_S = base64_EncodeToString [9],
     sig_RecoveryID = base64_EncodeToString [1]\<rparr>"

definition sample_service :: keysign_service where
  "sample_service = (\<lambda>req. Inr \<lparr>Signatures = [sample_sig], ks_Success = True\<rparr>)"

lemma sample_sig_serialised:
  "SerializeSig sample_ext sample_sig needRecovery =
     Done (Inr (pad32 7 @ pad32 9 @ (if needRecovery then [1] else [])))"
proof -
  have "SerializeSig sample_ext sample_sig needRecovery = Done (Inr
     (pad32 (int (big_SetBytes [7])) @
      pad32 (if S256_N sample_ext div 2 < int (big_SetBytes [9]) then S256_N sample_ext - int (big_SetBytes [9])
             else int (big_SetBytes [9])) @
      (if needRecovery then [word_of_nat (big_SetBytes [1])] else [])))"
    by (rule SerializeSig_value)
      (simp_all add: sample_sig_def base64.dec_enc big_SetBytes_def sample_ext_def)
  then show ?thesis by (simp add: big_SetBytes_def sample_ext_def)
qed

end
