(* ===== verification/Token_Binding.thy ===== *)
theory Token_Binding
  imports Pub_Inbound
begin

text \<open>
  The Go binding of the token contract, \<open>generated/erc20.go\<close>: binding the contract, and the two
  calls the bridge makes, \<open>balanceOf\<close> and \<open>transfer\<close>. The generic wrapper of go-ethereum's \<open>bind\<close>
  package is a parameter, the record \<open>BoundContract\<close>: a constant call answers with the decoded
  return values; a paid one builds the transaction and has it signed by the signer of the
  options; logs are found, watched and unpacked. Unpacking gives the event as far as it was
  filled, and an error if it was not filled in full.
\<close>

section \<open>Logs and events\<close>

record EthLog =
  log_Address :: eth_address
  log_Topics :: "bytes list"
  log_Data :: bytes
  log_BlockNumber :: u64
  log_TxHash :: bytes
  log_Index :: u64

record TokenApproval =
  approval_Owner :: eth_address
  approval_Spender :: eth_address
  approval_Value :: int
  approval_Raw :: EthLog

record TokenMinterAdded =
  minterAdded_Account :: eth_address
  minterAdded_Raw :: EthLog

record TokenMinterRemoved =
  minterRemoved_Account :: eth_address
  minterRemoved_Raw :: EthLog

record TokenPaused =
  paused_Account :: eth_address
  paused_Raw :: EthLog

record TokenPauserAdded =
  pauserAdded_Account :: eth_address
  pauserAdded_Raw :: EthLog

record TokenPauserRemoved =
  pauserRemoved_Account :: eth_address
  pauserRemoved_Raw :: EthLog

record TokenTransfer =
  transfer_From :: eth_address
  transfer_To :: eth_address
  transfer_Value :: int
  transfer_Raw :: EthLog

record TokenUnpaused =
  unpaused_Account :: eth_address
  unpaused_Raw :: EthLog

text \<open>
  What a receive on \<open>Err()\<close> of a subscription gives now: it blocks (\<open>None\<close>), the channel is
  closed (\<open>Some None\<close>), or an error waits.
\<close>

record Subscription =
  sub_Err :: "goerror option option"
  sub_open :: bool

section \<open>Transactions\<close>

record LegacyTx =
  ltx_Nonce :: u64
  ltx_GasPrice :: int
  ltx_Gas :: u64
  ltx_To :: "eth_address option"
  ltx_Data :: bytes
  ltx_Value :: int

record SignedTx =
  stx_raw :: LegacyTx
  stx_sig :: bytes

record TransactOpts =
  opts_From :: eth_address
  opts_Signer :: "eth_address \<Rightarrow> LegacyTx \<Rightarrow> (goerror + SignedTx) exec"
  opts_NoSend :: bool

record CallOpts =
  co_Pending :: bool
  co_From :: eth_address
  co_BlockNumber :: "int option"

text \<open>The empty \<open>bind.CallOpts\<close>.\<close>

definition zero_CallOpts :: CallOpts where
  "zero_CallOpts = \<lparr>co_Pending = False, co_From = replicate 20 0, co_BlockNumber = None\<rparr>"

record FilterOpts =
  fo_Start :: u64
  fo_End :: "u64 option"

record WatchOpts =
  wo_Start :: "u64 option"

record BoundContract =
  bc_Call :: "CallOpts \<Rightarrow> string \<Rightarrow> abi_value list \<Rightarrow> goerror + abi_value list"
  bc_Transact :: "TransactOpts \<Rightarrow> string \<Rightarrow> abi_value list \<Rightarrow> (goerror + SignedTx) exec"
  bc_Transfer :: "TransactOpts \<Rightarrow> (goerror + SignedTx) exec"
  bc_FilterLogs :: "FilterOpts \<Rightarrow> string \<Rightarrow> abi_value list list \<Rightarrow> goerror + (EthLog list \<times> Subscription)"
  bc_WatchLogs :: "WatchOpts \<Rightarrow> string \<Rightarrow> abi_value list list \<Rightarrow> goerror option"
  bc_UnpackApproval :: "string \<Rightarrow> EthLog \<Rightarrow> TokenApproval \<times> goerror option"
  bc_UnpackMinterAdded :: "string \<Rightarrow> EthLog \<Rightarrow> TokenMinterAdded \<times> goerror option"
  bc_UnpackMinterRemoved :: "string \<Rightarrow> EthLog \<Rightarrow> TokenMinterRemoved \<times> goerror option"
  bc_UnpackPaused :: "string \<Rightarrow> EthLog \<Rightarrow> TokenPaused \<times> goerror option"
  bc_UnpackPauserAdded :: "string \<Rightarrow> EthLog \<Rightarrow> TokenPauserAdded \<times> goerror option"
  bc_UnpackPauserRemoved :: "string \<Rightarrow> EthLog \<Rightarrow> TokenPauserRemoved \<times> goerror option"
  bc_UnpackTransfer :: "string \<Rightarrow> EthLog \<Rightarrow> TokenTransfer \<times> goerror option"
  bc_UnpackUnpaused :: "string \<Rightarrow> EthLog \<Rightarrow> TokenUnpaused \<times> goerror option"

section \<open>The token\<close>

record TokenCaller =
  caller_contract :: BoundContract

record TokenTransactor =
  transactor_contract :: BoundContract

record TokenFilterer =
  filterer_contract :: BoundContract

record Token =
  token_Caller :: TokenCaller
  token_Transactor :: TokenTransactor
  token_Filterer :: TokenFilterer

text \<open>
  \<open>parse\<close> is what parsing the generated ABI gives. The three flags say as what the backend is
  handed on: for the others the contract gets \<open>nil\<close>.
\<close>

type_synonym new_contract = "eth_address \<Rightarrow> bool \<Rightarrow> bool \<Rightarrow> bool \<Rightarrow> BoundContract"

definition bindToken :: "goerror option \<Rightarrow> new_contract \<Rightarrow> eth_address \<Rightarrow> bool \<Rightarrow> bool \<Rightarrow> bool \<Rightarrow> goerror + BoundContract" where
  "bindToken parse NewBoundContract address caller transactor filterer =
     (case parse of
        Some err \<Rightarrow> Inl err
      | None \<Rightarrow> Inr (NewBoundContract address caller transactor filterer))"

definition NewToken :: "goerror option \<Rightarrow> new_contract \<Rightarrow> eth_address \<Rightarrow> goerror + Token" where
  "NewToken parse NewBoundContract address =
     (case bindToken parse NewBoundContract address True True True of
        Inl err \<Rightarrow> Inl err
      | Inr c \<Rightarrow> Inr \<lparr>token_Caller = \<lparr>caller_contract = c\<rparr>, token_Transactor = \<lparr>transactor_contract = c\<rparr>,
                       token_Filterer = \<lparr>filterer_contract = c\<rparr>\<rparr>)"

text \<open>An empty answer is an index out of range, a value of another type a failed conversion.\<close>

definition first_out :: "(abi_value \<Rightarrow> 'a option) \<Rightarrow> goerror + abi_value list \<Rightarrow> (goerror + 'a) exec" where
  "first_out ConvertType answer =
     (case answer of
        Inl err \<Rightarrow> Done (Inl err)
      | Inr out \<Rightarrow>
          (case out of
             [] \<Rightarrow> Panic ''index out of range''
           | v # _ \<Rightarrow> exec_bind (or_panic ''abi: cannot convert'' (ConvertType v)) (\<lambda>out0. Done (Inr out0))))"

fun abi_int :: "abi_value \<Rightarrow> int option" where
  "abi_int (AbiInt n) = Some n"
| "abi_int _ = None"

definition token_BalanceOf :: "TokenCaller \<Rightarrow> CallOpts \<Rightarrow> eth_address \<Rightarrow> (goerror + int) exec" where
  "token_BalanceOf t opts account = first_out abi_int (bc_Call (caller_contract t) opts ''balanceOf'' [AbiAddress account])"

definition token_Transfer :: "TokenTransactor \<Rightarrow> TransactOpts \<Rightarrow> eth_address \<Rightarrow> int \<Rightarrow> (goerror + SignedTx) exec" where
  "token_Transfer t opts recipient amount =
     bc_Transact (transactor_contract t) opts ''transfer'' [AbiAddress recipient, AbiInt amount]"

text \<open>
  What is relied on of a bound contract at \<open>token\<close>: a paid call fails with an error of its own
  or hands the call it has built to the signer, together with the sender.
\<close>

definition contract_ok :: "BoundContract \<Rightarrow> eth_address \<Rightarrow> (string \<Rightarrow> abi_value list \<Rightarrow> bytes) \<Rightarrow> bool" where
  "contract_ok c token pack \<longleftrightarrow> (\<forall>opts method args.
        (\<exists>err. err \<noteq> ''already known'' \<and> bc_Transact c opts method args = Done (Inl err))
      \<or> (\<exists>raw. ltx_To raw = Some token \<and> ltx_Value raw = 0 \<and> ltx_Data raw = pack method args
           \<and> bc_Transact c opts method args = opts_Signer opts (opts_From opts) raw))"

definition token_call :: "eth_address \<Rightarrow> (string \<Rightarrow> abi_value list \<Rightarrow> bytes) \<Rightarrow> eth_address \<Rightarrow> int \<Rightarrow> LegacyTx \<Rightarrow> bool" where
  "token_call token pack to amount raw \<longleftrightarrow>
     ltx_To raw = Some token \<and> ltx_Value raw = 0 \<and> ltx_Data raw = pack ''transfer'' [AbiAddress to, AbiInt amount]"

lemma token_Transfer_cases:
  assumes "contract_ok (transactor_contract t) token pack" and "token_Transfer t opts to amount = Done r"
  obtains (failed) m where "m \<noteq> ''already known''" and "r = Inl m"
  | (call) raw where "token_call token pack to amount raw" and "opts_Signer opts (opts_From opts) raw = Done r"
proof -
  let ?args = "[AbiAddress to, AbiInt amount]"
  have run: "bc_Transact (transactor_contract t) opts ''transfer'' ?args = Done r"
    using assms(2) by (simp add: token_Transfer_def)
  from assms(1) have "(\<exists>err. err \<noteq> ''already known'' \<and> Done r = Done (Inl err))
      \<or> (\<exists>raw. ltx_To raw = Some token \<and> ltx_Value raw = 0 \<and> ltx_Data raw = pack ''transfer'' ?args
           \<and> Done r = opts_Signer opts (opts_From opts) raw)"
    unfolding contract_ok_def run [symmetric] by blast
  then show thesis using failed call by (auto simp: token_call_def)
qed

end
