(* ===== verification/Pub_Send.thy ===== *)
theory Pub_Send
  imports Tss_Client Token_Binding Pub_Inbound_Correct
begin

text \<open>
  \<open>pubchain/tx_send.go\<close> and the fund moving of \<open>pubchain/tx_inbound.go\<close>: how the bridge
  signs with the pool key and what it broadcasts on the public chain. The node, the
  transaction encoding and the token contract's binding are parameters (\<open>send_env\<close>); every
  transaction handed to \<open>SendTransaction\<close> is appended to an explicit list \<open>sent\<close>, so the
  theorems can say what left the bridge.
\<close>

section \<open>The node\<close>

text \<open>\<open>NetworkID\<close> may answer with a nil id. \<open>TokenInstance\<close> is the bound token.\<close>

record send_env =
  NetworkID :: "goerror + nat option"
  SuggestGasPrice :: "goerror + int"
  EstimateGas :: "eth_address \<Rightarrow> goerror + u64"
  NonceAt :: "eth_address \<Rightarrow> goerror + u64"
  TokenInstance :: Token
  BalanceAt :: "eth_address \<Rightarrow> goerror + int"
  SignerHash :: "nat option \<Rightarrow> LegacyTx \<Rightarrow> bytes"
  WithSignature :: "nat option \<Rightarrow> LegacyTx \<Rightarrow> bytes \<Rightarrow> goerror + SignedTx"
  RawTxHash :: "LegacyTx \<Rightarrow> bytes"
  SignedTxHash :: "SignedTx \<Rightarrow> bytes"
  SendTransaction :: "SignedTx \<Rightarrow> goerror option"
  DecFromBigInt18 :: "int \<Rightarrow> int"
  tss_sign :: keysign_service

definition zero_hash :: bytes where
  "zero_hash = replicate 32 0"

section \<open>Signing\<close>

text \<open>
  A response that is not a success gives \<open>(nil, err)\<close> with a nil \<open>err\<close>: no error and an
  empty signature.
\<close>

definition tssSign :: "ext \<Rightarrow> send_env \<Rightarrow> bytes \<Rightarrow> string \<Rightarrow> i64 \<Rightarrow> (goerror + bytes) exec" where
  "tssSign e env msg pk blockHeight =
     (let encodedMsg = base64_EncodeToString msg
      in case KeySign (tss_sign env) pk [encodedMsg] blockHeight [] ''0.15.0'' of
           Inl err \<Rightarrow> Done (Inl err)
         | Inr resp \<Rightarrow>
             if \<not> ks_Success resp then Done (Inr [])
             else if length (Signatures resp) \<noteq> 1 then Done (Inl ''more than 1 signature received'')
             else exec_bind (SerializeSig e (hd (Signatures resp)) True) (\<lambda>r.
                  case r of Inl err \<Rightarrow> Done (Inl err) | Inr signature \<Rightarrow> Done (Inr signature)))"

definition composeTx ::
    "ext \<Rightarrow> send_env \<Rightarrow> string \<Rightarrow> eth_address \<Rightarrow> nat option \<Rightarrow> i64 \<Rightarrow> goerror + TransactOpts" where
  "composeTx e env signerPk sender chainID blockHeight =
     (case chainID of
        None \<Rightarrow> Inl ''no chain id specified''
      | Some _ \<Rightarrow> Inr
          \<lparr>opts_From = sender,
           opts_Signer = (\<lambda>address tx.
             if address \<noteq> sender then Done (Inl ''the address is different from the sender'')
             else exec_bind (tssSign e env (SignerHash env chainID tx) signerPk blockHeight) (\<lambda>r.
                  case r of
                    Inl _ \<Rightarrow> Done (Inl ''fail to sign the tx'')
                  | Inr signature \<Rightarrow>
                      if length signature \<noteq> 65 then Done (Inl ''fail to sign the tx'')
                      else Done (WithSignature env chainID tx signature))),
           opts_NoSend = False\<rparr>)"

section \<open>Token transfers\<close>

text \<open>The result is Go's pair of a hash and an error; \<open>sent\<close> is what was broadcast so far.\<close>

definition SendToken ::
    "ext \<Rightarrow> send_env \<Rightarrow> PubChainInstance \<Rightarrow> string \<Rightarrow> eth_address \<Rightarrow> eth_address \<Rightarrow> int \<Rightarrow> i64
       \<Rightarrow> SignedTx list \<Rightarrow> ((bytes \<times> goerror option) \<times> SignedTx list) exec" where
  "SendToken e env pi signerPk sender receiver amount blockHeight sent =
     (case NetworkID env of
        Inl err \<Rightarrow> Done ((zero_hash, Some err), sent)
      | Inr chainID \<Rightarrow>
          exec_bind (if signerPk = []
                     then exec_bind (or_panic ''nil pointer dereference'' (pub_GetPool pi ! 1)) (\<lambda>lastPool. Done (Pk lastPool))
                     else Done signerPk) (\<lambda>pk.
          case composeTx e env pk sender chainID blockHeight of
            Inl err \<Rightarrow> Done ((zero_hash, Some err), sent)
          | Inr txo \<Rightarrow>
              exec_bind (token_Transfer (token_Transactor (TokenInstance env)) (txo\<lparr>opts_NoSend := True\<rparr>) receiver amount) (\<lambda>r.
              case r of
                Inl err \<Rightarrow> Done ((zero_hash, Some err), sent)
              | Inr readyTx \<Rightarrow>
                  Done ((SignedTxHash env readyTx, SendTransaction env readyTx), sent @ [readyTx]))))"

definition ProcessOutBound ::
    "ext \<Rightarrow> send_env \<Rightarrow> PubChainInstance \<Rightarrow> eth_address \<Rightarrow> eth_address \<Rightarrow> int \<Rightarrow> i64
       \<Rightarrow> SignedTx list \<Rightarrow> ((goerror + string) \<times> SignedTx list) exec" where
  "ProcessOutBound e env pi toAddr fromAddr amount blockHeight sent =
     exec_bind (SendToken e env pi [] fromAddr toAddr amount blockHeight sent) (\<lambda>((txHash, err), sent').
       case err of
         Some m \<Rightarrow>
           if m = ''already known'' then Done (Inr (HashHex e txHash), sent') else Done (Inl m, sent')
       | None \<Rightarrow> Done (Inr (HashHex e txHash), sent'))"

definition moveERC20Token ::
    "ext \<Rightarrow> send_env \<Rightarrow> PubChainInstance \<Rightarrow> string \<Rightarrow> eth_address \<Rightarrow> eth_address \<Rightarrow> int \<Rightarrow> i64
       \<Rightarrow> SignedTx list \<Rightarrow> ((goerror + string) \<times> SignedTx list) exec" where
  "moveERC20Token e env pi senderPk sender receiver balance blockheight sent =
     exec_bind (SendToken e env pi senderPk sender receiver balance blockheight sent) (\<lambda>((txHash, err), sent').
       case err of
         Some m \<Rightarrow>
           if m = ''already known'' then Done (Inr (HashHex e txHash), sent') else Done (Inl m, sent')
       | None \<Rightarrow> Done (Inr (HashHex e txHash), sent'))"

section \<open>Moving the funds of a retired pool\<close>

definition moveBnb ::
    "ext \<Rightarrow> send_env \<Rightarrow> string \<Rightarrow> eth_address \<Rightarrow> int \<Rightarrow> u64 \<Rightarrow> i64
       \<Rightarrow> SignedTx list \<Rightarrow> ((goerror + string) \<times> SignedTx list) exec" where
  "moveBnb e env senderPk receiver amount nonce blockHeight sent =
     (case NetworkID env of Inl err \<Rightarrow> Done (Inl err, sent) | Inr chainID \<Rightarrow>
     (case SuggestGasPrice env of Inl err \<Rightarrow> Done (Inl err, sent) | Inr gasPrice \<Rightarrow>
     (case EstimateGas env receiver of Inl err \<Rightarrow> Done (Inl err, sent) | Inr gasLimit \<Rightarrow>
     (let totalBnb = gasPrice * uint gasLimit in
      case NewDecFromStr e GASFEERATIO of Inl _ \<Rightarrow> Panic ''invalid decimal'' | Inr ratio \<Rightarrow>
      exec_bind (or_panic ''Int overflow'' (DecMul e (DecFromBigInt18 env totalBnb) ratio)) (\<lambda>totalBnbDec.
      let moveFund = amount - totalBnbDec in
      case NewDecFromStr e DUSTBNB of Inl _ \<Rightarrow> Panic ''invalid parameter'' | Inr dustBnb \<Rightarrow>
      if \<not> dustBnb < moveFund then Done (Inr [], sent)
      else
        let rawTx = \<lparr>ltx_Nonce = nonce, ltx_GasPrice = gasPrice, ltx_Gas = gasLimit,
                     ltx_To = Some receiver, ltx_Data = [], ltx_Value = moveFund\<rparr>
        in exec_bind (tssSign e env (SignerHash env chainID rawTx) senderPk blockHeight) (\<lambda>r.
           case r of
             Inl _ \<Rightarrow> Done (Inl ''fail to get the valid signature'', sent)
           | Inr signature \<Rightarrow>
               if length signature \<noteq> 65 then Done (Inl ''fail to get the valid signature'', sent)
               else case WithSignature env chainID rawTx signature of
                 Inl err \<Rightarrow> Done (Inl err, sent)
               | Inr bTx \<Rightarrow>
                   (case SendTransaction env bTx of
                      Some err \<Rightarrow>
                        if err = ''already known'' \<or> err = ''replacement transaction underpriced''
                        then Done (Inr (HashHex e (RawTxHash env rawTx)), sent @ [bTx])
                        else Done (Inl err, sent @ [bTx])
                    | None \<Rightarrow> Done (Inr (HashHex e (RawTxHash env rawTx)), sent @ [bTx]))))))))"

definition pub_MoveFunds ::
    "ext \<Rightarrow> send_env \<Rightarrow> PubChainInstance \<Rightarrow> PoolInfo \<Rightarrow> eth_address \<Rightarrow> i64
       \<Rightarrow> SignedTx list \<Rightarrow> ((bool \<times> goerror option) \<times> SignedTx list) exec" where
  "pub_MoveFunds e env pi previousPool receiver blockHeight sent =
     exec_bind (token_BalanceOf (token_Caller (TokenInstance env)) zero_CallOpts (EthAddress previousPool)) (\<lambda>r.
     case r of Inl err \<Rightarrow> Done ((False, Some err), sent) | Inr balance \<Rightarrow>
     (case BalanceAt env (EthAddress previousPool) of Inl err \<Rightarrow> Done ((False, Some err), sent) | Inr balanceBnB \<Rightarrow>
     (case NewDecFromStr e DUSTBNB of Inl _ \<Rightarrow> Panic ''invalid parameter'' | Inr dustBnb \<Rightarrow>
      if balance = 0 \<and> \<not> dustBnb < balanceBnB then Done ((True, None), sent)
      else if 0 < balance then
        exec_bind (moveERC20Token e env pi (Pk previousPool) (EthAddress previousPool) receiver balance blockHeight sent)
          (\<lambda>(r, sent'). case r of
              Inl _ \<Rightarrow> Done ((False, Some ''fail to transfer erc20 token''), sent')
            | Inr _ \<Rightarrow> Done ((False, None), sent'))
      else if 0 < balanceBnB then
        (case NonceAt env (EthAddress previousPool) of
           Inl err \<Rightarrow> Done ((False, Some err), sent)
         | Inr nonce \<Rightarrow>
             exec_bind (moveBnb e env (Pk previousPool) receiver balanceBnB nonce blockHeight sent)
               (\<lambda>(r, sent'). case r of
                   Inl err \<Rightarrow> Done ((False, Some err), sent')
                 | Inr _ \<Rightarrow> Done ((False, None), sent')))
      else Done ((False, None), sent))))"

section \<open>What the code relies on\<close>

text \<open>
  The token is bound to a contract that builds the calls (\<open>contract_ok\<close>); signing a
  transaction keeps it and attaches the signature; no step before the broadcast fails with
  the node's \<open>already known\<close>; a scaled decimal times 1.5 is not smaller than itself.
\<close>

definition binding_ok :: "send_env \<Rightarrow> eth_address \<Rightarrow> (string \<Rightarrow> abi_value list \<Rightarrow> bytes) \<Rightarrow> bool" where
  "binding_ok env token pack \<longleftrightarrow>
     contract_ok (transactor_contract (token_Transactor (TokenInstance env))) token pack
     \<and> (\<forall>c raw sg tx. WithSignature env c raw sg = Inr tx \<longrightarrow> stx_raw tx = raw \<and> stx_sig tx = sg)
     \<and> (\<forall>c raw sg err. WithSignature env c raw sg = Inl err \<longrightarrow> err \<noteq> ''already known'')
     \<and> (\<forall>err. NetworkID env = Inl err \<longrightarrow> err \<noteq> ''already known'')"

definition gas_ok :: "ext \<Rightarrow> send_env \<Rightarrow> bool" where
  "gas_ok e env \<longleftrightarrow> (\<forall>n. DecFromBigInt18 env n = n)
     \<and> (\<forall>a r. 0 \<le> a \<longrightarrow> DecMul e a (15 * 10 ^ 17) = Some r \<longrightarrow> a \<le> r)
     \<and> (\<forall>p. SuggestGasPrice env = Inr p \<longrightarrow> 0 \<le> p)"

text \<open>The signature of tx is the service's answer for this pool key.\<close>

definition signed_by :: "ext \<Rightarrow> send_env \<Rightarrow> string \<Rightarrow> i64 \<Rightarrow> SignedTx \<Rightarrow> bool" where
  "signed_by e env pk h tx \<longleftrightarrow> length (stx_sig tx) = 65
     \<and> (\<exists>c. tssSign e env (SignerHash env c (stx_raw tx)) pk h = Done (Inr (stx_sig tx)))"

lemma binding_okD:
  assumes "binding_ok env token pack"
  shows "WithSignature env c raw sg = Inr tx \<Longrightarrow> stx_raw tx = raw \<and> stx_sig tx = sg"
    and "WithSignature env c raw sg = Inl err \<Longrightarrow> err \<noteq> ''already known''"
    and "NetworkID env = Inl err \<Longrightarrow> err \<noteq> ''already known''"
    and "contract_ok (transactor_contract (token_Transactor (TokenInstance env))) token pack"
  using assms unfolding binding_ok_def by blast+

lemma composeTx_signer:
  assumes "binding_ok env token pack" and "composeTx e env pk sender (Some c) h = Inr txo"
    and "opts_Signer txo (opts_From txo) raw = Done r"
  shows "case r of Inl err \<Rightarrow> err \<noteq> ''already known'' | Inr tx \<Rightarrow> stx_raw tx = raw \<and> signed_by e env pk h tx"
proof -
  have "exec_bind (tssSign e env (SignerHash env (Some c) raw) pk h) (\<lambda>r.
      case r of Inl _ \<Rightarrow> Done (Inl ''fail to sign the tx'')
      | Inr signature \<Rightarrow> if length signature \<noteq> 65 then Done (Inl ''fail to sign the tx'')
          else Done (WithSignature env (Some c) raw signature)) = Done r"
    using assms(2,3) by (auto simp: composeTx_def)
  then obtain s where s: "tssSign e env (SignerHash env (Some c) raw) pk h = Done s"
    and r: "(case s of Inl _ \<Rightarrow> Done (Inl ''fail to sign the tx'')
      | Inr signature \<Rightarrow> if length signature \<noteq> 65 then Done (Inl ''fail to sign the tx'')
          else Done (WithSignature env (Some c) raw signature)) = Done r"
    by (auto simp: exec_bind_eq_Done_iff)
  show ?thesis
  proof (cases s)
    case (Inl a)
    then show ?thesis using r by auto
  next
    case (Inr sg)
    show ?thesis
    proof (cases "length sg = 65")
      case False
      then show ?thesis using r Inr by auto
    next
      case True
      then have w: "WithSignature env (Some c) raw sg = r" using r Inr by simp
      show ?thesis
      proof (cases r)
        case (Inl err)
        then show ?thesis using binding_okD(2) [OF assms(1)] w by auto
      next
        case (Inr tx)
        then have "stx_raw tx = raw" "stx_sig tx = sg" using binding_okD(1) [OF assms(1)] w by auto
        then show ?thesis using Inr s \<open>s = Inr sg\<close> True by (auto simp: signed_by_def)
      qed
    qed
  qed
qed

text \<open>What \<open>SendToken\<close> does with a key: nothing is sent, or one call signed by that key.\<close>

lemma SendToken_cases:
  assumes "binding_ok env token pack" and "pk \<noteq> []"
    and run: "SendToken e env pi pk sender receiver amount h sent = Done ((hash, err), sent')"
  obtains (nothing) m where "sent' = sent" and "err = Some m" and "m \<noteq> ''already known''"
  | (one) tx where "sent' = sent @ [tx]" and "token_call token pack receiver amount (stx_raw tx)"
      and "signed_by e env pk h tx" and "hash = SignedTxHash env tx" and "err = SendTransaction env tx"
proof (cases "NetworkID env")
  case (Inl m)
  show thesis
    by (rule nothing [of m]) (use run Inl binding_okD(3) [OF assms(1) Inl] in \<open>simp_all add: SendToken_def\<close>)
next
  case net: (Inr chainID)
  show thesis
  proof (cases chainID)
    case None
    with net run assms(2) have "sent' = sent" "err = Some ''no chain id specified''"
      by (simp_all add: SendToken_def composeTx_def)
    then show thesis by (rule nothing) simp
  next
    case (Some c)
    then obtain txo where txo: "composeTx e env pk sender (Some c) h = Inr txo" by (simp add: composeTx_def)
    let ?o = "txo\<lparr>opts_NoSend := True\<rparr>"
    have o: "opts_Signer ?o = opts_Signer txo" "opts_From ?o = opts_From txo" by simp_all
    from run net Some assms(2) txo obtain r where t: "token_Transfer (token_Transactor (TokenInstance env)) ?o receiver amount = Done r"
      and r: "(case r of Inl err \<Rightarrow> Done ((zero_hash, Some err), sent)
        | Inr tx \<Rightarrow> Done ((SignedTxHash env tx, SendTransaction env tx), sent @ [tx])) = Done ((hash, err), sent')"
      by (auto simp: SendToken_def exec_bind_eq_Done_iff)
    from binding_okD(4) [OF assms(1)] t show thesis
    proof (cases rule: token_Transfer_cases)
      case (failed m)
      then have "sent' = sent" "err = Some m" using r by auto
      then show thesis using failed(1) by (rule nothing)
    next
      case call
      note signer = composeTx_signer [OF assms(1) txo call(2) [unfolded o]]
      show thesis
      proof (cases r)
        case (Inl m)
        then have "sent' = sent" "err = Some m" "m \<noteq> ''already known''" using r signer by auto
        then show thesis by (rule nothing)
      next
        case (Inr tx)
        then show thesis using one call r signer by auto
      qed
    qed
  qed
qed

lemma moveBnb_cases:
  assumes "sdk_ok M e" and "binding_ok env token pack" and "gas_ok e env"
    and run: "moveBnb e env pk receiver amount nonce h sent = Done (r, sent')"
  obtains (nothing) "sent' = sent"
  | (one) tx where "sent' = sent @ [tx]" and "signed_by e env pk h tx" and "ltx_To (stx_raw tx) = Some receiver"
      and "ltx_Data (stx_raw tx) = []" and "10 ^ 14 < ltx_Value (stx_raw tx)"
      and "ltx_Value (stx_raw tx) + ltx_GasPrice (stx_raw tx) * uint (ltx_Gas (stx_raw tx)) \<le> amount"
proof (cases "NetworkID env")
  case (Inl m)
  with run have "sent' = sent" by (simp add: moveBnb_def)
  then show thesis by (rule nothing)
next
  case net: (Inr chain)
  show thesis
  proof (cases "SuggestGasPrice env")
    case (Inl m)
    with net run have "sent' = sent" by (simp add: moveBnb_def)
    then show thesis by (rule nothing)
  next
    case price: (Inr gasPrice)
    show thesis
    proof (cases "EstimateGas env receiver")
      case (Inl m)
      with net price run have "sent' = sent" by (simp add: moveBnb_def)
      then show thesis by (rule nothing)
    next
      case gas: (Inr gasLimit)
      let ?total = "gasPrice * uint gasLimit"
      let ?raw = "\<lambda>t. \<lparr>ltx_Nonce = nonce, ltx_GasPrice = gasPrice, ltx_Gas = gasLimit,
                     ltx_To = Some receiver, ltx_Data = [], ltx_Value = amount - t\<rparr>"
      from run net price gas assms(1,3) obtain t where mul: "DecMul e ?total (15 * 10 ^ 17) = Some t"
        by (auto simp: moveBnb_def sdk_ok_min gas_ok_def exec_bind_eq_Done_iff)
      have le: "?total \<le> t"
        using assms(3) mul price by (auto simp: gas_ok_def)
      show thesis
      proof (cases "10 ^ 14 < amount - t")
        case False
        with net price gas run assms(1,3) mul have "sent' = sent" by (simp add: moveBnb_def sdk_ok_min gas_ok_def)
    then show thesis by (rule nothing)
      next
        case True
        let ?k = "\<lambda>s. case s of Inl _ \<Rightarrow> Done (Inl ''fail to get the valid signature'', sent)
           | Inr signature \<Rightarrow>
               if length signature \<noteq> 65 then Done (Inl ''fail to get the valid signature'', sent)
               else case WithSignature env chain (?raw t) signature of
                 Inl err \<Rightarrow> Done (Inl err, sent)
               | Inr bTx \<Rightarrow>
                   (case SendTransaction env bTx of
                      Some err \<Rightarrow>
                        if err = ''already known'' \<or> err = ''replacement transaction underpriced''
                        then Done (Inr (HashHex e (RawTxHash env (?raw t))), sent @ [bTx])
                        else Done (Inl err, sent @ [bTx])
                    | None \<Rightarrow> Done (Inr (HashHex e (RawTxHash env (?raw t))), sent @ [bTx]))"
        have "exec_bind (tssSign e env (SignerHash env chain (?raw t)) pk h) ?k = Done (r, sent')"
          using run net price gas assms(1,3) mul True by (simp add: moveBnb_def sdk_ok_min gas_ok_def Let_def)
        then obtain s where s: "tssSign e env (SignerHash env chain (?raw t)) pk h = Done s" and rest: "?k s = Done (r, sent')"
          unfolding exec_bind_eq_Done_iff by blast
        show thesis
        proof (cases "\<exists>sg tx. s = Inr sg \<and> length sg = 65 \<and> WithSignature env chain (?raw t) sg = Inr tx")
          case False
          then have "sent' = sent" using rest by (auto split: sum.splits if_splits)
          then show thesis by (rule nothing)
        next
          case True
          then obtain sg tx where sg: "s = Inr sg" "length sg = 65" "WithSignature env chain (?raw t) sg = Inr tx" by blast
          have tx: "stx_raw tx = ?raw t" "stx_sig tx = sg" using binding_okD(1) [OF assms(2) sg(3)] by auto
          have "sent' = sent @ [tx]" using rest sg by (auto split: option.splits if_splits)
          moreover have "signed_by e env pk h tx" using tx s sg by (auto simp: signed_by_def)
          ultimately show thesis using one tx le \<open>10 ^ 14 < amount - t\<close> by simp
        qed
      qed
    qed
  qed
qed

lemma moveERC20Token_cases:
  assumes "binding_ok env token pack" and "pk \<noteq> []"
    and "moveERC20Token e env pi pk sender receiver amount h sent = Done (r, sent')"
  obtains (nothing) "sent' = sent"
  | (one) tx where "sent' = sent @ [tx]" and "token_call token pack receiver amount (stx_raw tx)"
      and "signed_by e env pk h tx"
proof -
  obtain hash er where "SendToken e env pi pk sender receiver amount h sent = Done ((hash, er), sent')"
    using assms(3) by (auto simp: moveERC20Token_def exec_bind_eq_Done_iff split: option.splits if_splits)
  from assms(1,2) this show thesis
  proof (cases rule: SendToken_cases)
    case (nothing m)
    then show thesis using that(1) by simp
  next
    case (one tx)
    then show thesis using that(2) by simp
  qed
qed

lemma pub_MoveFunds_cases:
  assumes "sdk_ok M e"
    and run: "pub_MoveFunds e env pi pool receiver h sent = Done ((isempty, err), sent')"
  obtains (failed) m where "\<not> isempty" and "sent' = sent" and "err = Some m"
  | (clear) bnb where "isempty" and "sent' = sent" and "err = None" and "token_BalanceOf (token_Caller (TokenInstance env)) zero_CallOpts (EthAddress pool) = Done (Inr 0)"
      and "BalanceAt env (EthAddress pool) = Inr bnb" and "bnb \<le> 10 ^ 14"
  | (token) bal r where "token_BalanceOf (token_Caller (TokenInstance env)) zero_CallOpts (EthAddress pool) = Done (Inr bal)" and "0 < bal"
      and "moveERC20Token e env pi (Pk pool) (EthAddress pool) receiver bal h sent = Done (r, sent')" and "\<not> isempty"
  | (coin) bal bnb nonce r where "token_BalanceOf (token_Caller (TokenInstance env)) zero_CallOpts (EthAddress pool) = Done (Inr bal)" and "\<not> 0 < bal"
      and "BalanceAt env (EthAddress pool) = Inr bnb" and "bal = 0 \<longrightarrow> 10 ^ 14 < bnb"
      and "moveBnb e env (Pk pool) receiver bnb nonce h sent = Done (r, sent')" and "\<not> isempty"
  | (debt) bal where "token_BalanceOf (token_Caller (TokenInstance env)) zero_CallOpts (EthAddress pool) = Done (Inr bal)" and "bal < 0" and "\<not> isempty" and "sent' = sent"
proof (cases "token_BalanceOf (token_Caller (TokenInstance env)) zero_CallOpts (EthAddress pool)")
  case balance: (Done rb)
  show thesis
  proof (cases rb)
    case (Inl m)
    then show thesis using failed [of m] run balance by (simp add: pub_MoveFunds_def)
  next
    case (Inr bal)
    with balance have tok: "token_BalanceOf (token_Caller (TokenInstance env)) zero_CallOpts (EthAddress pool) = Done (Inr bal)" by simp
    show thesis
    proof (cases "BalanceAt env (EthAddress pool)")
      case (Inl m)
      then show thesis using failed [of m] tok run by (simp add: pub_MoveFunds_def)
    next
      case bnb: (Inr bnb)
      note run = run [unfolded pub_MoveFunds_def tok bnb sdk_ok_min(3) [OF assms(1)] exec_bind.simps sum.case]
      consider "bal = 0 \<and> bnb \<le> 10 ^ 14" | "0 < bal" | "bal < 0" "\<not> 0 < bnb" | "\<not> 0 < bal" "\<not> (bal = 0 \<and> bnb \<le> 10 ^ 14)" "0 < bnb"
      proof -
        have "bal < 0 \<or> bal = 0 \<or> 0 < bal" by linarith
        moreover have "bnb \<le> 10 ^ 14 \<or> 0 < bnb" by (cases "bnb \<le> 10 ^ 14") auto
        ultimately show thesis using that by fastforce
      qed
      then show thesis
      proof cases
        case 1
        then show thesis using clear run tok bnb by simp
      next
        case 2
        then obtain r where m: "moveERC20Token e env pi (Pk pool) (EthAddress pool) receiver bal h sent = Done (r, sent')"
          and "\<not> isempty"
          using run by (cases "moveERC20Token e env pi (Pk pool) (EthAddress pool) receiver bal h sent")
            (auto split: sum.splits)
        then show thesis using token tok 2 by blast
      next
        case 3
        then show thesis using debt run tok by simp
      next
        case 4
        then have run': "(case NonceAt env (EthAddress pool) of
             Inl err \<Rightarrow> Done ((False, Some err), sent)
           | Inr nonce \<Rightarrow>
               exec_bind (moveBnb e env (Pk pool) receiver bnb nonce h sent)
                 (\<lambda>(r, sent'). case r of
                     Inl err \<Rightarrow> Done ((False, Some err), sent')
                   | Inr _ \<Rightarrow> Done ((False, None), sent'))) = Done ((isempty, err), sent')"
          using run by (auto split: if_splits)
        show thesis
        proof (cases "NonceAt env (EthAddress pool)")
          case (Inl m)
          then show thesis using failed [of m] run' by simp
        next
          case (Inr nonce)
          then obtain r where "moveBnb e env (Pk pool) receiver bnb nonce h sent = Done (r, sent')" and "\<not> isempty"
            using run' by (cases "moveBnb e env (Pk pool) receiver bnb nonce h sent") (auto split: sum.splits)
          then show thesis using coin tok bnb 4 by auto
        qed
      qed
    qed
  qed
qed (use run in \<open>simp_all add: pub_MoveFunds_def\<close>)

section \<open>Properties\<close>

text \<open>
  C13: moving the funds of a retired pool. One call broadcasts at most one transaction, signed
  with that pool's key. With a token balance it is the transfer of the whole balance to the
  receiver; without one it is plain BNB for the receiver, worth more than the dust limit
  and, with the gas it can burn, at most the balance. The pool is reported empty only when
  nothing was sent, it has no tokens and its BNB is at most dust.
\<close>

theorem pub_MoveFunds_safe:
  assumes "sdk_ok M e" and "binding_ok env token pack" and "gas_ok e env" and "Pk pool \<noteq> []"
    and "pub_MoveFunds e env pi pool receiver h sent = Done ((isempty, err), sent')"
  shows "(\<exists>txs. sent' = sent @ txs \<and> length txs \<le> 1
      \<and> (\<forall>tx \<in> set txs. signed_by e env (Pk pool) h tx
           \<and> (\<exists>bal. token_BalanceOf (token_Caller (TokenInstance env)) zero_CallOpts (EthAddress pool) = Done (Inr bal)
                \<and> (if 0 < bal then token_call token pack receiver bal (stx_raw tx)
                   else \<exists>bnb. BalanceAt env (EthAddress pool) = Inr bnb
                     \<and> ltx_To (stx_raw tx) = Some receiver \<and> ltx_Data (stx_raw tx) = []
                     \<and> 10 ^ 14 < ltx_Value (stx_raw tx)
                     \<and> ltx_Value (stx_raw tx) + ltx_GasPrice (stx_raw tx) * uint (ltx_Gas (stx_raw tx)) \<le> bnb))))
    \<and> (isempty \<longleftrightarrow> sent' = sent \<and> err = None \<and> token_BalanceOf (token_Caller (TokenInstance env)) zero_CallOpts (EthAddress pool) = Done (Inr 0)
          \<and> (\<exists>bnb \<le> 10 ^ 14. BalanceAt env (EthAddress pool) = Inr bnb))"
  using assms(1,5)
proof (cases rule: pub_MoveFunds_cases)
  case (token bal r)
  from assms(2,4) token(3) show ?thesis
    by (cases rule: moveERC20Token_cases) (use token in auto)
next
  case (coin bal bnb nonce r)
  from assms(1-3) coin(5) show ?thesis
    by (cases rule: moveBnb_cases) (use coin in auto)
qed auto

text \<open>
  C35: funds just above the dust limit are stuck. When the node answers, a pool without tokens
  whose BNB exceeds the dust limit, but no longer does after the gas is taken off, is never
  reported empty and nothing is ever sent for it: the event loop files it again for ever.
\<close>

theorem pub_MoveFunds_dust_stuck:
  assumes "sdk_ok M e" and "token_BalanceOf (token_Caller (TokenInstance env)) zero_CallOpts (EthAddress pool) = Done (Inr 0)"
    and "BalanceAt env (EthAddress pool) = Inr bnb" and "10 ^ 14 < bnb"
    and "NonceAt env (EthAddress pool) = Inr nonce" and "NetworkID env = Inr chain"
    and "SuggestGasPrice env = Inr price" and "EstimateGas env receiver = Inr gas"
    and "DecMul e (DecFromBigInt18 env (price * uint gas)) (15 * 10 ^ 17) = Some fee" and "bnb - fee \<le> 10 ^ 14"
  shows "pub_MoveFunds e env pi pool receiver h sent = Done ((False, None), sent)"
proof -
  have "moveBnb e env (Pk pool) receiver bnb nonce h sent = Done (Inr [], sent)"
    using assms by (simp add: moveBnb_def sdk_ok_min Let_def)
  moreover have "0 < bnb" using assms(4) by simp
  ultimately show ?thesis
    using assms by (simp add: pub_MoveFunds_def sdk_ok_min)
qed

text \<open>
  C11: an outbound payment broadcasts at most one transaction, the token transfer of the
  amount to the receiver, signed with the key of the latest pool, whatever sender address
  the request carries. It is reported done only when it was broadcast and the node took
  it or already knew it; every earlier failure is reported as an error and sends nothing.
\<close>

theorem ProcessOutBound_sends_once:
  assumes "binding_ok env token pack" and "snd (pub_lastTwoPools pi) = Some pool" and "Pk pool \<noteq> []"
    and "ProcessOutBound e env pi toAddr fromAddr amount h sent = Done (r, sent')"
  shows "(sent' = sent \<and> (\<exists>err. r = Inl err))
    \<or> (\<exists>tx. sent' = sent @ [tx] \<and> token_call token pack toAddr amount (stx_raw tx)
         \<and> signed_by e env (Pk pool) h tx
         \<and> r = (case SendTransaction env tx of
                  None \<Rightarrow> Inr (HashHex e (SignedTxHash env tx))
                | Some err \<Rightarrow> if err = ''already known'' then Inr (HashHex e (SignedTxHash env tx)) else Inl err))"
proof -
  have key: "SendToken e env pi [] fromAddr toAddr amount h sent = SendToken e env pi (Pk pool) fromAddr toAddr amount h sent"
    using assms(2,3) by (auto simp: SendToken_def pub_GetPool_def split: sum.splits)
  from assms(4) obtain hash err where st: "SendToken e env pi (Pk pool) fromAddr toAddr amount h sent = Done ((hash, err), sent')"
    and r: "r = (case err of Some m \<Rightarrow> if m = ''already known'' then Inr (HashHex e hash) else Inl m
                 | None \<Rightarrow> Inr (HashHex e hash))"
    unfolding ProcessOutBound_def key by (auto simp: exec_bind_eq_Done_iff split: option.splits if_splits)
  from assms(1,3) st show ?thesis
    by (cases rule: SendToken_cases) (auto simp: r split: option.splits)
qed

section \<open>A node for the witnesses\<close>

definition sample_pack :: "string \<Rightarrow> abi_value list \<Rightarrow> bytes" where
  "sample_pack method args = map of_char method
     @ concat (map (\<lambda>v. case v of AbiAddress a \<Rightarrow> a | AbiInt n \<Rightarrow> [word_of_int n] | _ \<Rightarrow> []) args)"

definition sample_contract :: "eth_address \<Rightarrow> BoundContract" where
  "sample_contract address = \<lparr>bc_Call = (\<lambda>_ _ _. Inr [AbiInt 0]),
     bc_Transact = (\<lambda>opts method args. opts_Signer opts (opts_From opts)
       \<lparr>ltx_Nonce = 0, ltx_GasPrice = 10 ^ 9, ltx_Gas = 60000, ltx_To = Some address,
        ltx_Data = sample_pack method args, ltx_Value = 0\<rparr>),
     bc_Transfer = (\<lambda>_. Done (Inl ''no fallback'')), bc_FilterLogs = (\<lambda>_ _ _. Inr ([], \<lparr>sub_Err = Some None, sub_open = True\<rparr>)),
     bc_WatchLogs = (\<lambda>_ _ _. None),
     bc_UnpackApproval = (\<lambda>_ l. (\<lparr>approval_Owner = [1], approval_Spender = [2], approval_Value = 0, approval_Raw = l\<rparr>, None)),
     bc_UnpackMinterAdded = (\<lambda>_ l. (\<lparr>minterAdded_Account = [1], minterAdded_Raw = l\<rparr>, None)),
     bc_UnpackMinterRemoved = (\<lambda>_ l. (\<lparr>minterRemoved_Account = [1], minterRemoved_Raw = l\<rparr>, None)),
     bc_UnpackPaused = (\<lambda>_ l. (\<lparr>paused_Account = [1], paused_Raw = l\<rparr>, None)),
     bc_UnpackPauserAdded = (\<lambda>_ l. (\<lparr>pauserAdded_Account = [1], pauserAdded_Raw = l\<rparr>, None)),
     bc_UnpackPauserRemoved = (\<lambda>_ l. (\<lparr>pauserRemoved_Account = [1], pauserRemoved_Raw = l\<rparr>, None)),
     bc_UnpackTransfer = (\<lambda>_ l. (\<lparr>transfer_From = [1], transfer_To = [2], transfer_Value = int (length (log_Data l)), transfer_Raw = l\<rparr>,
       if log_Topics l = [] then Some ''no event signature'' else None)),
     bc_UnpackUnpaused = (\<lambda>_ l. (\<lparr>unpaused_Account = [1], unpaused_Raw = l\<rparr>, None))\<rparr>"

definition sample_token :: Token where
  "sample_token = \<lparr>token_Caller = \<lparr>caller_contract = sample_contract [7]\<rparr>,
     token_Transactor = \<lparr>transactor_contract = sample_contract [7]\<rparr>, token_Filterer = \<lparr>filterer_contract = sample_contract [7]\<rparr>\<rparr>"

definition sample_node :: send_env where
  "sample_node = \<lparr>NetworkID = Inr (Some 56), SuggestGasPrice = Inr (10 ^ 9), EstimateGas = (\<lambda>_. Inr 21000),
     NonceAt = (\<lambda>_. Inr 0), TokenInstance = sample_token, BalanceAt = (\<lambda>_. Inr (10 ^ 15)),
     SignerHash = (\<lambda>_ _. [1]), WithSignature = (\<lambda>_ raw sg. Inr \<lparr>stx_raw = raw, stx_sig = sg\<rparr>),
     RawTxHash = (\<lambda>_. [3]), SignedTxHash = (\<lambda>_. [4]), SendTransaction = (\<lambda>_. None),
     DecFromBigInt18 = (\<lambda>n. n), tss_sign = sample_service\<rparr>"

definition sample_pool :: PoolInfo where
  "sample_pool = \<lparr>Pk = ''k'', JoltifyAddress = [8], EthAddress = [9], VaultInfo = None\<rparr>"

lemma sample_NewToken: "NewToken None (\<lambda>a _ _ _. sample_contract a) [7] = Inr sample_token"
  by (simp add: NewToken_def bindToken_def sample_token_def)

lemma sample_contract_ok: "contract_ok (sample_contract a) a sample_pack"
  unfolding contract_ok_def
proof (intro allI disjI2)
  fix opts m args
  show "\<exists>raw. ltx_To raw = Some a \<and> ltx_Value raw = 0 \<and> ltx_Data raw = sample_pack m args
      \<and> bc_Transact (sample_contract a) opts m args = opts_Signer opts (opts_From opts) raw"
    by (rule exI [of _ "\<lparr>ltx_Nonce = 0, ltx_GasPrice = 10 ^ 9, ltx_Gas = 60000, ltx_To = Some a,
        ltx_Data = sample_pack m args, ltx_Value = 0\<rparr>"]) (simp add: sample_contract_def)
qed

lemma sample_binding_ok: "binding_ok sample_node [7] sample_pack"
  using sample_contract_ok [of "[7]"] by (simp add: binding_ok_def sample_node_def sample_token_def)

lemma sample_balance: "token_BalanceOf (token_Caller sample_token) opts a = Done (Inr 0)"
  by (simp add: token_BalanceOf_def first_out_def sample_token_def sample_contract_def)

lemma sample_gas_ok: "gas_ok sample_ext sample_node"
proof -
  have "a \<le> a * 1500000000000000000 div 1000000000000000000" if "0 \<le> a" for a :: int
  proof -
    have "a * 1000000000000000000 div 1000000000000000000 \<le> a * 1500000000000000000 div 1000000000000000000"
      using that by (intro zdiv_mono1) auto
    then show ?thesis by simp
  qed
  then show ?thesis by (simp add: gas_ok_def sample_node_def sample_ext_def)
qed

lemma sample_tssSign: "tssSign sample_ext sample_node msg pk h = Done (Inr (pad32 7 @ pad32 9 @ [1]))"
  by (simp add: tssSign_def KeySign_def sample_node_def sample_service_def sample_sig_serialised)

lemma sample_sign_length: "length (pad32 7 @ pad32 9 @ [1]) = 65"
  by simp

lemma sample_moveBnb:
  "moveBnb sample_ext sample_node ''k'' [6] (10 ^ 15) 0 5 [] = Done (Inr ''0x03'',
     [\<lparr>stx_raw = \<lparr>ltx_Nonce = 0, ltx_GasPrice = 10 ^ 9, ltx_Gas = 21000, ltx_To = Some [6], ltx_Data = [],
         ltx_Value = 10 ^ 15 - 31500000000000\<rparr>, stx_sig = pad32 7 @ pad32 9 @ [1]\<rparr>])"
  unfolding moveBnb_def sdk_ok_min [OF sample_ext_ok] sum.case sample_tssSign exec_bind.simps
  by (simp add: sample_node_def sample_ext_def sample_tssSign [unfolded sample_node_def sample_ext_def]
      hex_char_def hextable_def)

lemma sample_MoveFunds:
  "pub_MoveFunds sample_ext sample_node pi sample_pool [6] 5 [] = Done ((False, None),
     [\<lparr>stx_raw = \<lparr>ltx_Nonce = 0, ltx_GasPrice = 10 ^ 9, ltx_Gas = 21000, ltx_To = Some [6], ltx_Data = [],
         ltx_Value = 10 ^ 15 - 31500000000000\<rparr>, stx_sig = pad32 7 @ pad32 9 @ [1]\<rparr>])"
proof -
  have "token_BalanceOf (token_Caller (TokenInstance sample_node)) zero_CallOpts a = Done (Inr 0)" "BalanceAt sample_node a = Inr (10 ^ 15)" "NonceAt sample_node a = Inr 0" for a
    by (simp_all add: sample_node_def sample_balance)
  then show ?thesis
    using sample_moveBnb by (simp add: pub_MoveFunds_def sdk_ok_min [OF sample_ext_ok] sample_pool_def)
qed

theorem pub_MoveFunds_safe_witness:
  "\<exists>tx. signed_by sample_ext sample_node ''k'' 5 tx \<and> 10 ^ 14 < ltx_Value (stx_raw tx)"
proof -
  have "Pk sample_pool \<noteq> []" by (simp add: sample_pool_def)
  from pub_MoveFunds_safe [OF sample_ext_ok sample_binding_ok sample_gas_ok this sample_MoveFunds]
  show ?thesis by (auto simp: sample_pool_def sample_node_def sample_balance)
qed

theorem pub_MoveFunds_dust_stuck_witness:
  "pub_MoveFunds sample_ext (sample_node\<lparr>BalanceAt := (\<lambda>_. Inr (10 ^ 14 + 1))\<rparr>) sample_pi sample_pool [6] 5 []
     = Done ((False, None), [])"
  by (rule pub_MoveFunds_dust_stuck [OF sample_ext_ok, where bnb = "10 ^ 14 + 1" and nonce = 0 and chain = "Some 56"
        and price = "10 ^ 9" and gas = 21000 and fee = 31500000000000])
    (simp_all add: sample_node_def sample_ext_def sample_balance)

lemma sample_ProcessOutBound:
  "\<exists>tx. ProcessOutBound sample_ext sample_node (sample_pi\<lparr>pub_lastTwoPools := (None, Some sample_pool)\<rparr>) [5] [4] 100 5 []
     = Done (Inr ''0x04'', [tx])"
proof -
  let ?pi = "sample_pi\<lparr>pub_lastTwoPools := (None, Some sample_pool)\<rparr>"
  have "\<exists>tx. SendToken sample_ext sample_node ?pi [] [4] [5] 100 5 [] = Done (([4], None), [tx])"
    unfolding SendToken_def composeTx_def sample_tssSign
    by (simp add: pub_GetPool_def sample_node_def token_Transfer_def sample_token_def sample_contract_def
        sample_tssSign [unfolded sample_node_def])
  then show ?thesis
    by (auto simp: ProcessOutBound_def hex_char_def hextable_def)
qed

theorem ProcessOutBound_sends_once_witness:
  "\<exists>tx. token_call [7] sample_pack [5] 100 (stx_raw tx) \<and> signed_by sample_ext sample_node ''k'' 5 tx"
proof -
  let ?pi = "sample_pi\<lparr>pub_lastTwoPools := (None, Some sample_pool)\<rparr>"
  have p: "snd (pub_lastTwoPools ?pi) = Some sample_pool" "Pk sample_pool \<noteq> []" by (simp_all add: sample_pool_def)
  from sample_ProcessOutBound obtain tx where
    "ProcessOutBound sample_ext sample_node ?pi [5] [4] 100 5 [] = Done (Inr ''0x04'', [tx])" by blast
  from ProcessOutBound_sends_once [OF sample_binding_ok p this] show ?thesis
    by (auto simp: sample_pool_def)
qed

end
