(* ===== verification/Token_Calls.thy ===== *)
theory Token_Calls
  imports Token_Binding
begin

text \<open>
  The rest of the calls of \<open>generated/erc20.go\<close>: binding the contract in one role only, the raw
  calls, the constant calls and the transactions of the token contract, and the same under
  a session, which fixes the options. The bridge uses none of these, but they are the
  interface its binding offers. A call that Solidity overloads has a number in its name.
\<close>

section \<open>Binding in one role\<close>

definition NewTokenCaller :: "goerror option \<Rightarrow> new_contract \<Rightarrow> eth_address \<Rightarrow> goerror + TokenCaller" where
  "NewTokenCaller parse NewBoundContract address =
     (case bindToken parse NewBoundContract address True False False of
        Inl err \<Rightarrow> Inl err
      | Inr c \<Rightarrow> Inr \<lparr>caller_contract = c\<rparr>)"

definition NewTokenTransactor :: "goerror option \<Rightarrow> new_contract \<Rightarrow> eth_address \<Rightarrow> goerror + TokenTransactor" where
  "NewTokenTransactor parse NewBoundContract address =
     (case bindToken parse NewBoundContract address False True False of
        Inl err \<Rightarrow> Inl err
      | Inr c \<Rightarrow> Inr \<lparr>transactor_contract = c\<rparr>)"

definition NewTokenFilterer :: "goerror option \<Rightarrow> new_contract \<Rightarrow> eth_address \<Rightarrow> goerror + TokenFilterer" where
  "NewTokenFilterer parse NewBoundContract address =
     (case bindToken parse NewBoundContract address False False True of
        Inl err \<Rightarrow> Inl err
      | Inr c \<Rightarrow> Inr \<lparr>filterer_contract = c\<rparr>)"

section \<open>Sessions and raw access\<close>

record TokenSession =
  session_Contract :: Token
  session_CallOpts :: CallOpts
  session_TransactOpts :: TransactOpts

record TokenCallerSession =
  caller_session_Contract :: TokenCaller
  caller_session_CallOpts :: CallOpts

record TokenTransactorSession =
  transactor_session_Contract :: TokenTransactor
  transactor_session_TransactOpts :: TransactOpts

record TokenRaw =
  raw_Contract :: Token

record TokenCallerRaw =
  caller_raw_Contract :: TokenCaller

record TokenTransactorRaw =
  transactor_raw_Contract :: TokenTransactor

definition raw_Call :: "TokenRaw \<Rightarrow> CallOpts \<Rightarrow> string \<Rightarrow> abi_value list \<Rightarrow> goerror + abi_value list" where
  "raw_Call r opts name params = bc_Call (caller_contract (token_Caller (raw_Contract r))) opts name params"

definition raw_Transfer :: "TokenRaw \<Rightarrow> TransactOpts \<Rightarrow> (goerror + SignedTx) exec" where
  "raw_Transfer r opts = bc_Transfer (transactor_contract (token_Transactor (raw_Contract r))) opts"

definition raw_Transact :: "TokenRaw \<Rightarrow> TransactOpts \<Rightarrow> string \<Rightarrow> abi_value list \<Rightarrow> (goerror + SignedTx) exec" where
  "raw_Transact r opts name params = bc_Transact (transactor_contract (token_Transactor (raw_Contract r))) opts name params"

definition caller_raw_Call :: "TokenCallerRaw \<Rightarrow> CallOpts \<Rightarrow> string \<Rightarrow> abi_value list \<Rightarrow> goerror + abi_value list" where
  "caller_raw_Call r opts name params = bc_Call (caller_contract (caller_raw_Contract r)) opts name params"

definition transactor_raw_Transfer :: "TokenTransactorRaw \<Rightarrow> TransactOpts \<Rightarrow> (goerror + SignedTx) exec" where
  "transactor_raw_Transfer r opts = bc_Transfer (transactor_contract (transactor_raw_Contract r)) opts"

definition transactor_raw_Transact ::
    "TokenTransactorRaw \<Rightarrow> TransactOpts \<Rightarrow> string \<Rightarrow> abi_value list \<Rightarrow> (goerror + SignedTx) exec" where
  "transactor_raw_Transact r opts name params = bc_Transact (transactor_contract (transactor_raw_Contract r)) opts name params"

section \<open>Constant calls\<close>

fun abi_uint8 :: "abi_value \<Rightarrow> byte option" where
  "abi_uint8 (AbiUint8 n) = Some n"
| "abi_uint8 _ = None"

fun abi_bool :: "abi_value \<Rightarrow> bool option" where
  "abi_bool (AbiBool b) = Some b"
| "abi_bool _ = None"

fun abi_string :: "abi_value \<Rightarrow> string option" where
  "abi_string (AbiString s) = Some s"
| "abi_string _ = None"

definition token_Allowance ::
    "TokenCaller \<Rightarrow> CallOpts \<Rightarrow> eth_address \<Rightarrow> eth_address \<Rightarrow> (goerror + int) exec" where
  "token_Allowance t opts owner spender =
    first_out abi_int (bc_Call (caller_contract t) opts ''allowance'' [AbiAddress owner, AbiAddress spender])"

definition token_Cap :: "TokenCaller \<Rightarrow> CallOpts \<Rightarrow> (goerror + int) exec" where
  "token_Cap t opts = first_out abi_int (bc_Call (caller_contract t) opts ''cap'' [])"

definition token_Decimals :: "TokenCaller \<Rightarrow> CallOpts \<Rightarrow> (goerror + byte) exec" where
  "token_Decimals t opts = first_out abi_uint8 (bc_Call (caller_contract t) opts ''decimals'' [])"

definition token_IsMinter ::
    "TokenCaller \<Rightarrow> CallOpts \<Rightarrow> eth_address \<Rightarrow> (goerror + bool) exec" where
  "token_IsMinter t opts account =
    first_out abi_bool (bc_Call (caller_contract t) opts ''isMinter'' [AbiAddress account])"

definition token_IsPauser ::
    "TokenCaller \<Rightarrow> CallOpts \<Rightarrow> eth_address \<Rightarrow> (goerror + bool) exec" where
  "token_IsPauser t opts account =
    first_out abi_bool (bc_Call (caller_contract t) opts ''isPauser'' [AbiAddress account])"

definition token_Name :: "TokenCaller \<Rightarrow> CallOpts \<Rightarrow> (goerror + string) exec" where
  "token_Name t opts = first_out abi_string (bc_Call (caller_contract t) opts ''name'' [])"

definition token_Paused :: "TokenCaller \<Rightarrow> CallOpts \<Rightarrow> (goerror + bool) exec" where
  "token_Paused t opts = first_out abi_bool (bc_Call (caller_contract t) opts ''paused'' [])"

definition token_Symbol :: "TokenCaller \<Rightarrow> CallOpts \<Rightarrow> (goerror + string) exec" where
  "token_Symbol t opts = first_out abi_string (bc_Call (caller_contract t) opts ''symbol'' [])"

definition token_TotalSupply :: "TokenCaller \<Rightarrow> CallOpts \<Rightarrow> (goerror + int) exec" where
  "token_TotalSupply t opts = first_out abi_int (bc_Call (caller_contract t) opts ''totalSupply'' [])"

section \<open>Transactions\<close>

definition token_AddMinter ::
    "TokenTransactor \<Rightarrow> TransactOpts \<Rightarrow> eth_address \<Rightarrow> (goerror + SignedTx) exec" where
  "token_AddMinter t opts account = bc_Transact (transactor_contract t) opts ''addMinter'' [AbiAddress account]"

definition token_AddPauser ::
    "TokenTransactor \<Rightarrow> TransactOpts \<Rightarrow> eth_address \<Rightarrow> (goerror + SignedTx) exec" where
  "token_AddPauser t opts account = bc_Transact (transactor_contract t) opts ''addPauser'' [AbiAddress account]"

definition token_Approve ::
    "TokenTransactor \<Rightarrow> TransactOpts \<Rightarrow> eth_address \<Rightarrow> int \<Rightarrow> (goerror + SignedTx) exec" where
  "token_Approve t opts spender value =
    bc_Transact (transactor_contract t) opts ''approve'' [AbiAddress spender, AbiInt value]"

definition token_Burn ::
    "TokenTransactor \<Rightarrow> TransactOpts \<Rightarrow> int \<Rightarrow> (goerror + SignedTx) exec" where
  "token_Burn t opts amount = bc_Transact (transactor_contract t) opts ''burn'' [AbiInt amount]"

definition token_BurnFrom ::
    "TokenTransactor \<Rightarrow> TransactOpts \<Rightarrow> eth_address \<Rightarrow> int \<Rightarrow> (goerror + SignedTx) exec" where
  "token_BurnFrom t opts account amount =
    bc_Transact (transactor_contract t) opts ''burnFrom'' [AbiAddress account, AbiInt amount]"

definition token_DecreaseAllowance ::
    "TokenTransactor \<Rightarrow> TransactOpts \<Rightarrow> eth_address \<Rightarrow> int \<Rightarrow> (goerror + SignedTx) exec" where
  "token_DecreaseAllowance t opts spender subtractedValue =
    bc_Transact (transactor_contract t) opts ''decreaseAllowance'' [AbiAddress spender, AbiInt subtractedValue]"

definition token_IncreaseAllowance ::
    "TokenTransactor \<Rightarrow> TransactOpts \<Rightarrow> eth_address \<Rightarrow> int \<Rightarrow> (goerror + SignedTx) exec" where
  "token_IncreaseAllowance t opts spender addedValue =
    bc_Transact (transactor_contract t) opts ''increaseAllowance'' [AbiAddress spender, AbiInt addedValue]"

definition token_Initialize ::
    "TokenTransactor \<Rightarrow> TransactOpts \<Rightarrow> string \<Rightarrow> string \<Rightarrow> byte \<Rightarrow> (goerror + SignedTx) exec" where
  "token_Initialize t opts name symbol decimals =
    bc_Transact (transactor_contract t) opts ''initialize'' [AbiString name, AbiString symbol, AbiUint8 decimals]"

definition token_Initialize0 ::
    "TokenTransactor \<Rightarrow> TransactOpts \<Rightarrow> string \<Rightarrow> string \<Rightarrow> byte \<Rightarrow> eth_address list \<Rightarrow> eth_address list \<Rightarrow> (goerror + SignedTx) exec" where
  "token_Initialize0 t opts name symbol decimals minters pausers =
    bc_Transact (transactor_contract t) opts ''initialize0'' [AbiString name, AbiString symbol, AbiUint8 decimals, AbiAddresses minters, AbiAddresses pausers]"

definition token_Initialize1 ::
    "TokenTransactor \<Rightarrow> TransactOpts \<Rightarrow> string \<Rightarrow> string \<Rightarrow> byte \<Rightarrow> int \<Rightarrow> eth_address \<Rightarrow> eth_address list \<Rightarrow> eth_address list \<Rightarrow> (goerror + SignedTx) exec" where
  "token_Initialize1 t opts name symbol decimals initialSupply initialHolder minters pausers =
    bc_Transact (transactor_contract t) opts ''initialize1'' [AbiString name, AbiString symbol, AbiUint8 decimals, AbiInt initialSupply, AbiAddress initialHolder, AbiAddresses minters, AbiAddresses pausers]"

definition token_Initialize2 ::
    "TokenTransactor \<Rightarrow> TransactOpts \<Rightarrow> string \<Rightarrow> string \<Rightarrow> byte \<Rightarrow> int \<Rightarrow> int \<Rightarrow> eth_address \<Rightarrow> eth_address list \<Rightarrow> eth_address list \<Rightarrow> eth_address \<Rightarrow> (goerror + SignedTx) exec" where
  "token_Initialize2 t opts name symbol decimals initialSupply cap initialHolder minters pausers bridge =
    bc_Transact (transactor_contract t) opts ''initialize2'' [AbiString name, AbiString symbol, AbiUint8 decimals, AbiInt initialSupply, AbiInt cap, AbiAddress initialHolder, AbiAddresses minters, AbiAddresses pausers, AbiAddress bridge]"

definition token_Initialize3 ::
    "TokenTransactor \<Rightarrow> TransactOpts \<Rightarrow> eth_address \<Rightarrow> (goerror + SignedTx) exec" where
  "token_Initialize3 t opts sender = bc_Transact (transactor_contract t) opts ''initialize3'' [AbiAddress sender]"

definition token_Initialize4 ::
    "TokenTransactor \<Rightarrow> TransactOpts \<Rightarrow> int \<Rightarrow> eth_address \<Rightarrow> (goerror + SignedTx) exec" where
  "token_Initialize4 t opts cap sender =
    bc_Transact (transactor_contract t) opts ''initialize4'' [AbiInt cap, AbiAddress sender]"

definition token_Mint ::
    "TokenTransactor \<Rightarrow> TransactOpts \<Rightarrow> eth_address \<Rightarrow> int \<Rightarrow> (goerror + SignedTx) exec" where
  "token_Mint t opts account amount =
    bc_Transact (transactor_contract t) opts ''mint'' [AbiAddress account, AbiInt amount]"

definition token_Pause :: "TokenTransactor \<Rightarrow> TransactOpts \<Rightarrow> (goerror + SignedTx) exec" where
  "token_Pause t opts = bc_Transact (transactor_contract t) opts ''pause'' []"

definition token_RemoveMinter ::
    "TokenTransactor \<Rightarrow> TransactOpts \<Rightarrow> eth_address \<Rightarrow> (goerror + SignedTx) exec" where
  "token_RemoveMinter t opts account = bc_Transact (transactor_contract t) opts ''removeMinter'' [AbiAddress account]"

definition token_RenounceMinter ::
    "TokenTransactor \<Rightarrow> TransactOpts \<Rightarrow> (goerror + SignedTx) exec" where
  "token_RenounceMinter t opts = bc_Transact (transactor_contract t) opts ''renounceMinter'' []"

definition token_RenouncePauser ::
    "TokenTransactor \<Rightarrow> TransactOpts \<Rightarrow> (goerror + SignedTx) exec" where
  "token_RenouncePauser t opts = bc_Transact (transactor_contract t) opts ''renouncePauser'' []"

definition token_TransferFrom ::
    "TokenTransactor \<Rightarrow> TransactOpts \<Rightarrow> eth_address \<Rightarrow> eth_address \<Rightarrow> int \<Rightarrow> (goerror + SignedTx) exec" where
  "token_TransferFrom t opts sender recipient amount =
    bc_Transact (transactor_contract t) opts ''transferFrom'' [AbiAddress sender, AbiAddress recipient, AbiInt amount]"

definition token_Unpause :: "TokenTransactor \<Rightarrow> TransactOpts \<Rightarrow> (goerror + SignedTx) exec" where
  "token_Unpause t opts = bc_Transact (transactor_contract t) opts ''unpause'' []"

section \<open>The same under a session\<close>

definition session_Allowance ::
    "TokenSession \<Rightarrow> eth_address \<Rightarrow> eth_address \<Rightarrow> (goerror + int) exec" where
  "session_Allowance s owner spender =
    token_Allowance (token_Caller (session_Contract s)) (session_CallOpts s) owner spender"

definition session_BalanceOf :: "TokenSession \<Rightarrow> eth_address \<Rightarrow> (goerror + int) exec" where
  "session_BalanceOf s account = token_BalanceOf (token_Caller (session_Contract s)) (session_CallOpts s) account"

definition session_Cap :: "TokenSession \<Rightarrow> (goerror + int) exec" where
  "session_Cap s = token_Cap (token_Caller (session_Contract s)) (session_CallOpts s)"

definition session_Decimals :: "TokenSession \<Rightarrow> (goerror + byte) exec" where
  "session_Decimals s = token_Decimals (token_Caller (session_Contract s)) (session_CallOpts s)"

definition session_IsMinter :: "TokenSession \<Rightarrow> eth_address \<Rightarrow> (goerror + bool) exec" where
  "session_IsMinter s account = token_IsMinter (token_Caller (session_Contract s)) (session_CallOpts s) account"

definition session_IsPauser :: "TokenSession \<Rightarrow> eth_address \<Rightarrow> (goerror + bool) exec" where
  "session_IsPauser s account = token_IsPauser (token_Caller (session_Contract s)) (session_CallOpts s) account"

definition session_Name :: "TokenSession \<Rightarrow> (goerror + string) exec" where
  "session_Name s = token_Name (token_Caller (session_Contract s)) (session_CallOpts s)"

definition session_Paused :: "TokenSession \<Rightarrow> (goerror + bool) exec" where
  "session_Paused s = token_Paused (token_Caller (session_Contract s)) (session_CallOpts s)"

definition session_Symbol :: "TokenSession \<Rightarrow> (goerror + string) exec" where
  "session_Symbol s = token_Symbol (token_Caller (session_Contract s)) (session_CallOpts s)"

definition session_TotalSupply :: "TokenSession \<Rightarrow> (goerror + int) exec" where
  "session_TotalSupply s = token_TotalSupply (token_Caller (session_Contract s)) (session_CallOpts s)"

definition session_AddMinter :: "TokenSession \<Rightarrow> eth_address \<Rightarrow> (goerror + SignedTx) exec" where
  "session_AddMinter s account =
    token_AddMinter (token_Transactor (session_Contract s)) (session_TransactOpts s) account"

definition session_AddPauser :: "TokenSession \<Rightarrow> eth_address \<Rightarrow> (goerror + SignedTx) exec" where
  "session_AddPauser s account =
    token_AddPauser (token_Transactor (session_Contract s)) (session_TransactOpts s) account"

definition session_Approve ::
    "TokenSession \<Rightarrow> eth_address \<Rightarrow> int \<Rightarrow> (goerror + SignedTx) exec" where
  "session_Approve s spender value =
    token_Approve (token_Transactor (session_Contract s)) (session_TransactOpts s) spender value"

definition session_Burn :: "TokenSession \<Rightarrow> int \<Rightarrow> (goerror + SignedTx) exec" where
  "session_Burn s amount = token_Burn (token_Transactor (session_Contract s)) (session_TransactOpts s) amount"

definition session_BurnFrom ::
    "TokenSession \<Rightarrow> eth_address \<Rightarrow> int \<Rightarrow> (goerror + SignedTx) exec" where
  "session_BurnFrom s account amount =
    token_BurnFrom (token_Transactor (session_Contract s)) (session_TransactOpts s) account amount"

definition session_DecreaseAllowance ::
    "TokenSession \<Rightarrow> eth_address \<Rightarrow> int \<Rightarrow> (goerror + SignedTx) exec" where
  "session_DecreaseAllowance s spender subtractedValue =
    token_DecreaseAllowance (token_Transactor (session_Contract s)) (session_TransactOpts s) spender subtractedValue"

definition session_IncreaseAllowance ::
    "TokenSession \<Rightarrow> eth_address \<Rightarrow> int \<Rightarrow> (goerror + SignedTx) exec" where
  "session_IncreaseAllowance s spender addedValue =
    token_IncreaseAllowance (token_Transactor (session_Contract s)) (session_TransactOpts s) spender addedValue"

definition session_Initialize ::
    "TokenSession \<Rightarrow> string \<Rightarrow> string \<Rightarrow> byte \<Rightarrow> (goerror + SignedTx) exec" where
  "session_Initialize s name symbol decimals =
    token_Initialize (token_Transactor (session_Contract s)) (session_TransactOpts s) name symbol decimals"

definition session_Initialize0 ::
    "TokenSession \<Rightarrow> string \<Rightarrow> string \<Rightarrow> byte \<Rightarrow> eth_address list \<Rightarrow> eth_address list \<Rightarrow> (goerror + SignedTx) exec" where
  "session_Initialize0 s name symbol decimals minters pausers =
    token_Initialize0 (token_Transactor (session_Contract s)) (session_TransactOpts s) name symbol decimals minters pausers"

definition session_Initialize1 ::
    "TokenSession \<Rightarrow> string \<Rightarrow> string \<Rightarrow> byte \<Rightarrow> int \<Rightarrow> eth_address \<Rightarrow> eth_address list \<Rightarrow> eth_address list \<Rightarrow> (goerror + SignedTx) exec" where
  "session_Initialize1 s name symbol decimals initialSupply initialHolder minters pausers =
    token_Initialize1 (token_Transactor (session_Contract s)) (session_TransactOpts s) name symbol decimals initialSupply initialHolder minters pausers"

definition session_Initialize2 ::
    "TokenSession \<Rightarrow> string \<Rightarrow> string \<Rightarrow> byte \<Rightarrow> int \<Rightarrow> int \<Rightarrow> eth_address \<Rightarrow> eth_address list \<Rightarrow> eth_address list \<Rightarrow> eth_address \<Rightarrow> (goerror + SignedTx) exec" where
  "session_Initialize2 s name symbol decimals initialSupply cap initialHolder minters pausers bridge =
    token_Initialize2 (token_Transactor (session_Contract s)) (session_TransactOpts s) name symbol decimals initialSupply cap initialHolder minters pausers bridge"

definition session_Initialize3 ::
    "TokenSession \<Rightarrow> eth_address \<Rightarrow> (goerror + SignedTx) exec" where
  "session_Initialize3 s sender =
    token_Initialize3 (token_Transactor (session_Contract s)) (session_TransactOpts s) sender"

definition session_Initialize4 ::
    "TokenSession \<Rightarrow> int \<Rightarrow> eth_address \<Rightarrow> (goerror + SignedTx) exec" where
  "session_Initialize4 s cap sender =
    token_Initialize4 (token_Transactor (session_Contract s)) (session_TransactOpts s) cap sender"

definition session_Mint ::
    "TokenSession \<Rightarrow> eth_address \<Rightarrow> int \<Rightarrow> (goerror + SignedTx) exec" where
  "session_Mint s account amount =
    token_Mint (token_Transactor (session_Contract s)) (session_TransactOpts s) account amount"

definition session_Pause :: "TokenSession \<Rightarrow> (goerror + SignedTx) exec" where
  "session_Pause s = token_Pause (token_Transactor (session_Contract s)) (session_TransactOpts s)"

definition session_RemoveMinter ::
    "TokenSession \<Rightarrow> eth_address \<Rightarrow> (goerror + SignedTx) exec" where
  "session_RemoveMinter s account =
    token_RemoveMinter (token_Transactor (session_Contract s)) (session_TransactOpts s) account"

definition session_RenounceMinter :: "TokenSession \<Rightarrow> (goerror + SignedTx) exec" where
  "session_RenounceMinter s = token_RenounceMinter (token_Transactor (session_Contract s)) (session_TransactOpts s)"

definition session_RenouncePauser :: "TokenSession \<Rightarrow> (goerror + SignedTx) exec" where
  "session_RenouncePauser s = token_RenouncePauser (token_Transactor (session_Contract s)) (session_TransactOpts s)"

definition session_Transfer ::
    "TokenSession \<Rightarrow> eth_address \<Rightarrow> int \<Rightarrow> (goerror + SignedTx) exec" where
  "session_Transfer s recipient amount =
    token_Transfer (token_Transactor (session_Contract s)) (session_TransactOpts s) recipient amount"

definition session_TransferFrom ::
    "TokenSession \<Rightarrow> eth_address \<Rightarrow> eth_address \<Rightarrow> int \<Rightarrow> (goerror + SignedTx) exec" where
  "session_TransferFrom s sender recipient amount =
    token_TransferFrom (token_Transactor (session_Contract s)) (session_TransactOpts s) sender recipient amount"

definition session_Unpause :: "TokenSession \<Rightarrow> (goerror + SignedTx) exec" where
  "session_Unpause s = token_Unpause (token_Transactor (session_Contract s)) (session_TransactOpts s)"

definition caller_session_Allowance ::
    "TokenCallerSession \<Rightarrow> eth_address \<Rightarrow> eth_address \<Rightarrow> (goerror + int) exec" where
  "caller_session_Allowance s owner spender =
    token_Allowance (caller_session_Contract s) (caller_session_CallOpts s) owner spender"

definition caller_session_BalanceOf ::
    "TokenCallerSession \<Rightarrow> eth_address \<Rightarrow> (goerror + int) exec" where
  "caller_session_BalanceOf s account =
    token_BalanceOf (caller_session_Contract s) (caller_session_CallOpts s) account"

definition caller_session_Cap :: "TokenCallerSession \<Rightarrow> (goerror + int) exec" where
  "caller_session_Cap s = token_Cap (caller_session_Contract s) (caller_session_CallOpts s)"

definition caller_session_Decimals :: "TokenCallerSession \<Rightarrow> (goerror + byte) exec" where
  "caller_session_Decimals s = token_Decimals (caller_session_Contract s) (caller_session_CallOpts s)"

definition caller_session_IsMinter ::
    "TokenCallerSession \<Rightarrow> eth_address \<Rightarrow> (goerror + bool) exec" where
  "caller_session_IsMinter s account = token_IsMinter (caller_session_Contract s) (caller_session_CallOpts s) account"

definition caller_session_IsPauser ::
    "TokenCallerSession \<Rightarrow> eth_address \<Rightarrow> (goerror + bool) exec" where
  "caller_session_IsPauser s account = token_IsPauser (caller_session_Contract s) (caller_session_CallOpts s) account"

definition caller_session_Name :: "TokenCallerSession \<Rightarrow> (goerror + string) exec" where
  "caller_session_Name s = token_Name (caller_session_Contract s) (caller_session_CallOpts s)"

definition caller_session_Paused :: "TokenCallerSession \<Rightarrow> (goerror + bool) exec" where
  "caller_session_Paused s = token_Paused (caller_session_Contract s) (caller_session_CallOpts s)"

definition caller_session_Symbol :: "TokenCallerSession \<Rightarrow> (goerror + string) exec" where
  "caller_session_Symbol s = token_Symbol (caller_session_Contract s) (caller_session_CallOpts s)"

definition caller_session_TotalSupply :: "TokenCallerSession \<Rightarrow> (goerror + int) exec" where
  "caller_session_TotalSupply s = token_TotalSupply (caller_session_Contract s) (caller_session_CallOpts s)"

definition transactor_session_AddMinter ::
    "TokenTransactorSession \<Rightarrow> eth_address \<Rightarrow> (goerror + SignedTx) exec" where
  "transactor_session_AddMinter s account =
    token_AddMinter (transactor_session_Contract s) (transactor_session_TransactOpts s) account"

definition transactor_session_AddPauser ::
    "TokenTransactorSession \<Rightarrow> eth_address \<Rightarrow> (goerror + SignedTx) exec" where
  "transactor_session_AddPauser s account =
    token_AddPauser (transactor_session_Contract s) (transactor_session_TransactOpts s) account"

definition transactor_session_Approve ::
    "TokenTransactorSession \<Rightarrow> eth_address \<Rightarrow> int \<Rightarrow> (goerror + SignedTx) exec" where
  "transactor_session_Approve s spender value =
    token_Approve (transactor_session_Contract s) (transactor_session_TransactOpts s) spender value"

definition transactor_session_Burn ::
    "TokenTransactorSession \<Rightarrow> int \<Rightarrow> (goerror + SignedTx) exec" where
  "transactor_session_Burn s amount =
    token_Burn (transactor_session_Contract s) (transactor_session_TransactOpts s) amount"

definition transactor_session_BurnFrom ::
    "TokenTransactorSession \<Rightarrow> eth_address \<Rightarrow> int \<Rightarrow> (goerror + SignedTx) exec" where
  "transactor_session_BurnFrom s account amount =
    token_BurnFrom (transactor_session_Contract s) (transactor_session_TransactOpts s) account amount"

definition transactor_session_DecreaseAllowance ::
    "TokenTransactorSession \<Rightarrow> eth_address \<Rightarrow> int \<Rightarrow> (goerror + SignedTx) exec" where
  "transactor_session_DecreaseAllowance s spender subtractedValue =
    token_DecreaseAllowance (transactor_session_Contract s) (transactor_session_TransactOpts s) spender subtractedValue"

definition transactor_session_IncreaseAllowance ::
    "TokenTransactorSession \<Rightarrow> eth_address \<Rightarrow> int \<Rightarrow> (goerror + SignedTx) exec" where
  "transactor_session_IncreaseAllowance s spender addedValue =
    token_IncreaseAllowance (transactor_session_Contract s) (transactor_session_TransactOpts s) spender addedValue"

definition transactor_session_Initialize ::
    "TokenTransactorSession \<Rightarrow> string \<Rightarrow> string \<Rightarrow> byte \<Rightarrow> (goerror + SignedTx) exec" where
  "transactor_session_Initialize s name symbol decimals =
    token_Initialize (transactor_session_Contract s) (transactor_session_TransactOpts s) name symbol decimals"

definition transactor_session_Initialize0 ::
    "TokenTransactorSession \<Rightarrow> string \<Rightarrow> string \<Rightarrow> byte \<Rightarrow> eth_address list \<Rightarrow> eth_address list \<Rightarrow> (goerror + SignedTx) exec" where
  "transactor_session_Initialize0 s name symbol decimals minters pausers =
    token_Initialize0 (transactor_session_Contract s) (transactor_session_TransactOpts s) name symbol decimals minters pausers"

definition transactor_session_Initialize1 ::
    "TokenTransactorSession \<Rightarrow> string \<Rightarrow> string \<Rightarrow> byte \<Rightarrow> int \<Rightarrow> eth_address \<Rightarrow> eth_address list \<Rightarrow> eth_address list \<Rightarrow> (goerror + SignedTx) exec" where
  "transactor_session_Initialize1 s name symbol decimals initialSupply initialHolder minters pausers =
    token_Initialize1 (transactor_session_Contract s) (transactor_session_TransactOpts s) name symbol decimals initialSupply initialHolder minters pausers"

definition transactor_session_Initialize2 ::
    "TokenTransactorSession \<Rightarrow> string \<Rightarrow> string \<Rightarrow> byte \<Rightarrow> int \<Rightarrow> int \<Rightarrow> eth_address \<Rightarrow> eth_address list \<Rightarrow> eth_address list \<Rightarrow> eth_address \<Rightarrow> (goerror + SignedTx) exec" where
  "transactor_session_Initialize2 s name symbol decimals initialSupply cap initialHolder minters pausers bridge =
    token_Initialize2 (transactor_session_Contract s) (transactor_session_TransactOpts s) name symbol decimals initialSupply cap initialHolder minters pausers bridge"

definition transactor_session_Initialize3 ::
    "TokenTransactorSession \<Rightarrow> eth_address \<Rightarrow> (goerror + SignedTx) exec" where
  "transactor_session_Initialize3 s sender =
    token_Initialize3 (transactor_session_Contract s) (transactor_session_TransactOpts s) sender"

definition transactor_session_Initialize4 ::
    "TokenTransactorSession \<Rightarrow> int \<Rightarrow> eth_address \<Rightarrow> (goerror + SignedTx) exec" where
  "transactor_session_Initialize4 s cap sender =
    token_Initialize4 (transactor_session_Contract s) (transactor_session_TransactOpts s) cap sender"

definition transactor_session_Mint ::
    "TokenTransactorSession \<Rightarrow> eth_address \<Rightarrow> int \<Rightarrow> (goerror + SignedTx) exec" where
  "transactor_session_Mint s account amount =
    token_Mint (transactor_session_Contract s) (transactor_session_TransactOpts s) account amount"

definition transactor_session_Pause :: "TokenTransactorSession \<Rightarrow> (goerror + SignedTx) exec" where
  "transactor_session_Pause s = token_Pause (transactor_session_Contract s) (transactor_session_TransactOpts s)"

definition transactor_session_RemoveMinter ::
    "TokenTransactorSession \<Rightarrow> eth_address \<Rightarrow> (goerror + SignedTx) exec" where
  "transactor_session_RemoveMinter s account =
    token_RemoveMinter (transactor_session_Contract s) (transactor_session_TransactOpts s) account"

definition transactor_session_RenounceMinter :: "TokenTransactorSession \<Rightarrow> (goerror + SignedTx) exec" where
  "transactor_session_RenounceMinter s =
    token_RenounceMinter (transactor_session_Contract s) (transactor_session_TransactOpts s)"

definition transactor_session_RenouncePauser :: "TokenTransactorSession \<Rightarrow> (goerror + SignedTx) exec" where
  "transactor_session_RenouncePauser s =
    token_RenouncePauser (transactor_session_Contract s) (transactor_session_TransactOpts s)"

definition transactor_session_Transfer ::
    "TokenTransactorSession \<Rightarrow> eth_address \<Rightarrow> int \<Rightarrow> (goerror + SignedTx) exec" where
  "transactor_session_Transfer s recipient amount =
    token_Transfer (transactor_session_Contract s) (transactor_session_TransactOpts s) recipient amount"

definition transactor_session_TransferFrom ::
    "TokenTransactorSession \<Rightarrow> eth_address \<Rightarrow> eth_address \<Rightarrow> int \<Rightarrow> (goerror + SignedTx) exec" where
  "transactor_session_TransferFrom s sender recipient amount =
    token_TransferFrom (transactor_session_Contract s) (transactor_session_TransactOpts s) sender recipient amount"

definition transactor_session_Unpause :: "TokenTransactorSession \<Rightarrow> (goerror + SignedTx) exec" where
  "transactor_session_Unpause s = token_Unpause (transactor_session_Contract s) (transactor_session_TransactOpts s)"

end
