(* ===== verification/Token_Events.thy ===== *)
theory Token_Events
  imports Pub_Send "HOL-Library.Sublist"
begin

text \<open>
  The events of \<open>generated/erc20.go\<close>. For each of the eight events of the token there is an
  iterator over the logs found, a subscription that forwards new logs to a channel, and a
  parser of one log. The code repeats the same bodies for every event; they are defined once
  here and then for each event. The bridge uses none of them.
\<close>

section \<open>Iterators\<close>

text \<open>
  \<open>it_logs\<close> is what the channel of the logs holds at the moment, and \<open>it_sub\<close> whether the
  subscription has ended by now. Both belong to a search that runs on its own: what it does
  before a call of \<open>Next\<close>, and while a call waits, is a \<open>moment\<close> below.
\<close>

record 'ev TokenIterator =
  it_Event :: "'ev option"
  it_contract :: BoundContract
  it_event :: string
  it_logs :: "EthLog list"
  it_sub :: Subscription
  it_done :: bool
  it_fail :: "goerror option"

type_synonym 'ev unpacker = "BoundContract \<Rightarrow> string \<Rightarrow> EthLog \<Rightarrow> 'ev \<times> goerror option"

text \<open>The body of both cases that receive a log.\<close>

definition take_log ::
    "'ev unpacker \<Rightarrow> (EthLog \<Rightarrow> 'ev \<Rightarrow> 'ev) \<Rightarrow> EthLog \<Rightarrow> EthLog list \<Rightarrow> 'ev TokenIterator \<Rightarrow> bool \<times> 'ev TokenIterator" where
  "take_log UnpackLog setRaw log rest it =
     (let (event, err) = UnpackLog (it_contract it) (it_event it) log;
          it1 = it\<lparr>it_logs := rest\<rparr>
      in case err of
           Some m \<Rightarrow> (False, it1\<lparr>it_Event := Some event, it_fail := Some m\<rparr>)
         | None \<Rightarrow> (True, it1\<lparr>it_Event := Some (setRaw log event)\<rparr>))"

text \<open>
  One try of \<open>Next\<close>, with the channels as they are. When a log and the end of the subscription
  are both ready, the runtime picks one: \<open>pick\<close> says whether it is the end. When neither is,
  the call waits, which is \<open>Block\<close>.
\<close>

function iterator_Next ::
    "'ev unpacker \<Rightarrow> (EthLog \<Rightarrow> 'ev \<Rightarrow> 'ev) \<Rightarrow> bool \<Rightarrow> 'ev TokenIterator \<Rightarrow> (bool \<times> 'ev TokenIterator) exec" where
  "iterator_Next UnpackLog setRaw pick it =
     (if it_fail it \<noteq> None then Done (False, it)
      else if it_done it then
        (case it_logs it of
           log # rest \<Rightarrow> Done (take_log UnpackLog setRaw log rest it)
         | [] \<Rightarrow> Done (False, it))
      else
        (case (it_logs it, sub_Err (it_sub it)) of
           ([], None) \<Rightarrow> Block
         | (log # rest, None) \<Rightarrow> Done (take_log UnpackLog setRaw log rest it)
         | ([], Some err) \<Rightarrow> iterator_Next UnpackLog setRaw pick (it\<lparr>it_done := True, it_fail := err\<rparr>)
         | (log # rest, Some err) \<Rightarrow>
             if pick then iterator_Next UnpackLog setRaw pick (it\<lparr>it_done := True, it_fail := err\<rparr>)
             else Done (take_log UnpackLog setRaw log rest it)))"
  by pat_completeness auto

termination
  by (relation "measure (\<lambda>(_, _, _, it). if it_done it then 0 else 1)") auto

declare iterator_Next.simps [simp del]

definition iterator_Error :: "'ev TokenIterator \<Rightarrow> goerror option" where
  "iterator_Error it = it_fail it"

definition iterator_Close :: "'ev TokenIterator \<Rightarrow> goerror option \<times> 'ev TokenIterator" where
  "iterator_Close it = (None, it\<lparr>it_sub := (it_sub it)\<lparr>sub_open := False\<rparr>\<rparr>)"

text \<open>
  What happens before a try: the search puts logs on the channel, and may have ended (with an
  error, or closing its error channel). Once ended it stays so.
\<close>

record moment =
  mo_logs :: "EthLog list"
  mo_end :: "goerror option option"
  mo_pick :: bool

definition pass :: "moment \<Rightarrow> 'ev TokenIterator \<Rightarrow> 'ev TokenIterator" where
  "pass m it = it\<lparr>it_logs := it_logs it @ mo_logs m,
     it_sub := (it_sub it)\<lparr>sub_Err := (case sub_Err (it_sub it) of None \<Rightarrow> mo_end m | Some err \<Rightarrow> Some err)\<rparr>\<rparr>"

text \<open>The search has just been started: the channel holds what it has found so far.\<close>

definition filter_logs ::
    "BoundContract \<Rightarrow> FilterOpts \<Rightarrow> string \<Rightarrow> abi_value list list \<Rightarrow> goerror + 'ev TokenIterator" where
  "filter_logs c opts event rules =
     (case bc_FilterLogs c opts event rules of
        Inl err \<Rightarrow> Inl err
      | Inr (logs, sub) \<Rightarrow>
          Inr \<lparr>it_Event = None, it_contract = c, it_event = event, it_logs = logs, it_sub = sub,
               it_done = False, it_fail = None\<rparr>)"

section \<open>Parsing and watching\<close>

definition parse_log :: "(EthLog \<Rightarrow> 'ev \<times> goerror option) \<Rightarrow> (EthLog \<Rightarrow> 'ev \<Rightarrow> 'ev) \<Rightarrow> EthLog \<Rightarrow> goerror + 'ev" where
  "parse_log UnpackLog setRaw log =
     (let (event, err) = UnpackLog log
      in case err of Some m \<Rightarrow> Inl m | None \<Rightarrow> Inr (setRaw log event))"

text \<open>
  The goroutine of a subscription reads the logs, the error channel of the log subscription
  and the quit channel. One input is what its \<open>select\<close> receives; with a log comes what the inner
  \<open>select\<close> does: the sink takes the event, or the subscription ends first. When it has ended,
  the deferred \<open>Unsubscribe\<close> has run.
\<close>

datatype sink_input = Taken | Sink_Err "goerror option" | Sink_Quit

datatype watch_input = Log EthLog sink_input | Sub_Err "goerror option" | Quit

datatype watch_state = Watching | Ended "goerror option"

fun watch_loop ::
    "(EthLog \<Rightarrow> 'ev \<times> goerror option) \<Rightarrow> (EthLog \<Rightarrow> 'ev \<Rightarrow> 'ev) \<Rightarrow> watch_input list \<Rightarrow> 'ev list \<times> watch_state" where
  "watch_loop UnpackLog setRaw [] = ([], Watching)"
| "watch_loop UnpackLog setRaw (Log log sink # inputs) =
     (case parse_log UnpackLog setRaw log of
        Inl err \<Rightarrow> ([], Ended (Some err))
      | Inr event \<Rightarrow>
          (case sink of
             Taken \<Rightarrow> (let (events, st) = watch_loop UnpackLog setRaw inputs in (event # events, st))
           | Sink_Err err \<Rightarrow> ([], Ended err)
           | Sink_Quit \<Rightarrow> ([], Ended None)))"
| "watch_loop UnpackLog setRaw (Sub_Err err # inputs) = ([], Ended err)"
| "watch_loop UnpackLog setRaw (Quit # inputs) = ([], Ended None)"

definition watch_logs ::
    "'ev unpacker \<Rightarrow> (EthLog \<Rightarrow> 'ev \<Rightarrow> 'ev) \<Rightarrow> BoundContract \<Rightarrow> WatchOpts \<Rightarrow> string \<Rightarrow> abi_value list list
       \<Rightarrow> goerror + (watch_input list \<Rightarrow> 'ev list \<times> watch_state)" where
  "watch_logs UnpackLog setRaw c opts event rules =
     (case bc_WatchLogs c opts event rules of
        Some err \<Rightarrow> Inl err
      | None \<Rightarrow> Inr (watch_loop (UnpackLog c event) setRaw))"

section \<open>The events\<close>

subsection \<open>Approval\<close>

type_synonym TokenApprovalIterator = "TokenApproval TokenIterator"

definition TokenApprovalIterator_Next :: "bool \<Rightarrow> TokenApprovalIterator \<Rightarrow> (bool \<times> TokenApprovalIterator) exec" where
  "TokenApprovalIterator_Next =
     iterator_Next bc_UnpackApproval (\<lambda>log e. e\<lparr>approval_Raw := log\<rparr>)"

definition TokenApprovalIterator_Error :: "TokenApprovalIterator \<Rightarrow> goerror option" where
  "TokenApprovalIterator_Error = iterator_Error"

definition TokenApprovalIterator_Close :: "TokenApprovalIterator \<Rightarrow> goerror option \<times> TokenApprovalIterator" where
  "TokenApprovalIterator_Close = iterator_Close"

definition FilterApproval :: "TokenFilterer \<Rightarrow> FilterOpts \<Rightarrow> eth_address list \<Rightarrow> eth_address list \<Rightarrow> goerror + TokenApprovalIterator" where
  "FilterApproval t opts owner spender =
     filter_logs (filterer_contract t) opts ''Approval'' [map AbiAddress owner, map AbiAddress spender]"

definition WatchApproval ::
    "TokenFilterer \<Rightarrow> WatchOpts \<Rightarrow> eth_address list \<Rightarrow> eth_address list \<Rightarrow> goerror + (watch_input list \<Rightarrow> TokenApproval list \<times> watch_state)" where
  "WatchApproval t opts owner spender =
     watch_logs bc_UnpackApproval (\<lambda>log e. e\<lparr>approval_Raw := log\<rparr>)
       (filterer_contract t) opts ''Approval'' [map AbiAddress owner, map AbiAddress spender]"

definition ParseApproval :: "TokenFilterer \<Rightarrow> EthLog \<Rightarrow> goerror + TokenApproval" where
  "ParseApproval t = parse_log (bc_UnpackApproval (filterer_contract t) ''Approval'') (\<lambda>log e. e\<lparr>approval_Raw := log\<rparr>)"

subsection \<open>MinterAdded\<close>

type_synonym TokenMinterAddedIterator = "TokenMinterAdded TokenIterator"

definition TokenMinterAddedIterator_Next :: "bool \<Rightarrow> TokenMinterAddedIterator \<Rightarrow> (bool \<times> TokenMinterAddedIterator) exec" where
  "TokenMinterAddedIterator_Next =
     iterator_Next bc_UnpackMinterAdded (\<lambda>log e. e\<lparr>minterAdded_Raw := log\<rparr>)"

definition TokenMinterAddedIterator_Error :: "TokenMinterAddedIterator \<Rightarrow> goerror option" where
  "TokenMinterAddedIterator_Error = iterator_Error"

definition TokenMinterAddedIterator_Close :: "TokenMinterAddedIterator \<Rightarrow> goerror option \<times> TokenMinterAddedIterator" where
  "TokenMinterAddedIterator_Close = iterator_Close"

definition FilterMinterAdded :: "TokenFilterer \<Rightarrow> FilterOpts \<Rightarrow> eth_address list \<Rightarrow> goerror + TokenMinterAddedIterator" where
  "FilterMinterAdded t opts account =
     filter_logs (filterer_contract t) opts ''MinterAdded'' [map AbiAddress account]"

definition WatchMinterAdded ::
    "TokenFilterer \<Rightarrow> WatchOpts \<Rightarrow> eth_address list \<Rightarrow> goerror + (watch_input list \<Rightarrow> TokenMinterAdded list \<times> watch_state)" where
  "WatchMinterAdded t opts account =
     watch_logs bc_UnpackMinterAdded (\<lambda>log e. e\<lparr>minterAdded_Raw := log\<rparr>)
       (filterer_contract t) opts ''MinterAdded'' [map AbiAddress account]"

definition ParseMinterAdded :: "TokenFilterer \<Rightarrow> EthLog \<Rightarrow> goerror + TokenMinterAdded" where
  "ParseMinterAdded t = parse_log (bc_UnpackMinterAdded (filterer_contract t) ''MinterAdded'') (\<lambda>log e. e\<lparr>minterAdded_Raw := log\<rparr>)"

subsection \<open>MinterRemoved\<close>

type_synonym TokenMinterRemovedIterator = "TokenMinterRemoved TokenIterator"

definition TokenMinterRemovedIterator_Next :: "bool \<Rightarrow> TokenMinterRemovedIterator \<Rightarrow> (bool \<times> TokenMinterRemovedIterator) exec" where
  "TokenMinterRemovedIterator_Next =
     iterator_Next bc_UnpackMinterRemoved (\<lambda>log e. e\<lparr>minterRemoved_Raw := log\<rparr>)"

definition TokenMinterRemovedIterator_Error :: "TokenMinterRemovedIterator \<Rightarrow> goerror option" where
  "TokenMinterRemovedIterator_Error = iterator_Error"

definition TokenMinterRemovedIterator_Close :: "TokenMinterRemovedIterator \<Rightarrow> goerror option \<times> TokenMinterRemovedIterator" where
  "TokenMinterRemovedIterator_Close = iterator_Close"

definition FilterMinterRemoved :: "TokenFilterer \<Rightarrow> FilterOpts \<Rightarrow> eth_address list \<Rightarrow> goerror + TokenMinterRemovedIterator" where
  "FilterMinterRemoved t opts account =
     filter_logs (filterer_contract t) opts ''MinterRemoved'' [map AbiAddress account]"

definition WatchMinterRemoved ::
    "TokenFilterer \<Rightarrow> WatchOpts \<Rightarrow> eth_address list \<Rightarrow> goerror + (watch_input list \<Rightarrow> TokenMinterRemoved list \<times> watch_state)" where
  "WatchMinterRemoved t opts account =
     watch_logs bc_UnpackMinterRemoved (\<lambda>log e. e\<lparr>minterRemoved_Raw := log\<rparr>)
       (filterer_contract t) opts ''MinterRemoved'' [map AbiAddress account]"

definition ParseMinterRemoved :: "TokenFilterer \<Rightarrow> EthLog \<Rightarrow> goerror + TokenMinterRemoved" where
  "ParseMinterRemoved t = parse_log (bc_UnpackMinterRemoved (filterer_contract t) ''MinterRemoved'') (\<lambda>log e. e\<lparr>minterRemoved_Raw := log\<rparr>)"

subsection \<open>Paused\<close>

type_synonym TokenPausedIterator = "TokenPaused TokenIterator"

definition TokenPausedIterator_Next :: "bool \<Rightarrow> TokenPausedIterator \<Rightarrow> (bool \<times> TokenPausedIterator) exec" where
  "TokenPausedIterator_Next =
     iterator_Next bc_UnpackPaused (\<lambda>log e. e\<lparr>paused_Raw := log\<rparr>)"

definition TokenPausedIterator_Error :: "TokenPausedIterator \<Rightarrow> goerror option" where
  "TokenPausedIterator_Error = iterator_Error"

definition TokenPausedIterator_Close :: "TokenPausedIterator \<Rightarrow> goerror option \<times> TokenPausedIterator" where
  "TokenPausedIterator_Close = iterator_Close"

definition FilterPaused :: "TokenFilterer \<Rightarrow> FilterOpts \<Rightarrow> goerror + TokenPausedIterator" where
  "FilterPaused t opts =
     filter_logs (filterer_contract t) opts ''Paused'' []"

definition WatchPaused ::
    "TokenFilterer \<Rightarrow> WatchOpts \<Rightarrow> goerror + (watch_input list \<Rightarrow> TokenPaused list \<times> watch_state)" where
  "WatchPaused t opts =
     watch_logs bc_UnpackPaused (\<lambda>log e. e\<lparr>paused_Raw := log\<rparr>)
       (filterer_contract t) opts ''Paused'' []"

definition ParsePaused :: "TokenFilterer \<Rightarrow> EthLog \<Rightarrow> goerror + TokenPaused" where
  "ParsePaused t = parse_log (bc_UnpackPaused (filterer_contract t) ''Paused'') (\<lambda>log e. e\<lparr>paused_Raw := log\<rparr>)"

subsection \<open>PauserAdded\<close>

type_synonym TokenPauserAddedIterator = "TokenPauserAdded TokenIterator"

definition TokenPauserAddedIterator_Next :: "bool \<Rightarrow> TokenPauserAddedIterator \<Rightarrow> (bool \<times> TokenPauserAddedIterator) exec" where
  "TokenPauserAddedIterator_Next =
     iterator_Next bc_UnpackPauserAdded (\<lambda>log e. e\<lparr>pauserAdded_Raw := log\<rparr>)"

definition TokenPauserAddedIterator_Error :: "TokenPauserAddedIterator \<Rightarrow> goerror option" where
  "TokenPauserAddedIterator_Error = iterator_Error"

definition TokenPauserAddedIterator_Close :: "TokenPauserAddedIterator \<Rightarrow> goerror option \<times> TokenPauserAddedIterator" where
  "TokenPauserAddedIterator_Close = iterator_Close"

definition FilterPauserAdded :: "TokenFilterer \<Rightarrow> FilterOpts \<Rightarrow> eth_address list \<Rightarrow> goerror + TokenPauserAddedIterator" where
  "FilterPauserAdded t opts account =
     filter_logs (filterer_contract t) opts ''PauserAdded'' [map AbiAddress account]"

definition WatchPauserAdded ::
    "TokenFilterer \<Rightarrow> WatchOpts \<Rightarrow> eth_address list \<Rightarrow> goerror + (watch_input list \<Rightarrow> TokenPauserAdded list \<times> watch_state)" where
  "WatchPauserAdded t opts account =
     watch_logs bc_UnpackPauserAdded (\<lambda>log e. e\<lparr>pauserAdded_Raw := log\<rparr>)
       (filterer_contract t) opts ''PauserAdded'' [map AbiAddress account]"

definition ParsePauserAdded :: "TokenFilterer \<Rightarrow> EthLog \<Rightarrow> goerror + TokenPauserAdded" where
  "ParsePauserAdded t = parse_log (bc_UnpackPauserAdded (filterer_contract t) ''PauserAdded'') (\<lambda>log e. e\<lparr>pauserAdded_Raw := log\<rparr>)"

subsection \<open>PauserRemoved\<close>

type_synonym TokenPauserRemovedIterator = "TokenPauserRemoved TokenIterator"

definition TokenPauserRemovedIterator_Next :: "bool \<Rightarrow> TokenPauserRemovedIterator \<Rightarrow> (bool \<times> TokenPauserRemovedIterator) exec" where
  "TokenPauserRemovedIterator_Next =
     iterator_Next bc_UnpackPauserRemoved (\<lambda>log e. e\<lparr>pauserRemoved_Raw := log\<rparr>)"

definition TokenPauserRemovedIterator_Error :: "TokenPauserRemovedIterator \<Rightarrow> goerror option" where
  "TokenPauserRemovedIterator_Error = iterator_Error"

definition TokenPauserRemovedIterator_Close :: "TokenPauserRemovedIterator \<Rightarrow> goerror option \<times> TokenPauserRemovedIterator" where
  "TokenPauserRemovedIterator_Close = iterator_Close"

definition FilterPauserRemoved :: "TokenFilterer \<Rightarrow> FilterOpts \<Rightarrow> eth_address list \<Rightarrow> goerror + TokenPauserRemovedIterator" where
  "FilterPauserRemoved t opts account =
     filter_logs (filterer_contract t) opts ''PauserRemoved'' [map AbiAddress account]"

definition WatchPauserRemoved ::
    "TokenFilterer \<Rightarrow> WatchOpts \<Rightarrow> eth_address list \<Rightarrow> goerror + (watch_input list \<Rightarrow> TokenPauserRemoved list \<times> watch_state)" where
  "WatchPauserRemoved t opts account =
     watch_logs bc_UnpackPauserRemoved (\<lambda>log e. e\<lparr>pauserRemoved_Raw := log\<rparr>)
       (filterer_contract t) opts ''PauserRemoved'' [map AbiAddress account]"

definition ParsePauserRemoved :: "TokenFilterer \<Rightarrow> EthLog \<Rightarrow> goerror + TokenPauserRemoved" where
  "ParsePauserRemoved t = parse_log (bc_UnpackPauserRemoved (filterer_contract t) ''PauserRemoved'') (\<lambda>log e. e\<lparr>pauserRemoved_Raw := log\<rparr>)"

subsection \<open>Transfer\<close>

type_synonym TokenTransferIterator = "TokenTransfer TokenIterator"

definition TokenTransferIterator_Next :: "bool \<Rightarrow> TokenTransferIterator \<Rightarrow> (bool \<times> TokenTransferIterator) exec" where
  "TokenTransferIterator_Next =
     iterator_Next bc_UnpackTransfer (\<lambda>log e. e\<lparr>transfer_Raw := log\<rparr>)"

definition TokenTransferIterator_Error :: "TokenTransferIterator \<Rightarrow> goerror option" where
  "TokenTransferIterator_Error = iterator_Error"

definition TokenTransferIterator_Close :: "TokenTransferIterator \<Rightarrow> goerror option \<times> TokenTransferIterator" where
  "TokenTransferIterator_Close = iterator_Close"

definition FilterTransfer :: "TokenFilterer \<Rightarrow> FilterOpts \<Rightarrow> eth_address list \<Rightarrow> eth_address list \<Rightarrow> goerror + TokenTransferIterator" where
  "FilterTransfer t opts froms tos =
     filter_logs (filterer_contract t) opts ''Transfer'' [map AbiAddress froms, map AbiAddress tos]"

definition WatchTransfer ::
    "TokenFilterer \<Rightarrow> WatchOpts \<Rightarrow> eth_address list \<Rightarrow> eth_address list \<Rightarrow> goerror + (watch_input list \<Rightarrow> TokenTransfer list \<times> watch_state)" where
  "WatchTransfer t opts froms tos =
     watch_logs bc_UnpackTransfer (\<lambda>log e. e\<lparr>transfer_Raw := log\<rparr>)
       (filterer_contract t) opts ''Transfer'' [map AbiAddress froms, map AbiAddress tos]"

definition ParseTransfer :: "TokenFilterer \<Rightarrow> EthLog \<Rightarrow> goerror + TokenTransfer" where
  "ParseTransfer t = parse_log (bc_UnpackTransfer (filterer_contract t) ''Transfer'') (\<lambda>log e. e\<lparr>transfer_Raw := log\<rparr>)"

subsection \<open>Unpaused\<close>

type_synonym TokenUnpausedIterator = "TokenUnpaused TokenIterator"

definition TokenUnpausedIterator_Next :: "bool \<Rightarrow> TokenUnpausedIterator \<Rightarrow> (bool \<times> TokenUnpausedIterator) exec" where
  "TokenUnpausedIterator_Next =
     iterator_Next bc_UnpackUnpaused (\<lambda>log e. e\<lparr>unpaused_Raw := log\<rparr>)"

definition TokenUnpausedIterator_Error :: "TokenUnpausedIterator \<Rightarrow> goerror option" where
  "TokenUnpausedIterator_Error = iterator_Error"

definition TokenUnpausedIterator_Close :: "TokenUnpausedIterator \<Rightarrow> goerror option \<times> TokenUnpausedIterator" where
  "TokenUnpausedIterator_Close = iterator_Close"

definition FilterUnpaused :: "TokenFilterer \<Rightarrow> FilterOpts \<Rightarrow> goerror + TokenUnpausedIterator" where
  "FilterUnpaused t opts =
     filter_logs (filterer_contract t) opts ''Unpaused'' []"

definition WatchUnpaused ::
    "TokenFilterer \<Rightarrow> WatchOpts \<Rightarrow> goerror + (watch_input list \<Rightarrow> TokenUnpaused list \<times> watch_state)" where
  "WatchUnpaused t opts =
     watch_logs bc_UnpackUnpaused (\<lambda>log e. e\<lparr>unpaused_Raw := log\<rparr>)
       (filterer_contract t) opts ''Unpaused'' []"

definition ParseUnpaused :: "TokenFilterer \<Rightarrow> EthLog \<Rightarrow> goerror + TokenUnpaused" where
  "ParseUnpaused t = parse_log (bc_UnpackUnpaused (filterer_contract t) ''Unpaused'') (\<lambda>log e. e\<lparr>unpaused_Raw := log\<rparr>)"

section \<open>What a reader gets\<close>

text \<open>
  The loop \<open>for it.Next() { ... it.Event ... }\<close> over a sequence of moments, and whether it has
  ended. A call that finds nothing ready waits for the next moment.
\<close>

fun read_events ::
    "(bool \<Rightarrow> 'ev TokenIterator \<Rightarrow> (bool \<times> 'ev TokenIterator) exec) \<Rightarrow> moment list \<Rightarrow> 'ev TokenIterator
       \<Rightarrow> ('ev list \<times> bool \<times> 'ev TokenIterator) exec" where
  "read_events Next [] it = Done ([], False, it)"
| "read_events Next (m # ms) it =
     (case Next (mo_pick m) (pass m it) of
        Panic msg \<Rightarrow> Panic msg
      | Block \<Rightarrow> read_events Next ms (pass m it)
      | Done (again, it1) \<Rightarrow>
          if again then
            exec_bind (read_events Next ms it1) (\<lambda>(events, fin, it2).
              Done ((case it_Event it1 of None \<Rightarrow> events | Some event \<Rightarrow> event # events), fin, it2))
          else Done ([], True, it1))"

declare read_events.simps(2) [simp del]

text \<open>
  What a search delivers that comes to an end: the logs, how it ended, and the number of moments from
  the end on. The logs are all on the channel before it has ended.
\<close>

fun delivered :: "moment list \<Rightarrow> (EthLog list \<times> goerror option \<times> nat) option" where
  "delivered [] = None"
| "delivered (m # ms) =
     (case mo_end m of
        Some err \<Rightarrow> if \<forall>x \<in> set ms. mo_logs x = [] then Some (mo_logs m, err, Suc (length ms)) else None
      | None \<Rightarrow> (case delivered ms of None \<Rightarrow> None | Some (logs, err, n) \<Rightarrow> Some (mo_logs m @ logs, err, n)))"

text \<open>Parsing one log after the other, up to the first that does not parse.\<close>

fun parse_logs :: "(EthLog \<Rightarrow> goerror + 'ev) \<Rightarrow> EthLog list \<Rightarrow> 'ev list \<times> goerror option" where
  "parse_logs parse [] = ([], None)"
| "parse_logs parse (log # logs) =
     (case parse log of
        Inl err \<Rightarrow> ([], Some err)
      | Inr event \<Rightarrow> (let (events, err) = parse_logs parse logs in (event # events, err)))"

lemma take_log_parse:
  "take_log UnpackLog setRaw log rest it =
     (case parse_log (UnpackLog (it_contract it) (it_event it)) setRaw log of
        Inl m \<Rightarrow> (False, it\<lparr>it_logs := rest, it_Event := Some (fst (UnpackLog (it_contract it) (it_event it) log)), it_fail := Some m\<rparr>)
      | Inr event \<Rightarrow> (True, it\<lparr>it_logs := rest, it_Event := Some event\<rparr>))"
  by (auto simp: take_log_def parse_log_def split: prod.splits option.splits)

lemma pass_simps [simp]:
  "it_logs (pass m it) = it_logs it @ mo_logs m" "it_fail (pass m it) = it_fail it" "it_done (pass m it) = it_done it"
  "it_contract (pass m it) = it_contract it" "it_event (pass m it) = it_event it"
  "sub_Err (it_sub (pass m it)) = (case sub_Err (it_sub it) of None \<Rightarrow> mo_end m | Some err \<Rightarrow> Some err)"
  by (simp_all add: pass_def)

text \<open>The rest of a loop after what happened before a try.\<close>

definition read_from ::
    "(bool \<Rightarrow> 'ev TokenIterator \<Rightarrow> (bool \<times> 'ev TokenIterator) exec) \<Rightarrow> bool \<Rightarrow> moment list \<Rightarrow> 'ev TokenIterator
       \<Rightarrow> ('ev list \<times> bool \<times> 'ev TokenIterator) exec" where
  "read_from Next pick ms it =
     (case Next pick it of
        Panic msg \<Rightarrow> Panic msg
      | Block \<Rightarrow> read_events Next ms it
      | Done (again, it1) \<Rightarrow>
          if again then
            exec_bind (read_events Next ms it1) (\<lambda>(events, fin, it2).
              Done ((case it_Event it1 of None \<Rightarrow> events | Some event \<Rightarrow> event # events), fin, it2))
          else Done ([], True, it1))"

lemma read_events_from: "read_events Next (m # ms) it = read_from Next (mo_pick m) ms (pass m it)"
  by (simp add: read_from_def read_events.simps)

lemma read_done:
  assumes "it_fail it = None" and "it_done it" and "length (it_logs it) \<le> length ms" and "\<forall>m \<in> set ms. mo_logs m = []"
  shows "\<exists>it'. read_from (iterator_Next UnpackLog setRaw) pick ms it
      = Done (fst (parse_logs (parse_log (UnpackLog (it_contract it) (it_event it)) setRaw) (it_logs it)), True, it')
    \<and> it_fail it' = snd (parse_logs (parse_log (UnpackLog (it_contract it) (it_event it)) setRaw) (it_logs it))"
  using assms
proof (induction "it_logs it" arbitrary: it pick ms)
  case Nil
  then show ?case by (simp add: read_from_def iterator_Next.simps flip: Nil(1))
next
  case (Cons log rest)
  let ?f = "parse_log (UnpackLog (it_contract it) (it_event it)) setRaw"
  note logs = Cons.hyps(2) [symmetric]
  show ?case
  proof (cases "?f log")
    case (Inl m)
    then show ?thesis using Cons.prems logs by (simp add: read_from_def iterator_Next.simps take_log_parse)
  next
    case (Inr event)
    obtain m ms' where m: "ms = m # ms'" using Cons.prems(3) logs by (cases ms) simp_all
    then have ms: "ms = m # ms'" "length rest \<le> length ms'" "mo_logs m = []" "\<forall>x \<in> set ms'. mo_logs x = []"
      using Cons.prems(3,4) logs by simp_all
    let ?it = "pass m (it\<lparr>it_logs := rest, it_Event := Some event\<rparr>)"
    obtain it' where IH: "read_from (iterator_Next UnpackLog setRaw) (mo_pick m) ms' ?it = Done (fst (parse_logs ?f rest), True, it')"
        "it_fail it' = snd (parse_logs ?f rest)"
      using Cons.hyps(1) [of ?it ms' "mo_pick m"] Cons.prems(1,2) ms by auto
    have "iterator_Next UnpackLog setRaw pick it = Done (True, it\<lparr>it_logs := rest, it_Event := Some event\<rparr>)"
      using Cons.prems(1,2) logs Inr by (simp add: iterator_Next.simps [of _ _ _ it] take_log_parse)
    then have "read_from (iterator_Next UnpackLog setRaw) pick ms it = Done (event # fst (parse_logs ?f rest), True, it')"
      using IH(1) by (simp add: read_from_def [of _ _ _ it] ms(1) read_events_from)
    then show ?thesis using IH(2) logs Inr by (simp split: prod.splits)
  qed
qed

text \<open>What is still to come, for an iterator whose search may have ended already.\<close>

definition coming :: "moment list \<Rightarrow> 'ev TokenIterator \<Rightarrow> EthLog list \<Rightarrow> goerror option \<Rightarrow> nat \<Rightarrow> bool" where
  "coming ms it later err n \<longleftrightarrow>
     (case sub_Err (it_sub it) of
        Some err' \<Rightarrow> err' = err \<and> later = [] \<and> n = length ms \<and> (\<forall>m \<in> set ms. mo_logs m = [])
      | None \<Rightarrow> delivered ms = Some (later, err, n))"

lemma coming_pass:
  assumes "coming (m # ms) it later err n"
  obtains (ended) "sub_Err (it_sub (pass m it)) = Some err" and "it_logs (pass m it) = it_logs it @ later"
      and "n = Suc (length ms)" and "\<forall>x \<in> set ms. mo_logs x = []"
  | (live) later' where "sub_Err (it_sub (pass m it)) = None" and "it_logs (pass m it) @ later' = it_logs it @ later"
      and "delivered ms = Some (later', err, n)"
  using assms by (auto simp: coming_def split: option.splits if_splits)

lemma read_ends:
  assumes "it_fail it = None" and "\<not> it_done it" and "coming ms it later err n" and "length (it_logs it @ later) < n"
    and "parse_logs (parse_log (UnpackLog (it_contract it) (it_event it)) setRaw) (it_logs it @ later) = (parsed, bad)"
  shows "\<exists>events it'. read_events (iterator_Next UnpackLog setRaw) ms it = Done (events, True, it') \<and> prefix events parsed
    \<and> it_fail it' \<in> {bad, err} \<and> (it_fail it' = None \<or> err = None \<longrightarrow> events = parsed \<and> it_fail it' = bad)"
  using assms
proof (induction ms arbitrary: it parsed later n)
  case Nil
  then show ?case by (auto simp: coming_def split: option.splits)
next
  case (Cons m ms)
  let ?it = "pass m it" and ?f = "parse_log (UnpackLog (it_contract it) (it_event it)) setRaw"
  let ?goal = "\<lambda>r parsed. \<exists>events it'. r = Done (events, True, it') \<and> prefix events parsed
    \<and> it_fail it' \<in> {bad, err} \<and> (it_fail it' = None \<or> err = None \<longrightarrow> events = parsed \<and> it_fail it' = bad)"
  have took: "?goal (read_from (iterator_Next UnpackLog setRaw) (mo_pick m) ms ?it) parsed"
    if logs: "it_logs ?it = log # rest" and all: "it_logs ?it @ later' = it_logs it @ later"
      and n: "iterator_Next UnpackLog setRaw (mo_pick m) ?it = Done (take_log UnpackLog setRaw log rest ?it)"
      and c: "coming ms (?it\<lparr>it_logs := rest, it_Event := ev\<rparr>) later' err n'" and len: "length (rest @ later') < n'" for log rest later' n' ev
  proof (cases "?f log")
    case (Inl msg)
    then show ?thesis using n Cons.prems(5) unfolding logs all [symmetric] by (auto simp: read_from_def take_log_parse)
  next
    case (Inr event)
    let ?it2 = "?it\<lparr>it_logs := rest, it_Event := Some event\<rparr>"
    have c2: "coming ms ?it2 later' err n'" using c by (simp add: coming_def)
    obtain ps where ps: "parse_logs ?f (rest @ later') = (ps, bad)" "parsed = event # ps"
      using Cons.prems(5) Inr unfolding all [symmetric] logs by (auto split: prod.splits)
    then have "?goal (read_events (iterator_Next UnpackLog setRaw) ms ?it2) ps"
      using Cons.IH [of ?it2 later' n' ps] Cons.prems(1,2) c2 len by simp
    then show ?thesis using n Inr ps by (auto simp: read_from_def take_log_parse)
  qed
  from Cons.prems(3) have "?goal (read_from (iterator_Next UnpackLog setRaw) (mo_pick m) ms ?it) parsed"
  proof (cases rule: coming_pass)
    case ended
    let ?over = "?it\<lparr>it_done := True, it_fail := err\<rparr>"
    have over: ?thesis if "iterator_Next UnpackLog setRaw (mo_pick m) ?it = iterator_Next UnpackLog setRaw (mo_pick m) ?over"
    proof (cases err)
      case None
      have "read_from (iterator_Next UnpackLog setRaw) (mo_pick m) ms ?it = read_from (iterator_Next UnpackLog setRaw) (mo_pick m) ms ?over"
        if "iterator_Next UnpackLog setRaw (mo_pick m) ?over \<noteq> Block"
        using that \<open>iterator_Next UnpackLog setRaw (mo_pick m) ?it = _\<close> by (simp add: read_from_def split: exec.splits)
      moreover have "iterator_Next UnpackLog setRaw (mo_pick m) ?over \<noteq> Block"
        by (simp add: iterator_Next.simps split: list.splits)
      ultimately show ?thesis
        using read_done [of ?over ms UnpackLog setRaw "mo_pick m"] ended Cons.prems None by auto
    next
      case (Some msg)
      then show ?thesis unfolding read_from_def that by (simp add: iterator_Next.simps)
    qed
    show ?thesis
    proof (cases "it_logs ?it")
      case Nil
      then show ?thesis using over ended(1) Cons.prems(1,2) by (simp add: iterator_Next.simps [of _ _ _ ?it] del: pass_simps(1,6))
    next
      case (Cons log rest)
      show ?thesis
      proof (cases "mo_pick m")
        case True
        then show ?thesis using over ended(1) Cons.prems Cons \<open>it_fail it = None\<close> \<open>\<not> it_done it\<close>
          by (simp add: iterator_Next.simps [of _ _ _ ?it] del: pass_simps(1,6))
      next
        case False
        have len: "length (rest @ []) < length ms" using Cons ended \<open>length (it_logs it @ later) < n\<close> by (metis append_Nil2 length_Cons Suc_less_eq)
        have c: "coming ms (?it\<lparr>it_logs := rest, it_Event := None\<rparr>) [] err (length ms)"
          using ended(1,4) by (simp add: coming_def del: pass_simps(6))
        have n: "iterator_Next UnpackLog setRaw (mo_pick m) ?it = Done (take_log UnpackLog setRaw log rest ?it)"
          using False Cons ended(1) \<open>it_fail it = None\<close> \<open>\<not> it_done it\<close>
          by (simp add: iterator_Next.simps [of _ _ _ ?it] del: pass_simps(1,6))
        show ?thesis by (rule took [OF Cons _ n c len]) (use ended(2) in simp)
      qed
    qed
  next
    case (live later')
    show ?thesis
    proof (cases "it_logs ?it")
      case Nil
      then have "iterator_Next UnpackLog setRaw (mo_pick m) ?it = Block"
        using live(1) Cons.prems(1,2) by (simp add: iterator_Next.simps [of _ _ _ ?it] del: pass_simps(1,6))
      moreover have "coming ms ?it later' err n" using live(1,3) by (simp add: coming_def del: pass_simps(6))
      ultimately show ?thesis using Cons.IH [of ?it later' n parsed] Cons.prems(1,2,4,5) live(2)
        by (simp add: read_from_def del: pass_simps(1))
    next
      case (Cons log rest)
      have n: "iterator_Next UnpackLog setRaw (mo_pick m) ?it = Done (take_log UnpackLog setRaw log rest ?it)"
        using Cons live(1) \<open>it_fail it = None\<close> \<open>\<not> it_done it\<close> by (simp add: iterator_Next.simps [of _ _ _ ?it] del: pass_simps(1,6))
      have c: "coming ms (?it\<lparr>it_logs := rest, it_Event := None\<rparr>) later' err n"
        using live(1,3) by (simp add: coming_def del: pass_simps(6))
      have "length (it_logs ?it @ later') < n" using live(2) \<open>length (it_logs it @ later) < n\<close> by simp
      then have len: "length (rest @ later') < n" using Cons by (simp del: pass_simps(1))
      show ?thesis by (rule took [OF Cons live(2) n c len])
    qed
  qed
  then show ?case unfolding read_events_from .
qed

text \<open>A subscription forwards, in order, what the logs read before the end parse to.\<close>

fun input_logs :: "watch_input list \<Rightarrow> EthLog list" where
  "input_logs (Log log sink # inputs) = log # input_logs inputs"
| "input_logs _ = []"

lemma watch_loop_prefix: "prefix (fst (watch_loop UnpackLog setRaw inputs)) (fst (parse_logs (parse_log UnpackLog setRaw) (input_logs inputs)))"
proof (induction inputs)
  case (Cons i inputs)
  then show ?case by (cases i) (auto split: sum.splits sink_input.splits prod.splits)
qed simp

section \<open>Property\<close>

text \<open>
  C40: reading the transfers that \<open>FilterTransfer\<close> finds, while the search runs on its own and puts
  its logs on the channel at any moments. When the search comes to an end, so does the loop, as soon
  as it gets one more try than there are logs from there on. It gives the events in the order of
  the logs, each as \<open>ParseTransfer\<close> would give it, and stops at the first log that does not parse.
  When the search ended without an error, or the loop left none, every log up to there was read. When
  the search itself failed, logs that were found may be dropped, but then \<open>Error\<close> says so.
\<close>

theorem FilterTransfer_reads:
  assumes "bc_FilterLogs (filterer_contract t) opts ''Transfer'' [map AbiAddress froms, map AbiAddress tos] = Inr (found, sub)"
    and "sub_Err sub = None" and "delivered ms = Some (later, err, n)" and "length (found @ later) < n"
    and "parse_logs (ParseTransfer t) (found @ later) = (parsed, bad)"
  shows "\<exists>it events it'. FilterTransfer t opts froms tos = Inr it
    \<and> read_events TokenTransferIterator_Next ms it = Done (events, True, it') \<and> prefix events parsed
    \<and> TokenTransferIterator_Error it' \<in> {bad, err}
    \<and> (TokenTransferIterator_Error it' = None \<or> err = None \<longrightarrow> events = parsed \<and> TokenTransferIterator_Error it' = bad)"
proof -
  obtain it :: TokenTransferIterator where it: "FilterTransfer t opts froms tos = Inr it" "it_fail it = None" "\<not> it_done it"
    "it_sub it = sub" "it_logs it = found" "it_contract it = filterer_contract t" "it_event it = ''Transfer''"
    using assms(1) by (auto simp: FilterTransfer_def filter_logs_def)
  have c: "coming ms it later err n" using assms(2,3) it(4) by (simp add: coming_def)
  show ?thesis
    using read_ends [OF it(2,3) c, of bc_UnpackTransfer "\<lambda>log e. e\<lparr>transfer_Raw := log\<rparr>" parsed bad] assms(4,5) it
    by (auto simp: ParseTransfer_def TokenTransferIterator_Next_def TokenTransferIterator_Error_def iterator_Error_def)
qed

text \<open>
  Two logs, of which the second has no topics: one is found at once, the other after a moment in
  which nothing comes, and then the search ends.
\<close>

definition sample_log :: "bytes list \<Rightarrow> EthLog" where
  "sample_log topics = \<lparr>log_Address = [7], log_Topics = topics, log_Data = [5], log_BlockNumber = 1, log_TxHash = [3], log_Index = 0\<rparr>"

definition sample_filterer :: TokenFilterer where
  "sample_filterer = \<lparr>filterer_contract = (sample_contract [7])\<lparr>bc_FilterLogs :=
     (\<lambda>_ _ _. Inr ([sample_log [[1]]], \<lparr>sub_Err = None, sub_open = True\<rparr>))\<rparr>\<rparr>"

definition sample_moments :: "moment list" where
  "sample_moments = [\<lparr>mo_logs = [], mo_end = None, mo_pick = False\<rparr>, \<lparr>mo_logs = [], mo_end = None, mo_pick = True\<rparr>,
     \<lparr>mo_logs = [sample_log []], mo_end = Some None, mo_pick = True\<rparr>, \<lparr>mo_logs = [], mo_end = None, mo_pick = False\<rparr>,
     \<lparr>mo_logs = [], mo_end = None, mo_pick = False\<rparr>]"

theorem FilterTransfer_reads_witness:
  "\<exists>it it'. FilterTransfer sample_filterer \<lparr>fo_Start = 0, fo_End = None\<rparr> [[1]] [] = Inr it
    \<and> read_events TokenTransferIterator_Next sample_moments it =
        Done ([\<lparr>transfer_From = [1], transfer_To = [2], transfer_Value = 1, transfer_Raw = sample_log [[1]]\<rparr>], True, it')
    \<and> TokenTransferIterator_Error it' = Some ''no event signature''"
proof -
  have p: "parse_logs (ParseTransfer sample_filterer) ([sample_log [[1]]] @ [sample_log []]) =
    ([\<lparr>transfer_From = [1], transfer_To = [2], transfer_Value = 1, transfer_Raw = sample_log [[1]]\<rparr>], Some ''no event signature'')"
    by (simp add: ParseTransfer_def parse_log_def sample_filterer_def sample_contract_def sample_log_def)
  have f: "bc_FilterLogs (filterer_contract sample_filterer) opts ev rules =
    Inr ([sample_log [[1]]], \<lparr>sub_Err = None, sub_open = True\<rparr>)" for opts ev rules
    by (simp add: sample_filterer_def)
  have d: "delivered sample_moments = Some ([sample_log []], None, 3)" by (simp add: sample_moments_def)
  show ?thesis
    using FilterTransfer_reads [OF f _ d _ p, of "\<lparr>fo_Start = 0, fo_End = None\<rparr>" "[[1]]" "[]"] by auto
qed

end
