(* ===== verification/Jolt_Types.thy ===== *)
theory Jolt_Types
  imports Tss_Client Pub_Types Validators
begin

text \<open>
  \<open>joltifybridge/types.go\<close> and the pool operations of \<open>joltifybridge/tx_outbound.go\<close>: the
  requests of the Joltify side, the state \<open>JoltifyChainInstance\<close>, its retry pool, its queue
  of retired pools and its cache of the last two pools, with the interpretations of the
  three interfaces of \<open>Bridge_Queues\<close>. As on the public chain's side, clients are answered
  by parameters, each operation is one atomic step, and pointers are values.
\<close>

section \<open>Data\<close>

record OutBoundReq =
  or_txID :: string
  or_outReceiverAddress :: eth_address
  or_fromPoolAddr :: eth_address
  or_coin :: Coin
  or_blockHeight :: i64

record outboundTx =
  otx_outReceiverAddress :: eth_address
  otx_blockHeight :: u64
  otx_token :: Coin
  otx_fee :: Coin

text \<open>An account of the auth module; an account that never signed has no public key.\<close>

record Account =
  acc_Sequence :: u64
  acc_AccountNumber :: u64
  acc_PubKey :: "bytes option"

record MsgCreateCreatePool =
  mcp_Creator :: acc_address
  mcp_PoolPubKey :: string
  mcp_BlockHeight :: string

record tssPoolMsg =
  tpm_msg :: MsgCreateCreatePool
  tpm_acc :: Account
  tpm_poolPubKey :: string
  tpm_blockHeight :: i64

text \<open>
  \<open>validatorSet\<close> is nil until \<open>InitValidators\<close>. The nested structs of \<open>info\<close> are one record.
\<close>

record info =
  info_Address :: string
  info_PubKey_Type :: string
  info_PubKey_Value :: string
  info_VotingPower :: string

definition no_info :: info where
  "no_info = \<lparr>info_Address = [], info_PubKey_Type = [], info_PubKey_Value = [], info_VotingPower = []\<rparr>"

record JoltifyChainInstance =
  validatorSet :: "ValidatorSet option"
  myValidatorInfo :: info
  msgSendCache :: "tssPoolMsg list"
  jolt_lastTwoPools :: pool_pair
  OutboundReqChan :: "OutBoundReq chan"
  RetryOutboundReq :: "(nat \<times> OutBoundReq) list"
  jolt_moveFundReq :: "(i64, PoolInfo) syncmap"
  jolt_CurrentHeight :: i64

definition NewJoltifyBridge :: JoltifyChainInstance where
  "NewJoltifyBridge =
     \<lparr>validatorSet = None, myValidatorInfo = no_info, msgSendCache = [], jolt_lastTwoPools = (None, None),
      OutboundReqChan = [], RetryOutboundReq = [], jolt_moveFundReq = [], jolt_CurrentHeight = 0\<rparr>"

definition newOutboundReq ::
    "string \<Rightarrow> eth_address \<Rightarrow> eth_address \<Rightarrow> Coin \<Rightarrow> i64 \<Rightarrow> OutBoundReq" where
  "newOutboundReq txID address fromPoolAddr c blockHeight =
     \<lparr>or_txID = txID, or_outReceiverAddress = address, or_fromPoolAddr = fromPoolAddr,
      or_coin = c, or_blockHeight = blockHeight\<rparr>"

text \<open>\<open>blockHeight.Bytes()\<close> is the magnitude of the height; \<open>[]byte(txID)\<close> its characters.\<close>

definition outbound_Hash :: "ext \<Rightarrow> OutBoundReq \<Rightarrow> bytes" where
  "outbound_Hash e i =
     (let blockHeight = sint (or_blockHeight i)
      in Keccak256Hash e [or_outReceiverAddress i, or_fromPoolAddr i,
           map of_char (or_txID i), big_Bytes (nat \<bar>blockHeight\<bar>)])"

definition GetOutBoundInfo :: "OutBoundReq \<Rightarrow> eth_address \<times> eth_address \<times> int \<times> i64" where
  "GetOutBoundInfo obr =
     (or_outReceiverAddress obr, or_fromPoolAddr obr, Amount (or_coin obr), or_blockHeight obr)"

definition outbound_SetItemHeight :: "i64 \<Rightarrow> OutBoundReq \<Rightarrow> OutBoundReq" where
  "outbound_SetItemHeight h obr = obr\<lparr>or_blockHeight := h\<rparr>"

section \<open>The retry pool\<close>

definition outbound_key :: "ext \<Rightarrow> OutBoundReq \<Rightarrow> nat" where
  "outbound_key e r = HashBig e (outbound_Hash e r)"

definition jolt_AddItem :: "ext \<Rightarrow> OutBoundReq \<Rightarrow> JoltifyChainInstance \<Rightarrow> JoltifyChainInstance" where
  "jolt_AddItem e req jc = jc\<lparr>RetryOutboundReq := RetryOutboundReq jc @ [(outbound_key e req, req)]\<rparr>"

definition jolt_PopItem :: "JoltifyChainInstance \<Rightarrow> (OutBoundReq option \<times> JoltifyChainInstance) exec" where
  "jolt_PopItem jc =
     (let mx = scan_max (RetryOutboundReq jc)
      in if 0 < mx then
           (case take_first (\<lambda>(h, _). h = mx) (RetryOutboundReq jc) of
              None \<Rightarrow> Panic ''interface conversion: interface is nil''
            | Some ((_, item), rest) \<Rightarrow> Done (Some item, jc\<lparr>RetryOutboundReq := rest\<rparr>))
         else Done (None, jc))"

definition jolt_Size :: "JoltifyChainInstance \<Rightarrow> nat" where
  "jolt_Size jc = fold (\<lambda>_ i. i + 1) (RetryOutboundReq jc) 0"

section \<open>The queue of retired pools\<close>

definition jolt_AddMoveFundItem :: "PoolInfo \<Rightarrow> i64 \<Rightarrow> JoltifyChainInstance \<Rightarrow> JoltifyChainInstance" where
  "jolt_AddMoveFundItem pool height jc = jc\<lparr>jolt_moveFundReq := sm_Store height pool (jolt_moveFundReq jc)\<rparr>"

definition jolt_take_fund ::
    "i64 \<Rightarrow> JoltifyChainInstance \<Rightarrow> (PoolInfo option \<times> i64 \<times> JoltifyChainInstance) exec" where
  "jolt_take_fund mn jc =
     (case sm_LoadAndDelete mn (jolt_moveFundReq jc) of
        (None, _) \<Rightarrow> Panic ''interface conversion: interface is nil''
      | (Some item, m) \<Rightarrow> Done (Some item, mn, jc\<lparr>jolt_moveFundReq := m\<rparr>))"

definition jolt_PopMoveFundItem ::
    "JoltifyChainInstance \<Rightarrow> (PoolInfo option \<times> i64 \<times> JoltifyChainInstance) exec" where
  "jolt_PopMoveFundItem jc =
     (let mn = scan_min (jolt_moveFundReq jc)
      in if sint mn < sint int64_max then jolt_take_fund mn jc else Done (None, 0, jc))"

definition jolt_PopMoveFundItemAfterBlock ::
    "i64 \<Rightarrow> JoltifyChainInstance \<Rightarrow> (PoolInfo option \<times> i64 \<times> JoltifyChainInstance) exec" where
  "jolt_PopMoveFundItemAfterBlock current jc =
     (let mn = scan_min (jolt_moveFundReq jc)
      in if sint mn < sint int64_max \<and> due current mn then jolt_take_fund mn jc else Done (None, 0, jc))"

section \<open>The cache of the last two pools\<close>

text \<open>
  Unlike the public chain's \<open>UpdatePool\<close>, a nil pool is a nil dereference, the Ethereum
  address is derived first, and the result is the pool that slot 0 held before (nil when
  the update is refused).
\<close>

definition jolt_UpdatePool ::
    "ext \<Rightarrow> VaultPool option \<Rightarrow> JoltifyChainInstance \<Rightarrow> (PoolInfo option \<times> JoltifyChainInstance) exec" where
  "jolt_UpdatePool e pool jc =
     exec_bind (or_panic ''nil pointer dereference'' pool) (\<lambda>v.
     exec_bind (or_panic ''nil pointer dereference'' (CreatePool v)) (\<lambda>cp.
     case PoolPubKeyToEthAddress e (PoolPubKey cp) of
       Inl _ \<Rightarrow> Done (None, jc)
     | Inr ethAddr \<Rightarrow>
     (case PoolPubKeyToJoltAddress e (PoolPubKey cp) of
        Inl _ \<Rightarrow> Done (None, jc)
      | Inr addr \<Rightarrow>
     (let p = \<lparr>Pk = PoolPubKey cp, JoltifyAddress = addr, EthAddress = ethAddr, VaultInfo = Some v\<rparr>;
          (previousPool, latest) = jolt_lastTwoPools jc
      in Done (previousPool, jc\<lparr>jolt_lastTwoPools :=
           ((case latest of None \<Rightarrow> previousPool | Some q \<Rightarrow> Some q), Some p)\<rparr>)))))"

definition jolt_GetPool :: "JoltifyChainInstance \<Rightarrow> PoolInfo option list" where
  "jolt_GetPool jc = [fst (jolt_lastTwoPools jc), snd (jolt_lastTwoPools jc)]"

section \<open>The interfaces, discharged\<close>

definition jolt_retry_ok :: "ext \<Rightarrow> JoltifyChainInstance \<Rightarrow> bool" where
  "jolt_retry_ok e jc \<longleftrightarrow> (\<forall>(h, r) \<in> set (RetryOutboundReq jc). h = outbound_key e r)"

definition jolt_retry_bag :: "JoltifyChainInstance \<Rightarrow> OutBoundReq multiset" where
  "jolt_retry_bag jc = image_mset snd (mset (RetryOutboundReq jc))"

interpretation jolt_retry: retry_pool "jolt_AddItem e" jolt_PopItem jolt_Size "outbound_key e"
  jolt_retry_bag "jolt_retry_ok e" for e
proof unfold_locales
  fix s r0
  assume ok: "jolt_retry_ok e s" and r0: "r0 \<in># jolt_retry_bag s" "0 < outbound_key e r0"
  show "\<exists>r s'. jolt_PopItem s = Done (Some r, s') \<and> r \<in># jolt_retry_bag s
      \<and> (\<forall>x \<in># jolt_retry_bag s. outbound_key e x \<le> outbound_key e r)
      \<and> jolt_retry_bag s' = jolt_retry_bag s - {#r#} \<and> jolt_retry_ok e s'"
    by (rule retry_pop_some [OF ok [unfolded jolt_retry_ok_def] r0(1) [unfolded jolt_retry_bag_def] r0(2)])
      (auto simp: jolt_PopItem_def jolt_retry_bag_def jolt_retry_ok_def Let_def)
next
  fix s
  assume ok: "jolt_retry_ok e s" and r0: "\<forall>r \<in># jolt_retry_bag s. outbound_key e r = 0"
  show "jolt_PopItem s = Done (None, s)"
    using retry_pop_none [OF ok [unfolded jolt_retry_ok_def] r0 [unfolded jolt_retry_bag_def]]
    by (simp add: jolt_PopItem_def Let_def)
qed (simp_all add: jolt_AddItem_def jolt_Size_def jolt_retry_bag_def jolt_retry_ok_def fold_count)

definition jolt_fund_view :: "JoltifyChainInstance \<Rightarrow> i64 \<Rightarrow> PoolInfo option" where
  "jolt_fund_view jc = (\<lambda>h. sm_Load h (jolt_moveFundReq jc))"

definition jolt_fund_ok :: "JoltifyChainInstance \<Rightarrow> bool" where
  "jolt_fund_ok jc \<longleftrightarrow> sm_wf (jolt_moveFundReq jc)"

lemma jolt_take_fund_oldest:
  assumes "jolt_fund_ok s" and "oldest (jolt_fund_view s) h"
  shows "\<exists>s'. jolt_take_fund h s = Done (jolt_fund_view s h, h, s')
    \<and> jolt_fund_view s' = (jolt_fund_view s)(h := None) \<and> jolt_fund_ok s'"
  using assms
  by (auto simp: jolt_take_fund_def sm_LoadAndDelete_eq jolt_fund_view_def jolt_fund_ok_def oldest_def
      sm.load_del sm.wf_del fun_eq_iff split: option.splits)

interpretation jolt_fund: fund_queue jolt_AddMoveFundItem jolt_PopMoveFundItem
  jolt_PopMoveFundItemAfterBlock jolt_fund_view jolt_fund_ok
proof unfold_locales
  fix s :: JoltifyChainInstance and h c :: i64
  assume ok: "jolt_fund_ok s"
  note scan = oldest_scan_min [OF ok [unfolded jolt_fund_ok_def] jolt_fund_view_def]
  show "\<nexists>h. oldest (jolt_fund_view s) h \<Longrightarrow> jolt_PopMoveFundItem s = Done (None, 0, s)"
    using scan(1) by (auto simp: jolt_PopMoveFundItem_def Let_def)
  show "\<nexists>h. oldest (jolt_fund_view s) h \<and> due c h \<Longrightarrow> jolt_PopMoveFundItemAfterBlock c s = Done (None, 0, s)"
    using scan(1) by (auto simp: jolt_PopMoveFundItemAfterBlock_def Let_def)
  assume old: "oldest (jolt_fund_view s) h"
  then have mn: "scan_min (jolt_moveFundReq s) = h" and lt: "sint h < sint int64_max"
    using scan by auto
  show "\<exists>s'. jolt_PopMoveFundItem s = Done (jolt_fund_view s h, h, s')
      \<and> jolt_fund_view s' = (jolt_fund_view s)(h := None) \<and> jolt_fund_ok s'"
    using jolt_take_fund_oldest [OF ok old] mn lt by (simp add: jolt_PopMoveFundItem_def)
  show "due c h \<Longrightarrow> jolt_PopMoveFundItemAfterBlock c s = jolt_PopMoveFundItem s"
    using mn lt by (simp add: jolt_PopMoveFundItem_def jolt_PopMoveFundItemAfterBlock_def)
qed (auto simp: jolt_fund_view_def jolt_fund_ok_def jolt_AddMoveFundItem_def sm.load_store sm.wf_store fun_eq_iff)

definition jolt_upd :: "ext \<Rightarrow> VaultPool \<Rightarrow> JoltifyChainInstance \<Rightarrow> JoltifyChainInstance" where
  "jolt_upd e v jc = (case jolt_UpdatePool e (Some v) jc of Done (_, jc') \<Rightarrow> jc' | _ \<Rightarrow> jc)"

interpretation jolt_cache: pool_cache jolt_lastTwoPools "jolt_upd e" "pool_entry e" for e
  by unfold_locales
    (auto simp: jolt_upd_def jolt_UpdatePool_def pool_entry_def split: option.splits sum.splits prod.splits)

lemma jolt_UpdatePool_done:
  "CreatePool v \<noteq> None \<Longrightarrow> jolt_UpdatePool e (Some v) jc =
     Done (if pool_entry e v = None then None else fst (jolt_lastTwoPools jc), jolt_upd e v jc)"
  by (auto simp: jolt_upd_def jolt_UpdatePool_def pool_entry_def Let_def split: option.splits sum.splits prod.splits)

lemma jolt_upd_only_pools: "jolt_upd e v jc = jc\<lparr>jolt_lastTwoPools := jolt_lastTwoPools (jolt_upd e v jc)\<rparr>"
  by (cases "CreatePool v") (auto simp: jolt_upd_def jolt_UpdatePool_def Let_def split: option.splits sum.splits prod.splits)

section \<open>Properties\<close>

text \<open>
  Both chains' pool caches agree. Fed the same pools from empty caches, they hold the same
  last two accepted pools, and an update of the Joltify side returns the pool of slot 0
  before the update, the one that retires, except when the update is refused.
\<close>

theorem pool_caches_agree:
  "jolt_lastTwoPools (fold (jolt_upd e) vs NewJoltifyBridge)
     = pub_lastTwoPools (fold (pub_upd e) vs (NewChainInstance addr))
   \<and> (\<forall>jc v cp. CreatePool v = Some cp \<longrightarrow> jolt_UpdatePool e (Some v) jc =
        Done (if pool_entry e v = None then None else fst (jolt_lastTwoPools jc), jolt_upd e v jc))"
proof (rule conjI)
  have "jolt_lastTwoPools NewJoltifyBridge = (None, None)"
    and "pub_lastTwoPools (NewChainInstance addr) = (None, None)"
    by (simp_all add: NewJoltifyBridge_def NewChainInstance_def)
  then show "jolt_lastTwoPools (fold (jolt_upd e) vs NewJoltifyBridge)
     = pub_lastTwoPools (fold (pub_upd e) vs (NewChainInstance addr))"
    using jolt_cache.get_fold_upd pub_cache.get_fold_upd by metis
qed (simp add: jolt_UpdatePool_done)

theorem pool_caches_agree_witness:
  "jolt_UpdatePool sample_ext (Some \<lparr>vp_BlockHeight = ''7'', CreatePool = Some \<lparr>PoolPubKey = '''', PoolAddr = [1], Nodes = []\<rparr>\<rparr>)
     NewJoltifyBridge
   = Done (None, jolt_upd sample_ext
       \<lparr>vp_BlockHeight = ''7'', CreatePool = Some \<lparr>PoolPubKey = '''', PoolAddr = [1], Nodes = []\<rparr>\<rparr> NewJoltifyBridge)"
  using pool_caches_agree [THEN conjunct2, rule_format, of
      "\<lparr>vp_BlockHeight = ''7'', CreatePool = Some \<lparr>PoolPubKey = '''', PoolAddr = [1], Nodes = []\<rparr>\<rparr>"]
  by (simp add: NewJoltifyBridge_def)

text \<open>
  The outbound retry pool loses nothing and repeats nothing: popping as often as \<open>Size\<close>
  says returns every added request exactly once, larger hashes first.
\<close>

theorem jolt_retry_drain:
  assumes "\<forall>r \<in> set reqs. 0 < outbound_key e r"
  shows "\<exists>rs t. drain jolt_PopItem (length reqs) (fold (jolt_AddItem e) reqs NewJoltifyBridge) = Done (rs, t)
    \<and> mset rs = mset reqs \<and> jolt_Size t = 0 \<and> sorted_wrt (\<lambda>a b. outbound_key e b \<le> outbound_key e a) rs"
proof -
  let ?s = "fold (jolt_AddItem e) reqs NewJoltifyBridge"
  have "jolt_retry_ok e NewJoltifyBridge \<and> jolt_retry_bag NewJoltifyBridge = {#}"
    by (simp add: NewJoltifyBridge_def jolt_retry_ok_def jolt_retry_bag_def)
  then have s: "jolt_retry_ok e ?s" "jolt_retry_bag ?s = mset reqs"
    using jolt_retry.ok_fold_add jolt_retry.bag_fold_add by auto
  then have "jolt_Size ?s = length reqs" by (simp add: jolt_retry.size_bag)
  with jolt_retry.drain_all [OF s(1)] s(2) assms show ?thesis
    by (auto simp: jolt_retry.size_bag)
qed

theorem jolt_retry_drain_witness:
  "\<exists>rs t. drain jolt_PopItem 1 (fold (jolt_AddItem sample_ext)
       [newOutboundReq ''0a'' [1] [2] \<lparr>Denom = OutBoundDenom, Amount = 5\<rparr> 3] NewJoltifyBridge)
     = Done (rs, t) \<and> mset rs = {#newOutboundReq ''0a'' [1] [2] \<lparr>Denom = OutBoundDenom, Amount = 5\<rparr> 3#}"
proof -
  let ?rs = "[newOutboundReq ''0a'' [1] [2] \<lparr>Denom = OutBoundDenom, Amount = 5\<rparr> 3]"
  have "\<forall>r \<in> set ?rs. 0 < outbound_key sample_ext r"
    by (simp add: outbound_key_def outbound_Hash_def newOutboundReq_def big_SetBytes_def big_Bytes.simps)
  from jolt_retry_drain [OF this] show ?thesis by auto
qed

end
