(* ===== verification/Jolt_Query.thy ===== *)
theory Jolt_Query
  imports Jolt_Types
begin

text \<open>
  The queries of \<open>joltifybridge/helper.go\<close> and the methods of \<open>bridge.go\<close> and \<open>validator.go\<close>
  that pass them on. The gRPC client is a parameter: a record of what the chain answers to
  each request, an error or the fields of the response the code reads. A deadline that
  passes is an answer that is an error.
\<close>

text \<open>
  A validator of the chain's answer: its packed key, which \<open>UnpackAny\<close> turns into bytes, its
  printed address and its power.
\<close>

record TipValidator =
  tv_PubKeyAny :: bytes
  tv_Address :: string
  tv_VotingPower :: i64

text \<open>
  The pools of a response are a slice of pointers, the issued token and the block are
  pointers that may be nil. Of an issued token only its presence is read; of a block its
  height.
\<close>

record grpc_client =
  rpc_Account :: "string \<Rightarrow> goerror + bytes"
  rpc_UnpackAccount :: "bytes \<Rightarrow> goerror + Account"
  rpc_AllBalances :: "string \<Rightarrow> goerror + Coin list"
  rpc_GetLastPool :: "goerror + VaultPool option list"
  rpc_IssueToken :: "string \<Rightarrow> goerror + bytes option"
  rpc_GetLatestValidatorSet :: "goerror + i64 \<times> TipValidator list"
  rpc_GetLatestBlock :: "goerror + i64 option"

definition queryAccount :: "string \<Rightarrow> grpc_client \<Rightarrow> goerror + Account" where
  "queryAccount addr grpcClient =
     (case rpc_Account grpcClient addr of
        Inl err \<Rightarrow> Inl err
      | Inr accResp \<Rightarrow>
     (case rpc_UnpackAccount grpcClient accResp of
        Inl err \<Rightarrow> Inl err
      | Inr acc \<Rightarrow> Inr acc))"

definition queryBalance :: "string \<Rightarrow> grpc_client \<Rightarrow> goerror + Coin list" where
  "queryBalance addr grpcClient =
     (case rpc_AllBalances grpcClient addr of Inl err \<Rightarrow> Inl err | Inr balances \<Rightarrow> Inr balances)"

definition queryLastValidatorSet :: "grpc_client \<Rightarrow> goerror + VaultPool option list" where
  "queryLastValidatorSet grpcClient =
     (case rpc_GetLastPool grpcClient of Inl err \<Rightarrow> Inl err | Inr pools \<Rightarrow> Inr pools)"

definition queryGivenToeknIssueTx :: "grpc_client \<Rightarrow> string \<Rightarrow> goerror + bytes option" where
  "queryGivenToeknIssueTx grpcClient index =
     (case rpc_IssueToken grpcClient index of Inl err \<Rightarrow> Inl err | Inr issueToken \<Rightarrow> Inr issueToken)"

definition QueryTipValidator :: "grpc_client \<Rightarrow> goerror + i64 \<times> TipValidator list" where
  "QueryTipValidator grpcClient =
     (case rpc_GetLatestValidatorSet grpcClient of
        Inl err \<Rightarrow> Inl err
      | Inr (blockHeight, vals) \<Rightarrow> Inr (blockHeight, vals))"

definition GetLastBlockHeight :: "grpc_client \<Rightarrow> (goerror + i64) exec" where
  "GetLastBlockHeight grpcClient =
     (case rpc_GetLatestBlock grpcClient of
        Inl err \<Rightarrow> Done (Inl err)
      | Inr block \<Rightarrow>
          exec_bind (or_panic ''nil pointer dereference'' block) (\<lambda>height. Done (Inr height)))"

text \<open>The method of the bridge, on its own client.\<close>

definition jolt_GetLastBlockHeight :: "grpc_client \<Rightarrow> (goerror + i64) exec" where
  "jolt_GetLastBlockHeight grpcClient = exec_bind (GetLastBlockHeight grpcClient) (\<lambda>res. Done res)"

definition QueryLastPoolAddress :: "grpc_client \<Rightarrow> goerror + VaultPool option list" where
  "QueryLastPoolAddress grpcClient =
     (case queryLastValidatorSet grpcClient of Inl err \<Rightarrow> Inl err | Inr poolInfo \<Rightarrow> Inr poolInfo)"

definition CheckWhetherAlreadyExist :: "grpc_client \<Rightarrow> string \<Rightarrow> bool" where
  "CheckWhetherAlreadyExist grpcClient index =
     (case queryGivenToeknIssueTx grpcClient index of
        Inl _ \<Rightarrow> False
      | Inr ret \<Rightarrow> (case ret of Some _ \<Rightarrow> True | None \<Rightarrow> False))"

text \<open>A chain for the witnesses.\<close>

definition sample_grpc :: grpc_client where
  "sample_grpc = \<lparr>rpc_Account = (\<lambda>_. Inr [1]),
     rpc_UnpackAccount = (\<lambda>_. Inr \<lparr>acc_Sequence = 1, acc_AccountNumber = 2, acc_PubKey = Some [5]\<rparr>),
     rpc_AllBalances = (\<lambda>_. Inr [\<lparr>Denom = ''JUSD'', Amount = 7\<rparr>]),
     rpc_GetLastPool = Inl ''no pool'',
     rpc_IssueToken = (\<lambda>_. Inl ''not found''),
     rpc_GetLatestValidatorSet = Inr (7, [\<lparr>tv_PubKeyAny = [1], tv_Address = ''a'', tv_VotingPower = 9\<rparr>]),
     rpc_GetLatestBlock = Inr (Some 7)\<rparr>"

lemma sample_queries_run:
  "queryAccount a sample_grpc = Inr \<lparr>acc_Sequence = 1, acc_AccountNumber = 2, acc_PubKey = Some [5]\<rparr>"
  "queryBalance a sample_grpc = Inr [\<lparr>Denom = ''JUSD'', Amount = 7\<rparr>]"
  "CheckWhetherAlreadyExist sample_grpc i = False"
  by (simp_all add: queryAccount_def queryBalance_def CheckWhetherAlreadyExist_def queryGivenToeknIssueTx_def
      sample_grpc_def)

end
