(* ===== verification/Jolt_Outbound.thy ===== *)
theory Jolt_Outbound
  imports Jolt_Query
begin

text \<open>
  \<open>joltifybridge/tx_outbound.go\<close> and \<open>CheckOutBoundTx\<close> of \<open>joltifybridge/bridge.go\<close>: how a
  transaction of the Joltify chain becomes an outbound request. A bank transfer to one of
  the pools with exactly the outbound coin and the fee coin, and enough fee, is filed in
  the retry pool for the payer's own Ethereum address.

  The gRPC client, the transaction decoder and the transaction hash are parameters.
\<close>

section \<open>Data\<close>

record MsgSend =
  FromAddress :: string
  ToAddress :: string
  ms_Amount :: "Coin list"

datatype sdk_msg =
    BankSend MsgSend
  | CreatePoolMsg MsgCreateCreatePool
  | IssueTokenMsg string string string string
  | OtherMsg string

text \<open>
  \<open>TxDecoder\<close> answers with the messages of the transaction, \<open>None\<close> when it is not a
  \<open>TxWithMemo\<close>.
\<close>

record query_env =
  qe_grpc :: grpc_client
  TxDecoder :: "bytes \<Rightarrow> goerror + sdk_msg list option"
  TxHash :: "bytes \<Rightarrow> bytes"

definition big_String :: "int \<Rightarrow> string" where
  "big_String n = (if n < 0 then CHR ''-'' # nat_digits (nat (- n)) else nat_digits (nat n))"

section \<open>Operations\<close>

definition outbound_Verify :: "ext \<Rightarrow> outboundTx \<Rightarrow> goerror option exec" where
  "outbound_Verify e a =
     (if Denom (otx_fee a) \<noteq> OutBoundDenomFee then Done (Some ''invalid outbound fee denom'')
      else case NewDecFromStr e OUTBoundFeeOut of
        Inl _ \<Rightarrow> Done (Some ''invalid minimal inbound fee'')
      | Inr amount \<Rightarrow>
          exec_bind (or_panic ''NewIntFromBigInt() out of bound'' (NewIntFromBigInt e amount)) (\<lambda>m.
          if Amount (otx_fee a) < m
          then Done (Some (''the fee is not enough with '' @ big_String (Amount (otx_fee a)) @ ''<'' @ big_String amount))
          else Done None))"

definition processDemonAndFee ::
    "ext \<Rightarrow> string \<Rightarrow> i64 \<Rightarrow> acc_address \<Rightarrow> int \<Rightarrow> int \<Rightarrow> outboundTx option exec" where
  "processDemonAndFee e txID blockHeight fromAddress DemonAmount feeAmount =
     (let token = \<lparr>Denom = OutBoundDenom, Amount = DemonAmount\<rparr>;
          fee = \<lparr>Denom = OutBoundDenomFee, Amount = feeAmount\<rparr>;
          tx = \<lparr>otx_outReceiverAddress = BytesToAddress e fromAddress, otx_blockHeight = blockHeight,
                otx_token = token, otx_fee = fee\<rparr>
      in exec_bind (outbound_Verify e tx) (\<lambda>err.
           case err of Some _ \<Rightarrow> Done None | None \<Rightarrow> Done (Some tx)))"

text \<open>\<open>address\<close> is the slice of the two pool addresses.\<close>

definition processMsg ::
    "ext \<Rightarrow> query_env \<Rightarrow> i64 \<Rightarrow> acc_address \<times> acc_address \<Rightarrow> eth_address \<Rightarrow> MsgSend \<Rightarrow> bytes
       \<Rightarrow> JoltifyChainInstance \<Rightarrow> (goerror option \<times> JoltifyChainInstance) exec" where
  "processMsg e env blockHeight address curEthAddr msg txHash jc =
     (let txID = strings_ToLower (hex_EncodeToString txHash) in
      case AccAddressFromBech32 e (ToAddress msg) of Inl err \<Rightarrow> Done (Some err, jc) | Inr toAddress \<Rightarrow>
     (case queryAccount (FromAddress msg) (qe_grpc env) of Inl err \<Rightarrow> Done (Some err, jc) | Inr acc \<Rightarrow>
      exec_bind (or_panic ''nil pointer dereference'' (acc_PubKey acc)) (\<lambda>pk.
      case AccountPubKeyToEthAddress e pk of Inl err \<Rightarrow> Done (Some err, jc) | Inr fromEthAddr \<Rightarrow>
     (case AccAddressFromHex e (drop 2 (EthHex e fromEthAddr)) of Inl err \<Rightarrow> Done (Some err, jc) | Inr wrapFromEthAddr \<Rightarrow>
      if \<not> (toAddress = fst address \<or> toAddress = snd address)
      then Done (Some ''not a top up message to the pool'', jc)
      else if length (ms_Amount msg) = 2 then
        let c0 = ms_Amount msg ! 0; c1 = ms_Amount msg ! 1;
            first = Denom c0 = OutBoundDenom \<and> Denom c1 = OutBoundDenomFee;
            second = Denom c1 = OutBoundDenom \<and> Denom c0 = OutBoundDenomFee;
            (indexDemo, indexDemoFee) = (if second then (1, 0) else (0, 1))
        in if \<not> (first \<or> second) then Done (Some ''invalid fee pair'', jc)
           else exec_bind (processDemonAndFee e txID blockHeight wrapFromEthAddr
                  (Amount (ms_Amount msg ! indexDemo)) (Amount (ms_Amount msg ! indexDemoFee))) (\<lambda>item.
                case item of
                  Some it \<Rightarrow> Done (None, jolt_AddItem e
                    (newOutboundReq txID (otx_outReceiverAddress it) curEthAddr (otx_token it) blockHeight) jc)
                | None \<Rightarrow> Done (Some ''not enough fee'', jc))
      else Done (Some ''we only allow fee and top up in one tx now'', jc)))))"

text \<open>The errors of \<open>processMsg\<close> are logged and the loop goes on.\<close>

definition CheckOutBoundTx ::
    "ext \<Rightarrow> query_env \<Rightarrow> i64 \<Rightarrow> bytes \<Rightarrow> JoltifyChainInstance \<Rightarrow> JoltifyChainInstance exec" where
  "CheckOutBoundTx e env blockHeight rawTx jc =
     (case (jolt_GetPool jc ! 0, jolt_GetPool jc ! 1) of
        (Some p0, Some p1) \<Rightarrow>
          (case TxDecoder env rawTx of
             Inl _ \<Rightarrow> Done jc
           | Inr None \<Rightarrow> Done jc
           | Inr (Some msgs) \<Rightarrow>
               exec_fold (\<lambda>msg s. case msg of
                   BankSend eachMsg \<Rightarrow>
                     exec_bind (processMsg e env blockHeight (JoltifyAddress p0, JoltifyAddress p1)
                         (EthAddress p1) eachMsg (TxHash env rawTx) s)
                       (\<lambda>(_, s'). Done s')
                 | _ \<Rightarrow> Done s) msgs jc)
      | _ \<Rightarrow> Done jc)"

section \<open>Lemmas\<close>

lemma outbound_Verify_eq:
  assumes "sdk_ok M e"
  shows "outbound_Verify e a = Done
     (if Denom (otx_fee a) \<noteq> OutBoundDenomFee then Some ''invalid outbound fee denom''
      else if Amount (otx_fee a) < 10
      then Some (''the fee is not enough with '' @ big_String (Amount (otx_fee a)) @ ''<'' @ big_String 10) else None)"
  using assms by (simp add: outbound_Verify_def sdk_ok_min)

text \<open>What a message asks for, when it is a payable request to one of the pools.\<close>

definition outbound_claim ::
    "ext \<Rightarrow> query_env \<Rightarrow> PoolInfo \<times> PoolInfo \<Rightarrow> sdk_msg \<Rightarrow> (eth_address \<times> int) option" where
  "outbound_claim e env pools m =
     (case m of
        BankSend msg \<Rightarrow>
          (case (AccAddressFromBech32 e (ToAddress msg), queryAccount (FromAddress msg) (qe_grpc env)) of
             (Inr to, Inr acc) \<Rightarrow>
               (case acc_PubKey acc of
                  None \<Rightarrow> None
                | Some pk \<Rightarrow>
                    (case AccountPubKeyToEthAddress e pk of
                       Inl _ \<Rightarrow> None
                     | Inr eth \<Rightarrow>
                         (case AccAddressFromHex e (drop 2 (EthHex e eth)) of
                            Inl _ \<Rightarrow> None
                          | Inr wrapped \<Rightarrow>
                              if to \<in> {JoltifyAddress (fst pools), JoltifyAddress (snd pools)}
                              then (case ms_Amount msg of
                                 [a, b] \<Rightarrow>
                                   if Denom a = OutBoundDenom \<and> Denom b = OutBoundDenomFee \<and> 10 \<le> Amount b
                                   then Some (BytesToAddress e wrapped, Amount a)
                                   else if Denom b = OutBoundDenom \<and> Denom a = OutBoundDenomFee \<and> 10 \<le> Amount a
                                   then Some (BytesToAddress e wrapped, Amount b) else None
                               | _ \<Rightarrow> None)
                              else None)))
           | _ \<Rightarrow> None)
      | _ \<Rightarrow> None)"

definition claim_req :: "string \<Rightarrow> PoolInfo \<Rightarrow> i64 \<Rightarrow> eth_address \<times> int \<Rightarrow> OutBoundReq" where
  "claim_req txID latest h p =
     newOutboundReq txID (fst p) (EthAddress latest) \<lparr>Denom = OutBoundDenom, Amount = snd p\<rparr> h"

lemma denoms_differ: "OutBoundDenom \<noteq> OutBoundDenomFee"
  by (simp add: config_defs)

lemma processMsg_claim:
  assumes "sdk_ok M e"
    and run: "processMsg e env h (JoltifyAddress p0, JoltifyAddress p1) (EthAddress p1) msg txHash jc = Done (err, jc')"
  shows "(case outbound_claim e env (p0, p1) (BankSend msg) of
            None \<Rightarrow> jc' = jc \<and> err \<noteq> None
          | Some p \<Rightarrow> err = None \<and> jc' = jolt_AddItem e (claim_req (hex_EncodeToString txHash) p1 h p) jc)"
proof (cases "AccAddressFromBech32 e (ToAddress msg)")
  case (Inl m)
  then show ?thesis using run by (auto simp: processMsg_def outbound_claim_def)
next
  case to: (Inr to)
  show ?thesis
  proof (cases "queryAccount (FromAddress msg) (qe_grpc env)")
    case (Inl m)
    then show ?thesis using run to by (auto simp: processMsg_def outbound_claim_def)
  next
    case acc: (Inr acc)
    from run to acc obtain pk where pk: "acc_PubKey acc = Some pk"
      by (cases "acc_PubKey acc") (simp_all add: processMsg_def)
    show ?thesis
    proof (cases "AccountPubKeyToEthAddress e pk")
      case (Inl m)
      then show ?thesis using run to acc pk by (auto simp: processMsg_def outbound_claim_def)
    next
      case eth: (Inr eth)
      show ?thesis
      proof (cases "AccAddressFromHex e (drop 2 (EthHex e eth))")
        case (Inl m)
        then show ?thesis using run to acc pk eth by (auto simp: processMsg_def outbound_claim_def)
      next
        case w: (Inr wrapped)
        note facts = to acc pk eth w
        show ?thesis
        proof (cases "to \<in> {JoltifyAddress p0, JoltifyAddress p1} \<and> length (ms_Amount msg) = 2")
          case False
          have two: "(case xs of [a, b] \<Rightarrow> F a b | _ \<Rightarrow> None) = None"
            if "length xs \<noteq> 2" for xs and F :: "Coin \<Rightarrow> Coin \<Rightarrow> (eth_address \<times> int) option"
            using that by (auto split: list.split)
          have "outbound_claim e env (p0, p1) (BankSend msg) = None"
          proof (cases "length (ms_Amount msg) = 2")
            case True
            then have "to \<notin> {JoltifyAddress p0, JoltifyAddress p1}" using False by blast
            then show ?thesis using facts by (simp add: outbound_claim_def)
          next
            case False
            then show ?thesis using facts by (simp add: outbound_claim_def two)
          qed
          moreover have "jc' = jc \<and> err \<noteq> None"
            using run facts False by (auto simp: processMsg_def Let_def split: if_splits)
          ultimately show ?thesis by simp
        next
          case True
          then obtain a b where ab: "ms_Amount msg = [a, b]"
            by (auto simp: length_Suc_conv numeral_2_eq_2)
          from True have pool: "to = JoltifyAddress p0 \<or> to = JoltifyAddress p1" by simp
          show ?thesis
            using run facts ab pool denoms_differ assms(1)
            by (auto simp: processMsg_def outbound_claim_def processDemonAndFee_def outbound_Verify_eq Let_def
                claim_req_def split: if_splits)
        qed
      qed
    qed
  qed
qed

section \<open>Properties\<close>

lemma outbound_claim_other [simp]:
  "outbound_claim e env ps (CreatePoolMsg a) = None" "outbound_claim e env ps (IssueTokenMsg b c d f) = None"
  "outbound_claim e env ps (OtherMsg g) = None"
  by (simp_all add: outbound_claim_def)

lemma CheckOutBoundTx_fold:
  assumes "sdk_ok M e"
    and "exec_fold (\<lambda>msg s. case msg of
           BankSend eachMsg \<Rightarrow> exec_bind (processMsg e env h (JoltifyAddress p0, JoltifyAddress p1)
             (EthAddress p1) eachMsg txHash s) (\<lambda>(_, s'). Done s')
         | _ \<Rightarrow> Done s) msgs jc = Done jc'"
  shows "jc' = fold (jolt_AddItem e) (map (claim_req (hex_EncodeToString txHash) p1 h)
           (List.map_filter (outbound_claim e env (p0, p1)) msgs)) jc"
  using assms(2)
proof (induction msgs arbitrary: jc)
  case Nil
  then show ?case by (simp add: map_filter_simps)
next
  case (Cons m msgs)
  show ?case
  proof (cases m)
    case (BankSend msg)
    with Cons.prems obtain err jc1 where
      run: "processMsg e env h (JoltifyAddress p0, JoltifyAddress p1) (EthAddress p1) msg txHash jc = Done (err, jc1)"
      and rest: "exec_fold (\<lambda>msg s. case msg of
           BankSend eachMsg \<Rightarrow> exec_bind (processMsg e env h (JoltifyAddress p0, JoltifyAddress p1)
             (EthAddress p1) eachMsg txHash s) (\<lambda>(_, s'). Done s')
         | _ \<Rightarrow> Done s) msgs jc1 = Done jc'"
      by (auto simp: exec_bind_eq_Done_iff)
    show ?thesis
      using processMsg_claim [OF assms(1) run] Cons.IH [OF rest] BankSend
      by (auto simp: map_filter_simps split: option.splits)
  qed (use Cons in \<open>simp_all add: map_filter_simps\<close>)
qed

text \<open>
  C9: \<open>CheckOutBoundTx\<close> files exactly the payable messages. With both pools known, each bank
  transfer to one of them that carries exactly the outbound coin and the fee coin, in
  either order, with at least the minimal fee, is filed once, in order, for the Ethereum
  address of the sender's own key, the amount of the outbound coin and the latest pool;
  no other message files anything and nothing else of the state changes.
\<close>

theorem CheckOutBoundTx_exact:
  assumes "sdk_ok M e" and "jolt_lastTwoPools jc = (Some p0, Some p1)" and "TxDecoder env rawTx = Inr (Some msgs)"
    and "CheckOutBoundTx e env h rawTx jc = Done jc'"
  shows "jc' = fold (jolt_AddItem e)
     (map (claim_req (hex_EncodeToString (TxHash env rawTx)) p1 h)
        (List.map_filter (outbound_claim e env (p0, p1)) msgs)) jc"
  using assms(4)
  by (intro CheckOutBoundTx_fold [OF assms(1)]) (simp add: CheckOutBoundTx_def jolt_GetPool_def assms(2,3))

definition sample_queries :: query_env where
  "sample_queries = \<lparr>qe_grpc = sample_grpc,
     TxDecoder = (\<lambda>_. Inr (Some
       [BankSend \<lparr>FromAddress = ''a'', ToAddress = ''b'',
          ms_Amount = [\<lparr>Denom = ''JOLT'', Amount = 10\<rparr>, \<lparr>Denom = ''JUSD'', Amount = 77\<rparr>]\<rparr>,
        BankSend \<lparr>FromAddress = ''a'', ToAddress = ''b'',
          ms_Amount = [\<lparr>Denom = ''JOLT'', Amount = 9\<rparr>, \<lparr>Denom = ''JUSD'', Amount = 77\<rparr>]\<rparr>])),
     TxHash = (\<lambda>_. [5])\<rparr>"

definition sample_jc :: JoltifyChainInstance where
  "sample_jc = NewJoltifyBridge\<lparr>jolt_lastTwoPools :=
     (Some \<lparr>Pk = ''j'', JoltifyAddress = [97], EthAddress = [8], VaultInfo = None\<rparr>,
      Some \<lparr>Pk = ''k'', JoltifyAddress = [98], EthAddress = [9], VaultInfo = None\<rparr>)\<rparr>"

lemma sample_bech32: "AccAddressFromBech32 sample_ext ''b'' = Inr [98]"
  by (simp add: sample_ext_def)

lemma sample_CheckOutBoundTx:
  "CheckOutBoundTx sample_ext sample_queries 3 [] sample_jc =
     Done (jolt_AddItem sample_ext (newOutboundReq ''05'' [5] [9] \<lparr>Denom = ''JUSD'', Amount = 77\<rparr> 3) sample_jc)"
  by (simp add: CheckOutBoundTx_def jolt_GetPool_def sample_jc_def sample_queries_def processMsg_def
      AccountPubKeyToEthAddress_def sample_bech32 sample_queries_run hex.dec_enc processDemonAndFee_def Let_def
      outbound_Verify_eq [OF sample_ext_ok] config_defs
      del: hex_EncodeToString.simps hex_DecodeString.simps)
    (simp add: strings_ToLower_def char_to_lower_def hex_char_def hextable_def)

theorem CheckOutBoundTx_exact_witness:
  "\<exists>jc' msgs p0 p1. CheckOutBoundTx sample_ext sample_queries 3 [] sample_jc = Done jc'
     \<and> map snd (RetryOutboundReq jc') = [newOutboundReq ''05'' [5] [9] \<lparr>Denom = ''JUSD'', Amount = 77\<rparr> 3]
     \<and> TxDecoder sample_queries [] = Inr (Some msgs) \<and> length msgs = 2 \<and> jolt_lastTwoPools sample_jc = (Some p0, Some p1)
     \<and> jc' = fold (jolt_AddItem sample_ext) (map (claim_req (hex_EncodeToString (TxHash sample_queries [])) p1 3)
         (List.map_filter (outbound_claim sample_ext sample_queries (p0, p1)) msgs)) sample_jc"
proof -
  let ?p0 = "\<lparr>Pk = ''j'', JoltifyAddress = [97], EthAddress = [8], VaultInfo = None\<rparr>"
    and ?p1 = "\<lparr>Pk = ''k'', JoltifyAddress = [98], EthAddress = [9], VaultInfo = None\<rparr>"
    and ?jc = "jolt_AddItem sample_ext (newOutboundReq ''05'' [5] [9] \<lparr>Denom = ''JUSD'', Amount = 77\<rparr> 3) sample_jc"
  have pools: "jolt_lastTwoPools sample_jc = (Some ?p0, Some ?p1)" by (simp add: sample_jc_def)
  obtain msgs where msgs: "TxDecoder sample_queries [] = Inr (Some msgs)" "length msgs = 2" by (simp add: sample_queries_def)
  have filed: "map snd (RetryOutboundReq ?jc) = [newOutboundReq ''05'' [5] [9] \<lparr>Denom = ''JUSD'', Amount = 77\<rparr> 3]"
    by (simp add: jolt_AddItem_def sample_jc_def NewJoltifyBridge_def)
  show ?thesis
    using CheckOutBoundTx_exact [OF sample_ext_ok pools msgs(1) sample_CheckOutBoundTx] sample_CheckOutBoundTx filed msgs pools
    by (intro exI [of _ ?jc] exI [of _ msgs] exI [of _ ?p0] exI [of _ ?p1] conjI)
qed

end
