(* ===== verification/Jolt_Bridge.thy ===== *)
theory Jolt_Bridge
  imports Jolt_Outbound Pub_Inbound
begin

text \<open>
  \<open>joltifybridge/bridge.go\<close>, \<open>mint.go\<close>, \<open>event.go\<close>, \<open>validator.go\<close> and \<open>helper.go\<close>, and the
  fund moving of \<open>tx_outbound.go\<close>: transactions of the bridge on the Joltify chain (gas
  estimation, signing by the operator or by the pool key, broadcast), the submission of a
  new pool key, the minting of an inbound request, and the validator set.

  The chain's client, the keyring, the transaction builder and codec and the signature
  service are parameters (\<open>jolt_env\<close>); every byte string handed to \<open>BroadcastTx\<close> is appended
  to the explicit list \<open>sent\<close>.
\<close>

section \<open>Transactions and the chain's answers\<close>

text \<open>\<open>SignatureV2{}\<close> is the record with no key; its \<open>Data\<close> is nil.\<close>

record SignatureV2 =
  sv_PubKey :: "bytes option"
  sv_Data :: "bytes option option"
  sv_Sequence :: u64

definition empty_SignatureV2 :: SignatureV2 where
  "empty_SignatureV2 = \<lparr>sv_PubKey = None, sv_Data = None, sv_Sequence = 0\<rparr>"

record CosTx =
  ct_Msgs :: "sdk_msg list"
  ct_GasLimit :: u64
  ct_Sig :: "SignatureV2 option"

record SignerData =
  sd_ChainID :: string
  sd_AccountNumber :: u64
  sd_Sequence :: u64

record operator =
  op_Address :: acc_address
  op_PubKey :: bytes

record TxResponse =
  tr_Code :: nat
  tr_TxHash :: string

record jolt_env =
  je_grpc :: grpc_client
  NewTxBuilder :: CosTx
  SetMsgs :: "sdk_msg list \<Rightarrow> CosTx \<Rightarrow> goerror + CosTx"
  SetGasLimit :: "u64 \<Rightarrow> CosTx \<Rightarrow> CosTx"
  SetSignatures :: "SignatureV2 \<Rightarrow> CosTx \<Rightarrow> goerror + CosTx"
  KeyringKey :: "goerror + operator"
  KeyringSign :: "bytes \<Rightarrow> goerror + bytes \<times> bytes"
  GetSignBytes :: "SignerData \<Rightarrow> CosTx \<Rightarrow> goerror + bytes"
  Sha256 :: "bytes \<Rightarrow> bytes"
  TxEncoder :: "CosTx \<Rightarrow> goerror + bytes"
  Simulate :: "bytes \<Rightarrow> goerror + u64"
  RpcBroadcast :: "bytes \<Rightarrow> goerror + TxResponse"
  je_keysign :: keysign_service
  je_keygen :: keygen_service
  MarshalPubKey :: "bytes \<Rightarrow> goerror + string"
  CoinString :: "Coin \<Rightarrow> string"
  NewMsgCreateIssueToken :: "string \<Rightarrow> string \<Rightarrow> string \<Rightarrow> string \<Rightarrow> goerror + sdk_msg"

definition chainID :: string where
  "chainID = ''joltifyChain''"

section \<open>Signing\<close>

definition doTssSign :: "jolt_env \<Rightarrow> TssSignigMsg \<Rightarrow> goerror + keysign_response" where
  "doTssSign env msg =
     (case KeySign (je_keysign env) (sm_Pk msg) (sm_Msgs msg) (sm_BlockHeight msg) (sm_Signers msg) TssVersion of
        Inl err \<Rightarrow> Inl err
      | Inr resp \<Rightarrow> Inr resp)"

text \<open>
  When the service answers with another status than success, the \<open>err\<close> that is returned is
  nil: the caller gets an empty signature and no error.
\<close>

definition signTx ::
    "ext \<Rightarrow> jolt_env \<Rightarrow> CosTx \<Rightarrow> SignerData \<Rightarrow> TssSignigMsg option \<Rightarrow> (goerror + SignatureV2) exec" where
  "signTx e env tx signerData signMsg =
     (case GetSignBytes env signerData tx of
        Inl err \<Rightarrow> Done (Inl err)
      | Inr signBytes \<Rightarrow>
     (case signMsg of
        None \<Rightarrow>
          (case KeyringSign env signBytes of
             Inl err \<Rightarrow> Done (Inl err)
           | Inr (signature, pk) \<Rightarrow>
               Done (Inr \<lparr>sv_PubKey = Some pk, sv_Data = Some (Some signature), sv_Sequence = sd_Sequence signerData\<rparr>))
      | Some m \<Rightarrow>
          (let encodedMsg = base64_EncodeToString (Sha256 env signBytes);
               m1 = m\<lparr>sm_Msgs := [encodedMsg]\<rparr>
           in case doTssSign env m1 of
                Inl err \<Rightarrow> Done (Inl err)
              | Inr resp \<Rightarrow>
                  if \<not> ks_Success resp then Done (Inr empty_SignatureV2)
                  else if length (Signatures resp) \<noteq> 1 then Done (Inl ''more than 1 signature received'')
                  else exec_bind (SerializeSig e (hd (Signatures resp)) False) (\<lambda>r.
                       case r of
                         Inl err \<Rightarrow> Done (Inl err)
                       | Inr signature \<Rightarrow>
                           (case UnmarshalPubKey e (sm_Pk m1) of
                              Inl err \<Rightarrow> Done (Inl err)
                            | Inr pk \<Rightarrow> Done (Inr \<lparr>sv_PubKey = Some pk, sv_Data = Some (Some signature),
                                                sv_Sequence = sd_Sequence signerData\<rparr>))))))"

definition genSendTx ::
    "ext \<Rightarrow> jolt_env \<Rightarrow> sdk_msg list \<Rightarrow> u64 \<Rightarrow> u64 \<Rightarrow> u64 \<Rightarrow> TssSignigMsg option \<Rightarrow> (goerror + CosTx) exec" where
  "genSendTx e env sdkMsg accSeq accNum gasWanted tssSignMsg =
     (case SetMsgs env sdkMsg (NewTxBuilder env) of Inl err \<Rightarrow> Done (Inl err) | Inr b0 \<Rightarrow>
     (let b1 = SetGasLimit env gasWanted b0 in
      case KeyringKey env of Inl err \<Rightarrow> Done (Inl err) | Inr key \<Rightarrow>
     (case (case tssSignMsg of None \<Rightarrow> Inr (op_PubKey key) | Some m \<Rightarrow> UnmarshalPubKey e (sm_Pk m)) of
        Inl err \<Rightarrow> Done (Inl err)
      | Inr pk \<Rightarrow>
     (case SetSignatures env \<lparr>sv_PubKey = Some pk, sv_Data = Some None, sv_Sequence = accSeq\<rparr> b1 of
        Inl err \<Rightarrow> Done (Inl err)
      | Inr b2 \<Rightarrow>
          exec_bind (signTx e env b2 \<lparr>sd_ChainID = chainID, sd_AccountNumber = accNum, sd_Sequence = accSeq\<rparr> tssSignMsg) (\<lambda>r.
          case r of
            Inl err \<Rightarrow> Done (Inl err)
          | Inr signatureV2 \<Rightarrow>
              (case SetSignatures env signatureV2 b2 of
                 Inl err \<Rightarrow> Done (Inl err)
               | Inr b3 \<Rightarrow> Done (Inr b3)))))))"

section \<open>Gas and broadcast\<close>

definition SimBroadcastTx :: "jolt_env \<Rightarrow> bytes \<Rightarrow> goerror + u64" where
  "SimBroadcastTx env txbytes = (case Simulate env txbytes of Inl err \<Rightarrow> Inl err | Inr gasUsed \<Rightarrow> Inr gasUsed)"

definition GasEstimation ::
    "ext \<Rightarrow> jolt_env \<Rightarrow> sdk_msg list \<Rightarrow> u64 \<Rightarrow> TssSignigMsg option \<Rightarrow> (goerror + u64) exec" where
  "GasEstimation e env sdkMsg accSeq tssSignMsg =
     (case SetMsgs env sdkMsg (NewTxBuilder env) of Inl err \<Rightarrow> Done (Inl err) | Inr b0 \<Rightarrow>
     (let b1 = SetGasLimit env 200000 b0 in
      case KeyringKey env of Inl err \<Rightarrow> Done (Inl err) | Inr key \<Rightarrow>
     (case (case tssSignMsg of None \<Rightarrow> Inr (op_PubKey key) | Some m \<Rightarrow> UnmarshalPubKey e (sm_Pk m)) of
        Inl err \<Rightarrow> Done (Inl err)
      | Inr pubKey \<Rightarrow>
     (case SetSignatures env \<lparr>sv_PubKey = Some pubKey, sv_Data = Some None, sv_Sequence = accSeq\<rparr> b1 of
        Inl err \<Rightarrow> Done (Inl err)
      | Inr b2 \<Rightarrow>
     (case TxEncoder env b2 of Inl err \<Rightarrow> Done (Inl err) | Inr txBytes \<Rightarrow>
     (case SimBroadcastTx env txBytes of Inl err \<Rightarrow> Done (Inl err) | Inr gasUsed \<Rightarrow>
     (case NewDecFromStr e GASFEERATIO of Inl _ \<Rightarrow> Panic ''invalid decimal'' | Inr ratio \<Rightarrow>
      exec_bind (or_panic ''Int overflow'' (DecMul e (DecFromUint64 e gasUsed) ratio)) (\<lambda>d.
      exec_bind (or_panic ''Int64() out of bound'' (DecRoundInt64 e d)) (\<lambda>gasWanted.
      Done (Inr gasWanted))))))))))"

definition BroadcastTx ::
    "jolt_env \<Rightarrow> bytes \<Rightarrow> bytes list \<Rightarrow> (bool \<times> string \<times> goerror option) \<times> bytes list" where
  "BroadcastTx env txBytes sent =
     ((case RpcBroadcast env txBytes of
         Inl err \<Rightarrow> (False, [], Some err)
       | Inr resp \<Rightarrow> if tr_Code resp \<noteq> 0 then (False, [], None) else (True, tr_TxHash resp, None)),
      sent @ [txBytes])"

definition composeAndSend ::
    "ext \<Rightarrow> jolt_env \<Rightarrow> sdk_msg \<Rightarrow> u64 \<Rightarrow> u64 \<Rightarrow> TssSignigMsg option
       \<Rightarrow> bytes list \<Rightarrow> ((bool \<times> string \<times> goerror option) \<times> bytes list) exec" where
  "composeAndSend e env sendMsg accSeq accNum signMsg sent =
     exec_bind (GasEstimation e env [sendMsg] accSeq signMsg) (\<lambda>g.
     case g of Inl err \<Rightarrow> Done ((False, [], Some err), sent) | Inr gasWanted \<Rightarrow>
     exec_bind (genSendTx e env [sendMsg] accSeq accNum gasWanted signMsg) (\<lambda>b.
     case b of Inl err \<Rightarrow> Done ((False, [], Some err), sent) | Inr txBuilder \<Rightarrow>
     (case TxEncoder env txBuilder of
        Inl err \<Rightarrow> Done ((False, [], Some err), sent)
      | Inr txBytes \<Rightarrow> Done (BroadcastTx env txBytes sent))))"

section \<open>Submitting a new pool\<close>

definition prepareTssPool ::
    "ext \<Rightarrow> jolt_env \<Rightarrow> acc_address \<Rightarrow> string \<Rightarrow> string \<Rightarrow> JoltifyChainInstance
       \<Rightarrow> goerror option \<times> JoltifyChainInstance" where
  "prepareTssPool e env creator pubKey height jc =
     (let msg = \<lparr>mcp_Creator = creator, mcp_PoolPubKey = pubKey, mcp_BlockHeight = height\<rparr> in
      case queryAccount (AccString e creator) (je_grpc env) of Inl err \<Rightarrow> (Some err, jc) | Inr acc \<Rightarrow>
     (case ParseInt height of
        None \<Rightarrow> (Some ''invalid syntax'', jc)
      | Some dHeight \<Rightarrow>
          (let item = \<lparr>tpm_msg = msg, tpm_acc = acc, tpm_poolPubKey = pubKey, tpm_blockHeight = dHeight\<rparr>
           in (None, jc\<lparr>msgSendCache := msgSendCache jc @ [item]\<rparr>))))"

text \<open>Only the head of the cache is looked at; a failure before the broadcast leaves it there.\<close>

definition CheckAndUpdatePool ::
    "ext \<Rightarrow> jolt_env \<Rightarrow> i64 \<Rightarrow> JoltifyChainInstance \<Rightarrow> bytes list
       \<Rightarrow> ((bool \<times> string) \<times> JoltifyChainInstance \<times> bytes list) exec" where
  "CheckAndUpdatePool e env blockHeight jc sent =
     (case msgSendCache jc of
        [] \<Rightarrow> Done ((False, []), jc, sent)
      | el # rest \<Rightarrow>
          if tpm_blockHeight el \<noteq> blockHeight then Done ((False, []), jc, sent)
          else
            exec_bind (GasEstimation e env [CreatePoolMsg (tpm_msg el)] (acc_Sequence (tpm_acc el)) None) (\<lambda>g.
            case g of Inl _ \<Rightarrow> Done ((False, []), jc, sent) | Inr gasWanted \<Rightarrow>
            exec_bind (genSendTx e env [CreatePoolMsg (tpm_msg el)] (acc_Sequence (tpm_acc el))
                (acc_AccountNumber (tpm_acc el)) gasWanted None) (\<lambda>b.
            case b of Inl _ \<Rightarrow> Done ((False, []), jc, sent) | Inr txBuilder \<Rightarrow>
            (case TxEncoder env txBuilder of Inl _ \<Rightarrow> Done ((False, []), jc, sent) | Inr txBytes \<Rightarrow>
            (let ((ok, resp, err), sent') = BroadcastTx env txBytes sent;
                 jc1 = jc\<lparr>msgSendCache := rest\<rparr>
             in if err \<noteq> None \<or> \<not> ok then Done ((False, []), jc1, sent')
                else Done ((True, tpm_poolPubKey el), jc1, sent'))))))"

section \<open>Moving funds and minting\<close>

definition jolt_MoveFunds ::
    "ext \<Rightarrow> jolt_env \<Rightarrow> PoolInfo \<Rightarrow> acc_address \<Rightarrow> i64
       \<Rightarrow> bytes list \<Rightarrow> ((bool \<times> goerror option) \<times> bytes list) exec" where
  "jolt_MoveFunds e env fromPool to height sent =
     (let from = JoltifyAddress fromPool in
      case queryAccount (AccString e from) (je_grpc env) of Inl err \<Rightarrow> Done ((False, Some err), sent) | Inr acc \<Rightarrow>
     (case queryBalance (AccString e from) (je_grpc env) of Inl err \<Rightarrow> Done ((False, Some err), sent) | Inr coins \<Rightarrow>
      if coins = [] then Done ((True, None), sent)
      else
        let msg = BankSend \<lparr>FromAddress = AccString e from, ToAddress = AccString e to, ms_Amount = coins\<rparr>;
            signMsg = \<lparr>sm_Pk = Pk fromPool, sm_Msgs = [], sm_Signers = [], sm_BlockHeight = height,
                       sm_Version = TssVersion\<rparr>
        in exec_bind (composeAndSend e env msg (acc_Sequence acc) (acc_AccountNumber acc) (Some signMsg) sent)
             (\<lambda>((ok, resp, err), sent').
                if err \<noteq> None \<or> \<not> ok then Done ((False, Some ''fail to process the inbound tx''), sent')
                else Done ((False, None), sent'))))"

definition prepareIssueTokenRequest ::
    "ext \<Rightarrow> jolt_env \<Rightarrow> InboundReq \<Rightarrow> string \<Rightarrow> string \<Rightarrow> goerror + sdk_msg" where
  "prepareIssueTokenRequest e env item creatorAddr index =
     (let (userAddr, _, c, _) = GetInboundReqInfo item
      in NewMsgCreateIssueToken env creatorAddr index (CoinString env c) (AccString e userAddr))"

text \<open>The result is \<open>(txHash, index, err)\<close>.\<close>

definition ProcessInBound ::
    "ext \<Rightarrow> jolt_env \<Rightarrow> InboundReq \<Rightarrow> JoltifyChainInstance
       \<Rightarrow> bytes list \<Rightarrow> ((string \<times> string \<times> goerror option) \<times> bytes list) exec" where
  "ProcessInBound e env item jc sent =
     (case jolt_GetPool jc ! 0 of
        None \<Rightarrow> Done (([], [], Some ''not enough signer''), sent)
      | Some _ \<Rightarrow>
      exec_bind (or_panic ''nil pointer dereference'' (jolt_GetPool jc ! 1)) (\<lambda>pool1.
      case PoolPubKeyToJoltAddress e (Pk pool1) of
        Inl _ \<Rightarrow> Done (([], [], Some ''invalid address''), sent)
      | Inr joltCreatorAddr \<Rightarrow>
     (case queryAccount (AccString e (JoltifyAddress pool1)) (je_grpc env) of
        Inl _ \<Rightarrow> Done (([], [], Some ''invalid account query''), sent)
      | Inr acc \<Rightarrow>
     (let index = HashHex e (inbound_Hash e item) in
      if CheckWhetherAlreadyExist (je_grpc env) index then Done (([], [], None), sent)
      else case prepareIssueTokenRequest e env item (AccString e joltCreatorAddr) index of
        Inl err \<Rightarrow> Done (([], [], Some err), sent)
      | Inr issueReq \<Rightarrow>
          (let (_, _, _, height) = GetInboundReqInfo item;
               signMsg = \<lparr>sm_Pk = Pk pool1, sm_Msgs = [], sm_Signers = [], sm_BlockHeight = height,
                          sm_Version = TssVersion\<rparr>
           in exec_bind (composeAndSend e env issueReq (acc_Sequence acc) (acc_AccountNumber acc) (Some signMsg) sent)
                (\<lambda>((ok, txHash, err), sent').
                   if err \<noteq> None \<or> \<not> ok then Done (([], [], Some ''fail to process the inbound tx''), sent')
                   else Done ((txHash, index, None), sent')))))))"

section \<open>Who signs, and the status of a mint\<close>

definition CheckWhetherSigner :: "jolt_env \<Rightarrow> VaultPool option \<Rightarrow> (goerror + bool) exec" where
  "CheckWhetherSigner env lastPoolInfo =
     (case KeyringKey env of
        Inl err \<Rightarrow> Done (Inl err)
      | Inr creator \<Rightarrow>
          exec_bind (or_panic ''nil pointer dereference'' lastPoolInfo) (\<lambda>v.
          exec_bind (or_panic ''nil pointer dereference'' (CreatePool v)) (\<lambda>cp.
          Done (Inr (list_ex (\<lambda>eachValidator. eachValidator = op_Address creator) (Nodes cp))))))"

text \<open>Attempt k of the polling asks \<open>clients k\<close>, the chain as it is then.\<close>

definition jolt_CheckTxStatus ::
    "((nat \<Rightarrow> goerror option) \<Rightarrow> nat \<times> goerror option) \<Rightarrow> (nat \<Rightarrow> grpc_client) \<Rightarrow> string \<Rightarrow> goerror option" where
  "jolt_CheckTxStatus Retry clients index =
     (let op = (\<lambda>k. if CheckWhetherAlreadyExist (clients k) index then None
                    else Some ''fail to find the tx'')
      in snd (Retry op))"

section \<open>The validator set\<close>

definition UpdateLatestValidator ::
    "ext \<Rightarrow> TmValidator list \<Rightarrow> i64 \<Rightarrow> JoltifyChainInstance \<Rightarrow> (goerror option \<times> JoltifyChainInstance) exec" where
  "UpdateLatestValidator e updates height jc =
     exec_bind (or_panic ''nil pointer dereference'' (validatorSet jc)) (\<lambda>vs.
     let (err, vs') = UpdateValidatorSet e updates height vs
     in Done (err, jc\<lparr>validatorSet := Some vs'\<rparr>))"

definition GetLastValidator :: "JoltifyChainInstance \<Rightarrow> (Validator list \<times> i64) exec" where
  "GetLastValidator jc =
     exec_bind (or_panic ''nil pointer dereference'' (validatorSet jc)) (\<lambda>vs. Done (GetActiveValidators vs))"

text \<open>The loop that collects the public keys and looks for our own.\<close>

fun collect_pubkeys ::
    "jolt_env \<Rightarrow> string \<Rightarrow> Validator list \<Rightarrow> bool \<Rightarrow> string list \<Rightarrow> goerror + bool \<times> string list" where
  "collect_pubkeys env my [] doKeyGen pubkeys = Inr (doKeyGen, pubkeys)"
| "collect_pubkeys env my (el # els) doKeyGen pubkeys =
     (case MarshalPubKey env (val_PubKey el) of
        Inl err \<Rightarrow> Inl err
      | Inr pk \<Rightarrow>
     (case base64_DecodeString my of
        None \<Rightarrow> Inl ''illegal base64 data''
      | Some pkValidator \<Rightarrow>
          collect_pubkeys env my els (doKeyGen \<or> val_PubKey el = pkValidator) (pubkeys @ [pk])))"

definition HandleUpdateValidators ::
    "ext \<Rightarrow> jolt_env \<Rightarrow> TmValidator list \<Rightarrow> i64 \<Rightarrow> JoltifyChainInstance
       \<Rightarrow> (goerror option \<times> JoltifyChainInstance) exec" where
  "HandleUpdateValidators e env validatorUpdates height jc =
     exec_bind (UpdateLatestValidator e validatorUpdates height jc) (\<lambda>(err, jc1).
     case err of Some m \<Rightarrow> Done (Some m, jc1) | None \<Rightarrow>
     exec_bind (GetLastValidator jc1) (\<lambda>(lastValidators, blockHeight).
     case collect_pubkeys env (info_PubKey_Value (myValidatorInfo jc1)) lastValidators False [] of
       Inl m \<Rightarrow> Done (Some m, jc1)
     | Inr (doKeyGen, pubkeys) \<Rightarrow>
         if doKeyGen then
           (case KeyGen (je_keygen env) pubkeys blockHeight TssVersion of
              Inl m \<Rightarrow> Done (Some m, jc1)
            | Inr resp \<Rightarrow>
                if \<not> kg_Success resp then Done (None, jc1)
                else case KeyringKey env of
                  Inl m \<Rightarrow> Done (Some m, jc1)
                | Inr creator \<Rightarrow>
                    Done (prepareTssPool e env (op_Address creator) (kg_PubKey resp) (FormatInt (blockHeight + 1)) jc1))
         else Done (None, jc1)))"

fun local_validators ::
    "ext \<Rightarrow> (bytes \<Rightarrow> goerror + bytes) \<Rightarrow> TipValidator list \<Rightarrow> Validator list \<Rightarrow> goerror + Validator list" where
  "local_validators e UnpackAny [] localVals = Inr localVals"
| "local_validators e UnpackAny (el # els) localVals =
     (case UnpackAny (tv_PubKeyAny el) of
        Inl err \<Rightarrow> Inl err
      | Inr pk \<Rightarrow>
     (case ConsAddressFromBech32 e (tv_Address el) of
        Inl err \<Rightarrow> Inl err
      | Inr adr \<Rightarrow>
          local_validators e UnpackAny els
            (localVals @ [\<lparr>val_Address = adr, val_PubKey = pk, VotingPower = tv_VotingPower el\<rparr>])))"

definition doInitValidator ::
    "ext \<Rightarrow> (bytes \<Rightarrow> goerror + bytes) \<Rightarrow> info \<Rightarrow> i64 \<Rightarrow> TipValidator list \<Rightarrow> JoltifyChainInstance
       \<Rightarrow> goerror option \<times> JoltifyChainInstance" where
  "doInitValidator e UnpackAny i blockHeight vals jc =
     (let jc1 = jc\<lparr>myValidatorInfo := i, validatorSet := Some NewValidator\<rparr>
      in case local_validators e UnpackAny vals [] of
           Inl err \<Rightarrow> (Some err, jc1)
         | Inr localVals \<Rightarrow>
             (None, jc1\<lparr>validatorSet := Some (SetupValidatorSet e localVals blockHeight NewValidator)\<rparr>))"

text \<open>
  What the node answers while the validators are set up: whether it is syncing, in each
  round of the polling; whether it knows its own info; its status page, fetched from a
  URL, and what the page decodes to; the decoding of the packed keys. \<open>poll_time\<close> is how
  long a round takes beyond its sleep.
\<close>

record node_env =
  GetSyncing :: "nat \<Rightarrow> goerror + bool"
  poll_time :: "nat \<Rightarrow> nat"
  GetNodeInfo :: "goerror option"
  rest_GetRequest :: "string \<Rightarrow> goerror + bytes"
  json_info :: "bytes \<Rightarrow> goerror + info"
  UnpackPubKey :: "bytes \<Rightarrow> goerror + bytes"
  ne_grpc :: grpc_client

text \<open>
  Times are milliseconds since the context was made. A call that is made with a context whose
  deadline has passed is not made: it returns the context's error. (A call that is still
  open at the deadline may return that error too; that is one of the answers of \<open>node_env\<close>.)
\<close>

definition grpcTimeout :: nat where
  "grpcTimeout = 10000"

abbreviation deadline_error :: goerror where
  "deadline_error \<equiv> ''rpc error: code = DeadlineExceeded desc = context deadline exceeded''"

definition in_time :: "nat \<Rightarrow> goerror + 'a \<Rightarrow> goerror + 'a" where
  "in_time now answer = (if now < grpcTimeout then answer else Inl deadline_error)"

text \<open>
  \<open>InitValidators\<close> first polls until the node is synced. All polls and the call that follows
  share one context, and a round sleeps for five seconds at least. The result is the error,
  if any, and the time.
\<close>

function wait_synced :: "node_env \<Rightarrow> nat \<Rightarrow> nat \<Rightarrow> goerror option \<times> nat" where
  "wait_synced node now k =
     (case in_time now (GetSyncing node k) of
        Inl err \<Rightarrow> (Some err, now + poll_time node k)
      | Inr syncing \<Rightarrow>
          if \<not> syncing then (None, now + poll_time node k)
          else wait_synced node (now + poll_time node k + 5000) (Suc k))"
  by pat_completeness auto

termination
  by (relation "measure (\<lambda>(node, now, k). grpcTimeout - now)") (auto simp: in_time_def split: if_splits)

declare wait_synced.simps [simp del]

definition InitValidators ::
    "ext \<Rightarrow> node_env \<Rightarrow> string \<Rightarrow> JoltifyChainInstance \<Rightarrow> goerror option \<times> JoltifyChainInstance" where
  "InitValidators e node addr jc =
     (case wait_synced node 0 0 of (Some err, _) \<Rightarrow> (Some err, jc) | (None, now) \<Rightarrow>
     (case in_time now (case GetNodeInfo node of Some err \<Rightarrow> Inl err | None \<Rightarrow> Inr ()) of Inl err \<Rightarrow> (Some err, jc) | Inr _ \<Rightarrow>
     (case rest_GetRequest node (addr @ ''/status'') of Inl err \<Rightarrow> (Some err, jc) | Inr restRes \<Rightarrow>
     (case json_info node restRes of Inl err \<Rightarrow> (Some err, jc) | Inr info \<Rightarrow>
     (case QueryTipValidator (ne_grpc node) of Inl err \<Rightarrow> (Some err, jc) | Inr (blockHeight, vals) \<Rightarrow>
        doInitValidator e (UnpackPubKey node) info blockHeight vals jc)))))"

text \<open>There is time for at most two polls: the third comes ten seconds after the first or later.\<close>

lemma wait_synced_polls:
  "wait_synced node 0 0 =
     (case GetSyncing node 0 of
        Inl err \<Rightarrow> (Some err, poll_time node 0)
      | Inr False \<Rightarrow> (None, poll_time node 0)
      | Inr True \<Rightarrow>
          let t1 = poll_time node 0 + 5000
          in if 10000 \<le> t1 then (Some deadline_error, t1 + poll_time node 1)
             else case GetSyncing node 1 of
                    Inl err \<Rightarrow> (Some err, t1 + poll_time node 1)
                  | Inr False \<Rightarrow> (None, t1 + poll_time node 1)
                  | Inr True \<Rightarrow> (Some deadline_error, t1 + poll_time node 1 + 5000 + poll_time node 2))"
  by (simp add: wait_synced.simps [of node 0 0] wait_synced.simps [of node _ "Suc 0"] wait_synced.simps [of node _ "Suc (Suc 0)"]
      in_time_def grpcTimeout_def Let_def numeral_2_eq_2 split: sum.split bool.split)

end
