(* ===== verification/Jolt_Bridge_Correct.thy ===== *)
theory Jolt_Bridge_Correct
  imports Jolt_Bridge Pub_Send
begin

text \<open>
  The properties of the bridge's own transactions on the Joltify chain: what a broadcast
  carries and who signed it, moving the funds of a retired pool, minting, the submission of
  new pools, and the validator set.
\<close>

section \<open>What is broadcast\<close>

text \<open>
  What the code relies on of the transaction builder: it keeps the messages, and refuses a
  signature without a key.
\<close>

definition builder_ok :: "jolt_env \<Rightarrow> bool" where
  "builder_ok env \<longleftrightarrow>
     (\<forall>ms b b'. SetMsgs env ms b = Inr b' \<longrightarrow> ct_Msgs b' = ms)
   \<and> (\<forall>g b. SetGasLimit env g b = b\<lparr>ct_GasLimit := g\<rparr>)
   \<and> (\<forall>s b b'. SetSignatures env s b = Inr b' \<longrightarrow> sv_PubKey s \<noteq> None \<and> b' = b\<lparr>ct_Sig := Some s\<rparr>)"

lemma builder_okD:
  assumes "builder_ok env"
  shows "SetMsgs env ms b = Inr b' \<Longrightarrow> ct_Msgs b' = ms"
    and "SetGasLimit env g b = b\<lparr>ct_GasLimit := g\<rparr>"
    and "SetSignatures env s b = Inr b' \<Longrightarrow> sv_PubKey s \<noteq> None \<and> b' = b\<lparr>ct_Sig := Some s\<rparr>"
  using assms unfolding builder_ok_def by blast+

text \<open>
  A transaction whose signature is the service's successful answer for the key of \<open>m\<close>, over
  the hash of the transaction's own sign bytes.
\<close>

definition tss_signed :: "ext \<Rightarrow> jolt_env \<Rightarrow> TssSignigMsg \<Rightarrow> CosTx \<Rightarrow> bool" where
  "tss_signed e env m tx \<longleftrightarrow> (\<exists>sd tx0 signBytes resp sg s pk seq.
     ct_Msgs tx0 = ct_Msgs tx \<and> ct_GasLimit tx0 = ct_GasLimit tx
     \<and> GetSignBytes env sd tx0 = Inr signBytes
     \<and> KeySign (je_keysign env) (sm_Pk m) [base64_EncodeToString (Sha256 env signBytes)] (sm_BlockHeight m)
          (sm_Signers m) TssVersion = Inr resp
     \<and> ks_Success resp \<and> Signatures resp = [sg] \<and> SerializeSig e sg False = Done (Inr s)
     \<and> UnmarshalPubKey e (sm_Pk m) = Inr pk
     \<and> ct_Sig tx = Some \<lparr>sv_PubKey = Some pk, sv_Data = Some (Some s), sv_Sequence = seq\<rparr>)"

lemma signTx_tss:
  assumes "signTx e env tx sd (Some m) = Done (Inr sv)" and "sv_PubKey sv \<noteq> None"
  shows "\<exists>signBytes resp sg s pk.
     GetSignBytes env sd tx = Inr signBytes
     \<and> KeySign (je_keysign env) (sm_Pk m) [base64_EncodeToString (Sha256 env signBytes)] (sm_BlockHeight m)
          (sm_Signers m) TssVersion = Inr resp
     \<and> ks_Success resp \<and> Signatures resp = [sg] \<and> SerializeSig e sg False = Done (Inr s)
     \<and> UnmarshalPubKey e (sm_Pk m) = Inr pk
     \<and> sv = \<lparr>sv_PubKey = Some pk, sv_Data = Some (Some s), sv_Sequence = sd_Sequence sd\<rparr>"
proof (cases "GetSignBytes env sd tx")
  case (Inl err)
  then show ?thesis using assms by (simp add: signTx_def)
next
  case (Inr signBytes)
  let ?m = "m\<lparr>sm_Msgs := [base64_EncodeToString (Sha256 env signBytes)]\<rparr>"
  show ?thesis
  proof (cases "doTssSign env ?m")
    case (Inl err)
    then show ?thesis using assms Inr by (simp add: signTx_def)
  next
    case tss: (Inr resp)
    have one: "ks_Success resp \<and> length (Signatures resp) = 1"
      using assms Inr tss by (auto simp: signTx_def empty_SignatureV2_def split: if_splits)
    then obtain sg where sg: "Signatures resp = [sg]" by (auto simp: length_Suc_conv)
    have "exec_bind (SerializeSig e sg False) (\<lambda>r.
         case r of Inl err \<Rightarrow> Done (Inl err)
         | Inr signature \<Rightarrow> (case UnmarshalPubKey e (sm_Pk m) of Inl err \<Rightarrow> Done (Inl err)
            | Inr pk \<Rightarrow> Done (Inr \<lparr>sv_PubKey = Some pk, sv_Data = Some (Some signature),
                                sv_Sequence = sd_Sequence sd\<rparr>))) = Done (Inr sv)"
      using assms(1) Inr tss one sg by (simp add: signTx_def)
    then obtain s pk where "SerializeSig e sg False = Done (Inr s)" "UnmarshalPubKey e (sm_Pk m) = Inr pk"
      "sv = \<lparr>sv_PubKey = Some pk, sv_Data = Some (Some s), sv_Sequence = sd_Sequence sd\<rparr>"
      by (auto simp: exec_bind_sum_Done_iff case_sum_eq_iff)
    moreover have "KeySign (je_keysign env) (sm_Pk m) [base64_EncodeToString (Sha256 env signBytes)] (sm_BlockHeight m)
        (sm_Signers m) TssVersion = Inr resp"
      using tss by (auto simp: doTssSign_def split: sum.splits)
    ultimately show ?thesis using Inr one sg by blast
  qed
qed

lemma genSendTx_tss:
  assumes "builder_ok env" and "genSendTx e env [msg] accSeq accNum gas (Some m) = Done (Inr tx)"
  shows "ct_Msgs tx = [msg] \<and> ct_GasLimit tx = gas \<and> tss_signed e env m tx"
proof (cases "SetMsgs env [msg] (NewTxBuilder env)")
  case (Inl err)
  then show ?thesis using assms(2) by (simp add: genSendTx_def)
next
  case b0: (Inr b0)
  show ?thesis
  proof (cases "KeyringKey env")
    case (Inl err)
    then show ?thesis using assms(2) b0 by (simp add: genSendTx_def)
  next
    case key: (Inr key)
    show ?thesis
    proof (cases "UnmarshalPubKey e (sm_Pk m)")
      case (Inl err)
      then show ?thesis using assms(2) b0 key by (simp add: genSendTx_def)
    next
      case pk: (Inr pk)
      let ?s0 = "\<lparr>sv_PubKey = Some pk, sv_Data = Some None, sv_Sequence = accSeq\<rparr>"
      let ?sd = "\<lparr>sd_ChainID = chainID, sd_AccountNumber = accNum, sd_Sequence = accSeq\<rparr>"
      show ?thesis
      proof (cases "SetSignatures env ?s0 (SetGasLimit env gas b0)")
        case (Inl err)
        then show ?thesis using assms(2) b0 key pk by (simp add: genSendTx_def)
      next
        case b2: (Inr b2)
        have f: "ct_Msgs b2 = [msg]" "ct_GasLimit b2 = gas"
          using builder_okD(1) [OF assms(1) b0] builder_okD(2) [OF assms(1)] builder_okD(3) [OF assms(1) b2] by auto
        have "exec_bind (signTx e env b2 ?sd (Some m)) (\<lambda>r. case r of Inl err \<Rightarrow> Done (Inl err)
            | Inr sv \<Rightarrow> (case SetSignatures env sv b2 of Inl err \<Rightarrow> Done (Inl err) | Inr b3 \<Rightarrow> Done (Inr b3)))
            = Done (Inr tx)"
          using assms(2) b0 key pk b2 by (simp add: genSendTx_def)
        then obtain sv where sv: "signTx e env b2 ?sd (Some m) = Done (Inr sv)" "SetSignatures env sv b2 = Inr tx"
          by (auto simp: exec_bind_sum_Done_iff case_sum_eq_iff)
        have tx: "tx = b2\<lparr>ct_Sig := Some sv\<rparr>" "sv_PubKey sv \<noteq> None" using builder_okD(3) [OF assms(1) sv(2)] by auto
        have "tss_signed e env m tx"
          unfolding tss_signed_def using signTx_tss [OF sv(1) tx(2)] tx(1) f by fastforce
        then show ?thesis using tx f by simp
      qed
    qed
  qed
qed

text \<open>What one composed and sent transaction can do.\<close>

lemma composeAndSend_cases:
  assumes "builder_ok env"
    and "composeAndSend e env msg accSeq accNum (Some m) sent = Done ((ok, hash, err), sent')"
  obtains (nothing) x where "sent' = sent" and "\<not> ok" and "err = Some x"
  | (one) tx txBytes where "TxEncoder env tx = Inr txBytes" and "sent' = sent @ [txBytes]"
      and "ct_Msgs tx = [msg]" and "tss_signed e env m tx"
      and "(ok, hash, err) = fst (BroadcastTx env txBytes sent)"
proof -
  have cases: "(\<exists>x. sent' = sent \<and> \<not> ok \<and> err = Some x)
      \<or> (\<exists>g tx. genSendTx e env [msg] accSeq accNum g (Some m) = Done (Inr tx)
           \<and> (case TxEncoder env tx of Inl err \<Rightarrow> Done ((False, [], Some err), sent)
              | Inr txBytes \<Rightarrow> Done (BroadcastTx env txBytes sent)) = Done ((ok, hash, err), sent'))"
    using assms(2) unfolding composeAndSend_def exec_bind_sum_Done_iff by auto
  show thesis
  proof (cases "\<exists>x. sent' = sent \<and> \<not> ok \<and> err = Some x")
    case True
    then obtain x where "sent' = sent" "\<not> ok" "err = Some x" by blast
    then show thesis by (rule nothing)
  next
    case False
    with cases obtain g tx where gen: "genSendTx e env [msg] accSeq accNum g (Some m) = Done (Inr tx)"
      and enc: "(case TxEncoder env tx of Inl err \<Rightarrow> Done ((False, [], Some err), sent)
         | Inr txBytes \<Rightarrow> Done (BroadcastTx env txBytes sent)) = Done ((ok, hash, err), sent')" by blast
    from enc False obtain txBytes where tx: "TxEncoder env tx = Inr txBytes"
      "BroadcastTx env txBytes sent = ((ok, hash, err), sent')"
      by (cases "TxEncoder env tx") auto
    then have "sent' = sent @ [txBytes]" by (simp add: BroadcastTx_def)
    with tx genSendTx_tss [OF assms(1) gen] show thesis
      by (intro one [of tx txBytes]) simp_all
  qed
qed

section \<open>Moving funds and minting\<close>

definition pool_signMsg :: "string \<Rightarrow> i64 \<Rightarrow> TssSignigMsg" where
  "pool_signMsg pk h = \<lparr>sm_Pk = pk, sm_Msgs = [], sm_Signers = [], sm_BlockHeight = h, sm_Version = TssVersion\<rparr>"

text \<open>
  C14: moving the funds of a retired pool on the Joltify chain. One call broadcasts at most one
  transaction: the transfer of the pool's whole balance to the receiver, signed by the
  service with that pool's key over its own sign bytes. The pool is reported empty exactly
  when the chain answered that it has no coins, and then nothing is broadcast.
\<close>

theorem jolt_MoveFunds_safe:
  assumes "builder_ok env" and "jolt_MoveFunds e env pool to h sent = Done ((isempty, err), sent')"
  shows "(sent' = sent \<or> (\<exists>tx txBytes coins. sent' = sent @ [txBytes] \<and> TxEncoder env tx = Inr txBytes
        \<and> queryBalance (AccString e (JoltifyAddress pool)) (je_grpc env) = Inr coins \<and> coins \<noteq> []
        \<and> ct_Msgs tx = [BankSend \<lparr>FromAddress = AccString e (JoltifyAddress pool), ToAddress = AccString e to,
             ms_Amount = coins\<rparr>]
        \<and> tss_signed e env (pool_signMsg (Pk pool) h) tx))
    \<and> (isempty \<longleftrightarrow> sent' = sent \<and> err = None)
    \<and> (isempty \<longrightarrow> queryBalance (AccString e (JoltifyAddress pool)) (je_grpc env) = Inr [])"
proof (cases "queryAccount (AccString e (JoltifyAddress pool)) (je_grpc env)")
  case (Inl m)
  then show ?thesis using assms(2) by (auto simp: jolt_MoveFunds_def)
next
  case acc: (Inr acc)
  show ?thesis
  proof (cases "queryBalance (AccString e (JoltifyAddress pool)) (je_grpc env)")
    case (Inl m)
    then show ?thesis using assms(2) acc by (auto simp: jolt_MoveFunds_def)
  next
    case coins: (Inr coins)
    show ?thesis
    proof (cases "coins = []")
      case True
      then show ?thesis using assms(2) acc coins by (auto simp: jolt_MoveFunds_def)
    next
      case ne: False
      let ?msg = "BankSend \<lparr>FromAddress = AccString e (JoltifyAddress pool), ToAddress = AccString e to, ms_Amount = coins\<rparr>"
      from assms(2) acc coins ne obtain ok resp er where
        c: "composeAndSend e env ?msg (acc_Sequence acc) (acc_AccountNumber acc) (Some (pool_signMsg (Pk pool) h)) sent
            = Done ((ok, resp, er), sent')"
        and r: "\<not> isempty" "err = (if er \<noteq> None \<or> \<not> ok then Some ''fail to process the inbound tx'' else None)"
        by (auto simp: jolt_MoveFunds_def pool_signMsg_def exec_bind_eq_Done_iff Let_def split: if_splits)
      from assms(1) c show ?thesis
      proof (cases rule: composeAndSend_cases)
        case (nothing x)
        then show ?thesis using r by simp
      next
        case (one tx txBytes)
        then show ?thesis using r coins ne by auto
      qed
    qed
  qed
qed

lemma ProcessInBound_cases:
  assumes "ProcessInBound e env item jc sent = Done ((hash, index, err), sent')"
  defines "idx \<equiv> HashHex e (inbound_Hash e item)"
  obtains (refused) "sent' = sent" and "hash = []" and "index = []" and "err \<noteq> None"
  | (minted) "sent' = sent" and "hash = []" and "index = []" and "CheckWhetherAlreadyExist (je_grpc env) idx"
  | (composed) pool creator and acc :: Account and msg ok th er where "snd (jolt_lastTwoPools jc) = Some pool"
      and "\<not> CheckWhetherAlreadyExist (je_grpc env) idx" and "PoolPubKeyToJoltAddress e (Pk pool) = Inr creator"
      and "NewMsgCreateIssueToken env (AccString e creator) idx (CoinString env (ir_coin item))
            (AccString e (ir_address item)) = Inr msg"
      and "composeAndSend e env msg (acc_Sequence acc) (acc_AccountNumber acc)
            (Some (pool_signMsg (Pk pool) (ir_blockHeight item))) sent = Done ((ok, th, er), sent')"
      and "(hash, index, err) = (if er \<noteq> None \<or> \<not> ok
            then ([], [], Some ''fail to process the inbound tx'') else (th, idx, None))"
proof (cases "fst (jolt_lastTwoPools jc)")
  case None
  with assms(1) have "sent' = sent \<and> hash = [] \<and> index = [] \<and> err \<noteq> None"
    by (auto simp: ProcessInBound_def jolt_GetPool_def)
  then show thesis using refused by blast
next
  case (Some q)
  note run = assms(1) [unfolded ProcessInBound_def, folded idx_def]
  from run Some obtain pool where p1: "snd (jolt_lastTwoPools jc) = Some pool"
    by (cases "snd (jolt_lastTwoPools jc)") (simp_all add: jolt_GetPool_def)
  note run = run [unfolded jolt_GetPool_def Some p1, simplified, folded idx_def]
  show thesis
  proof (cases "PoolPubKeyToJoltAddress e (Pk pool)")
    case (Inl m)
    with run have "sent' = sent \<and> hash = [] \<and> index = [] \<and> err \<noteq> None" by auto
    then show thesis using refused by blast
  next
    case creator: (Inr creator)
    show thesis
    proof (cases "queryAccount (AccString e (JoltifyAddress pool)) (je_grpc env)")
      case (Inl m)
      with run creator have "sent' = sent \<and> hash = [] \<and> index = [] \<and> err \<noteq> None" by auto
      then show thesis using refused by blast
    next
      case acc: (Inr acc)
      show thesis
      proof (cases "CheckWhetherAlreadyExist (je_grpc env) idx")
        case True
        with run creator acc have "sent' = sent \<and> hash = [] \<and> index = []" by (auto simp: Let_def)
        then show thesis using minted True by blast
      next
        case new: False
        show thesis
        proof (cases "prepareIssueTokenRequest e env item (AccString e creator) idx")
          case (Inl m)
          with run creator acc new have "sent' = sent \<and> hash = [] \<and> index = [] \<and> err \<noteq> None"
            by (auto simp: Let_def)
          then show thesis using refused by blast
        next
          case msg: (Inr msg)
          from run creator acc new msg obtain ok th er where
            c: "composeAndSend e env msg (acc_Sequence acc) (acc_AccountNumber acc)
                  (Some (pool_signMsg (Pk pool) (ir_blockHeight item))) sent = Done ((ok, th, er), sent')"
            and r: "(hash, index, err) = (if er \<noteq> None \<or> \<not> ok
                  then ([], [], Some ''fail to process the inbound tx'') else (th, idx, None))"
            by (auto simp: pool_signMsg_def GetInboundReqInfo_def exec_bind_eq_Done_iff Let_def split: if_splits)
          have "NewMsgCreateIssueToken env (AccString e creator) idx (CoinString env (ir_coin item))
              (AccString e (ir_address item)) = Inr msg"
            using msg by (simp add: prepareIssueTokenRequest_def GetInboundReqInfo_def)
          with p1 new creator c r show thesis by (intro composed)
        qed
      qed
    qed
  qed
qed

text \<open>
  C10: minting. \<open>ProcessInBound\<close> broadcasts at most one transaction, and none when the chain
  already has a mint with this request's index. The transaction it broadcasts mints the
  request's coin for the request's address under the index that is the request's hash, and
  is signed with the latest pool's key. It returns no error only when the chain accepted
  that transaction, or had the mint already; in that case the index it returns is empty.
\<close>

theorem ProcessInBound_mints_once:
  assumes "builder_ok env" and "ProcessInBound e env item jc sent = Done ((hash, index, err), sent')"
  defines "idx \<equiv> HashHex e (inbound_Hash e item)"
  shows "(sent' = sent \<and> hash = [] \<and> index = [] \<and> (err = None \<longrightarrow> CheckWhetherAlreadyExist (je_grpc env) idx))
    \<or> (\<exists>pool creator msg tx txBytes. snd (jolt_lastTwoPools jc) = Some pool
        \<and> \<not> CheckWhetherAlreadyExist (je_grpc env) idx \<and> PoolPubKeyToJoltAddress e (Pk pool) = Inr creator
        \<and> NewMsgCreateIssueToken env (AccString e creator) idx (CoinString env (ir_coin item))
            (AccString e (ir_address item)) = Inr msg
        \<and> sent' = sent @ [txBytes] \<and> TxEncoder env tx = Inr txBytes \<and> ct_Msgs tx = [msg]
        \<and> tss_signed e env (pool_signMsg (Pk pool) (ir_blockHeight item)) tx
        \<and> (err = None \<longrightarrow> index = idx \<and>
             (\<exists>resp. RpcBroadcast env txBytes = Inr resp \<and> tr_Code resp = 0 \<and> hash = tr_TxHash resp)))"
  using assms(2)
proof (cases rule: ProcessInBound_cases)
  case (composed pool creator acc msg ok th er)
  from assms(1) composed(5) show ?thesis
  proof (cases rule: composeAndSend_cases)
    case (nothing x)
    then show ?thesis using composed(6) by auto
  next
    case (one tx txBytes)
    have "err = None \<longrightarrow> index = idx \<and>
        (\<exists>resp. RpcBroadcast env txBytes = Inr resp \<and> tr_Code resp = 0 \<and> hash = tr_TxHash resp)"
      using composed(6) one(5) unfolding idx_def by (auto simp: BroadcastTx_def split: sum.splits if_splits)
    then show ?thesis using one(1-4) composed(1-4) unfolding idx_def by fastforce
  qed
qed (auto simp: idx_def)

text \<open>
  C32: a failed threshold signature. When the service answers with another status than success,
  \<open>signTx\<close> reports no error: it returns an empty signature. What stops the transaction is
  only that the builder refuses a signature without a key; then nothing is broadcast.
\<close>

theorem signTx_failed_status:
  assumes "builder_ok env" and "\<forall>req resp. je_keysign env req = Inr resp \<longrightarrow> \<not> ks_Success resp"
  shows "(\<forall>signBytes resp. GetSignBytes env sd tx = Inr signBytes
        \<longrightarrow> doTssSign env (m\<lparr>sm_Msgs := [base64_EncodeToString (Sha256 env signBytes)]\<rparr>) = Inr resp
        \<longrightarrow> signTx e env tx sd (Some m) = Done (Inr empty_SignatureV2))
    \<and> (\<forall>ok hash err sent'. composeAndSend e env msg accSeq accNum (Some m) sent = Done ((ok, hash, err), sent')
        \<longrightarrow> \<not> ok \<and> err \<noteq> None \<and> sent' = sent)"
proof (intro conjI allI impI)
  fix signBytes resp
  assume sb: "GetSignBytes env sd tx = Inr signBytes"
    and r: "doTssSign env (m\<lparr>sm_Msgs := [base64_EncodeToString (Sha256 env signBytes)]\<rparr>) = Inr resp"
  have "\<not> ks_Success resp"
    using r assms(2) by (auto simp: doTssSign_def KeySign_def Let_def split: sum.splits)
  with sb r show "signTx e env tx sd (Some m) = Done (Inr empty_SignatureV2)" by (simp add: signTx_def)
next
  fix ok hash err sent'
  assume c: "composeAndSend e env msg accSeq accNum (Some m) sent = Done ((ok, hash, err), sent')"
  have "\<not> tss_signed e env m t" for t
    using assms(2) by (auto simp: tss_signed_def KeySign_def Let_def split: sum.splits)
  with assms(1) c show "\<not> ok" "err \<noteq> None" "sent' = sent"
    by (cases rule: composeAndSend_cases; simp)+
qed

section \<open>New pools\<close>

lemma collect_pubkeys_all:
  assumes "\<forall>v \<in> set vals. \<exists>k. MarshalPubKey env (val_PubKey v) = Inr k" and "base64_DecodeString my = Some mine"
  shows "collect_pubkeys env my vals d ks = Inr (d \<or> (\<exists>v \<in> set vals. val_PubKey v = mine),
     ks @ map (\<lambda>v. projr (MarshalPubKey env (val_PubKey v))) vals)"
  using assms(1)
proof (induction vals arbitrary: d ks)
  case Nil
  then show ?case by simp
next
  case (Cons v vals)
  then obtain k where "MarshalPubKey env (val_PubKey v) = Inr k" by auto
  with Cons assms(2) show ?case by auto
qed

lemma collect_pubkeys_Inr:
  assumes "collect_pubkeys env my vals d ks = Inr (d', ks')"
  shows "(\<forall>v \<in> set vals. \<exists>k. MarshalPubKey env (val_PubKey v) = Inr k)
    \<and> ks' = ks @ map (\<lambda>v. projr (MarshalPubKey env (val_PubKey v))) vals
    \<and> d' = (d \<or> (\<exists>v \<in> set vals. base64_DecodeString my = Some (val_PubKey v)))"
  using assms
proof (induction vals arbitrary: d ks)
  case (Cons v vals)
  then obtain k mine where k: "MarshalPubKey env (val_PubKey v) = Inr k" "base64_DecodeString my = Some mine"
    and r: "collect_pubkeys env my vals (d \<or> val_PubKey v = mine) (ks @ [k]) = Inr (d', ks')"
    by (auto split: sum.splits option.splits)
  show ?case using Cons.IH [OF r] k by auto
qed simp

text \<open>Whether this node submits a pool for the validators \<open>vals\<close>, and what it submits.\<close>

definition submits :: "ext \<Rightarrow> jolt_env \<Rightarrow> i64 \<Rightarrow> string \<Rightarrow> Validator list \<Rightarrow> tssPoolMsg \<Rightarrow> bool" where
  "submits e env h my vals m \<longleftrightarrow>
     (\<forall>v \<in> set vals. \<exists>k. MarshalPubKey env (val_PubKey v) = Inr k)
   \<and> (\<exists>v \<in> set vals. base64_DecodeString my = Some (val_PubKey v))
   \<and> (\<exists>resp op acc. KeyGen (je_keygen env) (map (\<lambda>v. projr (MarshalPubKey env (val_PubKey v))) vals) h TssVersion = Inr resp
        \<and> kg_Success resp \<and> KeyringKey env = Inr op \<and> queryAccount (AccString e (op_Address op)) (je_grpc env) = Inr acc
        \<and> m = \<lparr>tpm_msg = \<lparr>mcp_Creator = op_Address op, mcp_PoolPubKey = kg_PubKey resp, mcp_BlockHeight = FormatInt (h + 1)\<rparr>,
             tpm_acc = acc, tpm_poolPubKey = kg_PubKey resp, tpm_blockHeight = h + 1\<rparr>)"

lemma submits_key_generation:
  assumes "collect_pubkeys env my vals False [] = Inr (True, keys)"
  shows "submits e env h my vals m \<longleftrightarrow>
     (\<exists>resp op acc. KeyGen (je_keygen env) keys h TssVersion = Inr resp
        \<and> kg_Success resp \<and> KeyringKey env = Inr op \<and> queryAccount (AccString e (op_Address op)) (je_grpc env) = Inr acc
        \<and> m = \<lparr>tpm_msg = \<lparr>mcp_Creator = op_Address op, mcp_PoolPubKey = kg_PubKey resp, mcp_BlockHeight = FormatInt (h + 1)\<rparr>,
             tpm_acc = acc, tpm_poolPubKey = kg_PubKey resp, tpm_blockHeight = h + 1\<rparr>)"
  using collect_pubkeys_Inr [OF assms] by (simp add: submits_def)

lemma submits_none:
  assumes "\<And>keys. collect_pubkeys env my vals False [] \<noteq> Inr (True, keys)"
  shows "\<not> submits e env h my vals m"
proof
  assume s: "submits e env h my vals m"
  then obtain v where v: "v \<in> set vals" "base64_DecodeString my = Some (val_PubKey v)" by (auto simp: submits_def)
  from s have "\<forall>v \<in> set vals. \<exists>k. MarshalPubKey env (val_PubKey v) = Inr k" by (simp add: submits_def)
  from collect_pubkeys_all [OF this v(2), of False "[]"] v(1) assms show False by auto
qed

text \<open>
  C25: a change of the validators whose addresses decode. \<open>HandleUpdateValidators\<close> stores the
  updated set, and it queues at most one pool message: for the new key and for submission at
  the next height, exactly when every active validator's key encodes, this node's own key is
  among them, and the key generation, the keyring and the account query all succeed. In every
  other case nothing is queued and nothing else of the state changes.
\<close>

theorem HandleUpdateValidators_submits:
  assumes "validatorSet jc = Some vs" and "\<forall>el \<in> set updates. good_address e el"
    and "vs' = snd (UpdateValidatorSet e updates h vs)" and "vals = fst (GetActiveValidators vs')"
  shows "\<exists>err c. HandleUpdateValidators e env updates h jc
        = Done (err, jc\<lparr>validatorSet := Some vs', msgSendCache := msgSendCache jc @ c\<rparr>)
    \<and> length c \<le> 1 \<and> (c \<noteq> [] \<longrightarrow> err = None)
    \<and> (\<forall>m. m \<in> set c \<longleftrightarrow> submits e env h (info_PubKey_Value (myValidatorInfo jc)) vals m)"
proof -
  let ?my = "info_PubKey_Value (myValidatorInfo jc)" and ?jc1 = "jc\<lparr>validatorSet := Some vs'\<rparr>"
  have upd: "UpdateLatestValidator e updates h jc = Done (None, ?jc1)"
    using assms(1-3) apply_updates_load(1) [OF assms(2), of "activeValidators vs"]
    by (simp add: UpdateLatestValidator_def UpdateValidatorSet_def Let_def split: prod.splits)
  have act: "GetActiveValidators vs' = (vals, h)"
    using assms(3,4) by (simp add: GetActiveValidators_def UpdateValidatorSet_def Let_def split: prod.splits)
  have run: "HandleUpdateValidators e env updates h jc =
     (case collect_pubkeys env ?my vals False [] of
       Inl m \<Rightarrow> Done (Some m, ?jc1)
     | Inr (doKeyGen, pubkeys) \<Rightarrow>
         if doKeyGen then
           (case KeyGen (je_keygen env) pubkeys h TssVersion of
              Inl m \<Rightarrow> Done (Some m, ?jc1)
            | Inr resp \<Rightarrow>
                if \<not> kg_Success resp then Done (None, ?jc1)
                else case KeyringKey env of
                  Inl m \<Rightarrow> Done (Some m, ?jc1)
                | Inr creator \<Rightarrow> Done (prepareTssPool e env (op_Address creator) (kg_PubKey resp) (FormatInt (h + 1)) ?jc1))
         else Done (None, ?jc1))"
    by (simp add: HandleUpdateValidators_def upd GetLastValidator_def act)
  have quiet: ?thesis if "HandleUpdateValidators e env updates h jc = Done (err, ?jc1)"
    and "\<And>m. \<not> submits e env h ?my vals m" for err
    using that by (intro exI [of _ err] exI [of _ "[]"]) simp
  show ?thesis
  proof (cases "\<exists>keys. collect_pubkeys env ?my vals False [] = Inr (True, keys)")
    case False
    then have n: "\<And>m. \<not> submits e env h ?my vals m" using submits_none [of env ?my vals] by blast
    from False run obtain err where "HandleUpdateValidators e env updates h jc = Done (err, ?jc1)"
      by (auto split: sum.splits prod.splits if_splits)
    with quiet n show ?thesis by blast
  next
    case True
    then obtain keys where keys: "collect_pubkeys env ?my vals False [] = Inr (True, keys)" by blast
    note sub = submits_key_generation [OF keys, of e h]
    show ?thesis
    proof (cases "\<exists>resp op acc. KeyGen (je_keygen env) keys h TssVersion = Inr resp
        \<and> kg_Success resp \<and> KeyringKey env = Inr op \<and> queryAccount (AccString e (op_Address op)) (je_grpc env) = Inr acc")
      case False
      then have n: "\<And>m. \<not> submits e env h ?my vals m" unfolding sub by blast
      from False run keys obtain err where "HandleUpdateValidators e env updates h jc = Done (err, ?jc1)"
        by (auto simp: prepareTssPool_def split: sum.splits if_splits)
      with quiet n show ?thesis by blast
    next
      case True
      then obtain resp op acc where a: "KeyGen (je_keygen env) keys h TssVersion = Inr resp" "kg_Success resp"
        "KeyringKey env = Inr op" "queryAccount (AccString e (op_Address op)) (je_grpc env) = Inr acc" by blast
      let ?m = "\<lparr>tpm_msg = \<lparr>mcp_Creator = op_Address op, mcp_PoolPubKey = kg_PubKey resp, mcp_BlockHeight = FormatInt (h + 1)\<rparr>,
             tpm_acc = acc, tpm_poolPubKey = kg_PubKey resp, tpm_blockHeight = h + 1\<rparr>"
      have "HandleUpdateValidators e env updates h jc = Done (None, jc\<lparr>validatorSet := Some vs', msgSendCache := msgSendCache jc @ [?m]\<rparr>)"
        using a by (simp add: run keys prepareTssPool_def strconv.dec_enc Let_def)
      moreover have "m \<in> set [?m] \<longleftrightarrow> submits e env h ?my vals m" for m unfolding sub using a by auto
      ultimately show ?thesis by (intro exI [of _ None] exI [of _ "[?m]"]) simp
    qed
  qed
qed

lemma BroadcastTx_sent: "BroadcastTx env b sent = (r, sent') \<Longrightarrow> sent' = sent @ [b]"
  by (simp add: BroadcastTx_def)

lemma CheckAndUpdatePool_cases:
  assumes "CheckAndUpdatePool e env h jc sent = Done ((ok, pk), jc', sent')"
  obtains (kept) "jc' = jc" and "sent' = sent" and "\<not> ok"
  | (tried) el rest txBytes where "msgSendCache jc = el # rest" and "tpm_blockHeight el = h"
      and "jc' = jc\<lparr>msgSendCache := rest\<rparr>" and "sent' = sent @ [txBytes]" and "ok \<longrightarrow> pk = tpm_poolPubKey el"
proof (cases "msgSendCache jc")
  case Nil
  then have "jc' = jc \<and> sent' = sent \<and> \<not> ok" using assms by (simp add: CheckAndUpdatePool_def)
  then show thesis using kept by blast
next
  case (Cons el rest)
  show thesis
  proof (cases "tpm_blockHeight el = h")
    case False
    then have "jc' = jc \<and> sent' = sent \<and> \<not> ok" using assms Cons by (simp add: CheckAndUpdatePool_def)
    then show thesis using kept by blast
  next
    case True
    have step: "(jc' = jc \<and> sent' = sent \<and> \<not> ok) \<or> (\<exists>txBytes.
        (let ((k, resp, er), s1) = BroadcastTx env txBytes sent; jc1 = jc\<lparr>msgSendCache := rest\<rparr>
         in if er \<noteq> None \<or> \<not> k then Done ((False, []), jc1, s1)
            else Done ((True, tpm_poolPubKey el), jc1, s1)) = Done ((ok, pk), jc', sent'))"
      using assms Cons True
      by (auto simp: CheckAndUpdatePool_def exec_bind_sum_Done_iff case_sum_eq_iff)
    have "(jc' = jc \<and> sent' = sent \<and> \<not> ok) \<or> (\<exists>txBytes. jc' = jc\<lparr>msgSendCache := rest\<rparr>
        \<and> sent' = sent @ [txBytes] \<and> (ok \<longrightarrow> pk = tpm_poolPubKey el))"
      using step by (elim disjE exE) (auto simp: BroadcastTx_def Let_def split: if_splits prod.splits)
    then show thesis using kept tried [OF Cons True] by blast
  qed
qed

text \<open>Running the submission at each of a sequence of blocks, with that block's answers.\<close>

definition submit_blocks ::
    "ext \<Rightarrow> (jolt_env \<times> i64) list \<Rightarrow> JoltifyChainInstance \<times> bytes list \<Rightarrow> (JoltifyChainInstance \<times> bytes list) exec" where
  "submit_blocks e bs = exec_fold (\<lambda>(env, h) (jc, sent).
     exec_bind (CheckAndUpdatePool e env h jc sent) (\<lambda>(_, jc', sent'). Done (jc', sent'))) bs"

text \<open>
  C30: the submission queue is first in, first out, and its head can block it. Over any sequence
  of blocks, what is submitted is a prefix of the queued pool messages, one broadcast each;
  and as long as no block has exactly the head's height (it was missed, or its submission
  failed before the broadcast) nothing at all is submitted, however due the messages
  behind it are.
\<close>

theorem submit_blocks_fifo:
  assumes "submit_blocks e bs (jc, sent) = Done (jc', sent')"
  shows "(\<exists>n. n \<le> length (msgSendCache jc) \<and> jc' = jc\<lparr>msgSendCache := drop n (msgSendCache jc)\<rparr>
      \<and> length sent' = length sent + n
      \<and> (\<forall>i < n. \<exists>(env, h) \<in> set bs. tpm_blockHeight (msgSendCache jc ! i) = h))
    \<and> (\<forall>el rest. msgSendCache jc = el # rest \<and> (\<forall>(env, h) \<in> set bs. h \<noteq> tpm_blockHeight el)
         \<longrightarrow> jc' = jc \<and> sent' = sent)"
proof
  show "\<exists>n. n \<le> length (msgSendCache jc) \<and> jc' = jc\<lparr>msgSendCache := drop n (msgSendCache jc)\<rparr>
      \<and> length sent' = length sent + n
      \<and> (\<forall>i < n. \<exists>(env, h) \<in> set bs. tpm_blockHeight (msgSendCache jc ! i) = h)"
    using assms
  proof (induction bs arbitrary: jc sent)
    case Nil
    then show ?case by (intro exI [of _ 0]) (simp add: submit_blocks_def)
  next
    case (Cons b bs)
    obtain env h where b: "b = (env, h)" by (cases b)
    from Cons.prems obtain ok pk jc1 sent1 where c: "CheckAndUpdatePool e env h jc sent = Done ((ok, pk), jc1, sent1)"
      and rest: "submit_blocks e bs (jc1, sent1) = Done (jc', sent')"
      by (auto simp: submit_blocks_def b exec_bind_eq_Done_iff)
    from Cons.IH [OF rest] obtain n where n: "n \<le> length (msgSendCache jc1)"
      "jc' = jc1\<lparr>msgSendCache := drop n (msgSendCache jc1)\<rparr>" "length sent' = length sent1 + n"
      "\<forall>i < n. \<exists>(env, h) \<in> set bs. tpm_blockHeight (msgSendCache jc1 ! i) = h" by blast
    from c show ?case
    proof (cases rule: CheckAndUpdatePool_cases)
      case kept
      then show ?thesis using n by (intro exI [of _ n]) auto
    next
      case (tried el r txBytes)
      then show ?thesis using n b
        by (intro exI [of _ "Suc n"]) (auto simp: less_Suc_eq_0_disj)
    qed
  qed
  show "\<forall>el rest. msgSendCache jc = el # rest \<and> (\<forall>(env, h) \<in> set bs. h \<noteq> tpm_blockHeight el)
         \<longrightarrow> jc' = jc \<and> sent' = sent"
  proof (intro allI impI)
    fix el rest
    assume "msgSendCache jc = el # rest \<and> (\<forall>(env, h) \<in> set bs. h \<noteq> tpm_blockHeight el)"
    then have "submit_blocks e bs (jc, sent) = Done (jc, sent)"
      unfolding submit_blocks_def
      by (intro exec_fold_skip) (auto simp: CheckAndUpdatePool_def)
    then show "jc' = jc \<and> sent' = sent" using assms by simp
  qed
qed

section \<open>Starting up\<close>

lemma SetupValidatorSet_height: "vs_blockHeight (SetupValidatorSet e ls h vs) = h"
  by (simp add: SetupValidatorSet_def)

lemma local_validators_all:
  assumes "\<forall>v \<in> set vals. (\<exists>k. U (tv_PubKeyAny v) = Inr k) \<and> (\<exists>a. ConsAddressFromBech32 e (tv_Address v) = Inr a)"
  shows "local_validators e U vals ls = Inr (ls @ map (\<lambda>v.
     \<lparr>val_Address = projr (ConsAddressFromBech32 e (tv_Address v)), val_PubKey = projr (U (tv_PubKeyAny v)),
      VotingPower = tv_VotingPower v\<rparr>) vals)"
  using assms
proof (induction vals arbitrary: ls)
  case (Cons v vals)
  then obtain k a where "U (tv_PubKeyAny v) = Inr k" "ConsAddressFromBech32 e (tv_Address v) = Inr a" by auto
  with Cons show ?case by simp
qed simp

text \<open>Filing validators, each under its printed address, updates the abstract map one by one.\<close>

lemma filed_validators:
  "(\<lambda>k. sm_Load k (fold (\<lambda>el m. sm_Store (ConsString e (val_Address el)) el m)
        (map (\<lambda>v. \<lparr>val_Address = addr v, val_PubKey = key v, VotingPower = weight v\<rparr>) vals) m0))
   = fold (\<lambda>v m. let a = addr v in m(ConsString e a \<mapsto> \<lparr>val_Address = a, val_PubKey = key v, VotingPower = weight v\<rparr>))
       vals (\<lambda>k. sm_Load k m0)"
proof (induction vals arbitrary: m0)
  case (Cons v vals)
  let ?el = "\<lparr>val_Address = addr v, val_PubKey = key v, VotingPower = weight v\<rparr>"
  have "(\<lambda>k. sm_Load k (sm_Store (ConsString e (val_Address ?el)) ?el m0))
      = (\<lambda>k. sm_Load k m0)(ConsString e (val_Address ?el) \<mapsto> ?el)"
    by (auto simp: sm.load_store)
  then show ?case
    by (simp only: list.map fold_simps o_apply Cons Let_def Validator.select_convs)
qed simp

text \<open>
  C31: starting up. \<open>InitValidators\<close> gets to the chain's validators only when the first or the
  second poll finds the node synced within the ten seconds of the one context all polls share: a
  node that is still syncing at the second poll makes it fail.
  When all answers come in time, are good and decode, it files every validator of the chain's
  answer under its printed address, the last one for an address counting, at the answer's height.
\<close>

theorem InitValidators_result:
  "(fst (InitValidators e node addr jc) = None \<longrightarrow>
      (\<exists>k t. (k = 0 \<and> t = poll_time node 0 \<or> k = 1 \<and> GetSyncing node 0 = Inr True \<and> t = poll_time node 0 + 5000 + poll_time node 1)
         \<and> GetSyncing node k = Inr False \<and> t < 10000))
   \<and> (GetSyncing node 0 = Inr True \<and> GetSyncing node 1 = Inr True
      \<longrightarrow> InitValidators e node addr jc = (Some deadline_error, jc))
   \<and> (\<forall>page i h vals. GetSyncing node 0 = Inr False \<and> poll_time node 0 < 10000
        \<or> GetSyncing node 0 = Inr True \<and> GetSyncing node 1 = Inr False \<and> poll_time node 0 + 5000 + poll_time node 1 < 10000
      \<longrightarrow> GetNodeInfo node = None \<longrightarrow> rest_GetRequest node (addr @ ''/status'') = Inr page
      \<longrightarrow> json_info node page = Inr i \<longrightarrow> QueryTipValidator (ne_grpc node) = Inr (h, vals)
      \<longrightarrow> (\<forall>v \<in> set vals. (\<exists>k. UnpackPubKey node (tv_PubKeyAny v) = Inr k) \<and> (\<exists>a. ConsAddressFromBech32 e (tv_Address v) = Inr a))
      \<longrightarrow> (\<exists>vs jc'. InitValidators e node addr jc = (None, jc')
           \<and> myValidatorInfo jc' = i \<and> validatorSet jc' = Some vs \<and> vs_blockHeight vs = h
           \<and> valset_abs vs = fold (\<lambda>v m. let a = projr (ConsAddressFromBech32 e (tv_Address v)) in
               m(ConsString e a \<mapsto> \<lparr>val_Address = a, val_PubKey = projr (UnpackPubKey node (tv_PubKeyAny v)),
                  VotingPower = tv_VotingPower v\<rparr>)) vals (\<lambda>_. None)))"
proof (intro conjI allI impI)
  assume "fst (InitValidators e node addr jc) = None"
  then obtain t where w: "wait_synced node 0 0 = (None, t)" and t: "t < 10000"
    by (auto simp: InitValidators_def in_time_def grpcTimeout_def split: prod.splits option.splits if_splits)
  then show "\<exists>k t. (k = 0 \<and> t = poll_time node 0 \<or> k = 1 \<and> GetSyncing node 0 = Inr True \<and> t = poll_time node 0 + 5000 + poll_time node 1)
         \<and> GetSyncing node k = Inr False \<and> t < 10000"
    unfolding wait_synced_polls
    by (auto simp: Let_def split: sum.splits bool.splits if_splits)
next
  assume "GetSyncing node 0 = Inr True \<and> GetSyncing node 1 = Inr True"
  then show "InitValidators e node addr jc = (Some deadline_error, jc)"
    by (simp add: InitValidators_def wait_synced_polls Let_def)
next
  fix page i h vals
  assume polls: "GetSyncing node 0 = Inr False \<and> poll_time node 0 < 10000
        \<or> GetSyncing node 0 = Inr True \<and> GetSyncing node 1 = Inr False \<and> poll_time node 0 + 5000 + poll_time node 1 < 10000"
    and a: "GetNodeInfo node = None" "rest_GetRequest node (addr @ ''/status'') = Inr page"
      "json_info node page = Inr i" "QueryTipValidator (ne_grpc node) = Inr (h, vals)"
    and ok: "\<forall>v \<in> set vals. (\<exists>k. UnpackPubKey node (tv_PubKeyAny v) = Inr k) \<and> (\<exists>a. ConsAddressFromBech32 e (tv_Address v) = Inr a)"
  let ?v = "\<lambda>v. \<lparr>val_Address = projr (ConsAddressFromBech32 e (tv_Address v)), val_PubKey = projr (UnpackPubKey node (tv_PubKeyAny v)),
      VotingPower = tv_VotingPower v\<rparr>"
  let ?vs = "SetupValidatorSet e (map ?v vals) h NewValidator"
  have "valset_abs ?vs = fold (\<lambda>v m. let a = projr (ConsAddressFromBech32 e (tv_Address v)) in
         m(ConsString e a \<mapsto> ?v v)) vals (\<lambda>_. None)"
    using filed_validators [of e "\<lambda>v. projr (ConsAddressFromBech32 e (tv_Address v))"
      "\<lambda>v. projr (UnpackPubKey node (tv_PubKeyAny v))" tv_VotingPower vals "[]"]
    by (simp add: valset_abs_def [abs_def] SetupValidatorSet_def NewValidator_def Let_def)
  moreover obtain t where "wait_synced node 0 0 = (None, t)" "t < 10000"
    using polls by (auto simp: wait_synced_polls Let_def)
  ultimately show "\<exists>vs jc'. InitValidators e node addr jc = (None, jc')
           \<and> myValidatorInfo jc' = i \<and> validatorSet jc' = Some vs \<and> vs_blockHeight vs = h
           \<and> valset_abs vs = fold (\<lambda>v m. let a = projr (ConsAddressFromBech32 e (tv_Address v)) in
               m(ConsString e a \<mapsto> \<lparr>val_Address = a, val_PubKey = projr (UnpackPubKey node (tv_PubKeyAny v)),
                  VotingPower = tv_VotingPower v\<rparr>)) vals (\<lambda>_. None)"
    using a local_validators_all [OF ok, of "[]"]
    by (intro exI [of _ ?vs] exI [of _ "jc\<lparr>myValidatorInfo := i, validatorSet := Some ?vs\<rparr>"])
      (simp add: InitValidators_def in_time_def grpcTimeout_def doInitValidator_def Let_def SetupValidatorSet_height)
qed

section \<open>A chain for the witnesses\<close>

definition sample_jenv :: jolt_env where
  "sample_jenv = \<lparr>je_grpc = sample_grpc,
     NewTxBuilder = \<lparr>ct_Msgs = [], ct_GasLimit = 0, ct_Sig = None\<rparr>,
     SetMsgs = (\<lambda>ms b. Inr (b\<lparr>ct_Msgs := ms\<rparr>)), SetGasLimit = (\<lambda>g b. b\<lparr>ct_GasLimit := g\<rparr>),
     SetSignatures = (\<lambda>s b. case sv_PubKey s of None \<Rightarrow> Inl ''nil pubkey'' | Some _ \<Rightarrow> Inr (b\<lparr>ct_Sig := Some s\<rparr>)),
     KeyringKey = Inr \<lparr>op_Address = [1], op_PubKey = [2]\<rparr>, KeyringSign = (\<lambda>b. Inr (b, [2])),
     GetSignBytes = (\<lambda>_ _. Inr [4]), Sha256 = (\<lambda>b. b), TxEncoder = (\<lambda>_. Inr [6]), Simulate = (\<lambda>_. Inr 100000),
     RpcBroadcast = (\<lambda>_. Inr \<lparr>tr_Code = 0, tr_TxHash = ''AB''\<rparr>), je_keysign = sample_service,
     je_keygen = (\<lambda>_. Inr \<lparr>kg_PubKey = ''n'', kg_Success = True\<rparr>),
     MarshalPubKey = (\<lambda>b. Inr (hex_EncodeToString b)), CoinString = Denom,
     NewMsgCreateIssueToken = (\<lambda>a b c d. Inr (IssueTokenMsg a b c d))\<rparr>"

lemma sample_builder: "builder_ok sample_jenv"
  by (auto simp: builder_ok_def sample_jenv_def split: option.splits)

lemma sample_sdk:
  "UnmarshalPubKey sample_ext ''k'' = Inr [107]" "NewDecFromStr sample_ext GASFEERATIO = Inr (15 * 10 ^ 17)"
  "DecMul sample_ext a b = Some (a * b div 10 ^ 18)" "DecFromUint64 sample_ext n = uint n * 10 ^ 18"
  "DecRoundInt64 sample_ext d = (if d div 10 ^ 18 < 2 ^ 63 then Some (word_of_int (d div 10 ^ 18)) else None)"
  by (simp_all add: sample_ext_def config_defs)

lemma sample_gas: "GasEstimation sample_ext sample_jenv [msg] 1 (Some (pool_signMsg ''k'' h)) = Done (Inr 150000)"
  by (simp add: GasEstimation_def SimBroadcastTx_def pool_signMsg_def sample_jenv_def sample_sdk)

lemma sample_signTx:
  "signTx sample_ext sample_jenv tx sd (Some (pool_signMsg ''k'' h)) =
     Done (Inr \<lparr>sv_PubKey = Some [107], sv_Data = Some (Some (pad32 7 @ pad32 9)), sv_Sequence = sd_Sequence sd\<rparr>)"
  by (simp add: signTx_def sample_jenv_def doTssSign_def KeySign_def sample_service_def sample_sig_serialised
      pool_signMsg_def sample_sdk)

lemma sample_send:
  "composeAndSend sample_ext sample_jenv msg 1 2 (Some (pool_signMsg ''k'' h)) [] = Done ((True, ''AB'', None), [[6]])"
proof -
  have "\<exists>tx. genSendTx sample_ext sample_jenv [msg] 1 2 150000 (Some (pool_signMsg ''k'' h)) = Done (Inr tx)"
    unfolding genSendTx_def sample_signTx
    by (simp add: sample_jenv_def pool_signMsg_def sample_sdk sample_signTx [unfolded sample_jenv_def pool_signMsg_def])
  then obtain tx where "genSendTx sample_ext sample_jenv [msg] 1 2 150000 (Some (pool_signMsg ''k'' h)) = Done (Inr tx)"
    by blast
  then show ?thesis
    unfolding composeAndSend_def sample_gas by (simp add: sample_jenv_def BroadcastTx_def)
qed

definition sample_jpool :: PoolInfo where
  "sample_jpool = \<lparr>Pk = ''k'', JoltifyAddress = [97], EthAddress = [8], VaultInfo = None\<rparr>"

theorem jolt_MoveFunds_safe_witness:
  "\<exists>tx. tss_signed sample_ext sample_jenv (pool_signMsg ''k'' 5) tx
     \<and> ct_Msgs tx = [BankSend \<lparr>FromAddress = ''61'', ToAddress = ''06'', ms_Amount = [\<lparr>Denom = ''JUSD'', Amount = 7\<rparr>]\<rparr>]"
proof -
  have q: "queryAccount a (je_grpc sample_jenv) = Inr \<lparr>acc_Sequence = 1, acc_AccountNumber = 2, acc_PubKey = Some [5]\<rparr>"
    "queryBalance a (je_grpc sample_jenv) = Inr [\<lparr>Denom = ''JUSD'', Amount = 7\<rparr>]" for a
    by (simp_all add: sample_jenv_def sample_queries_run)
  have "jolt_MoveFunds sample_ext sample_jenv sample_jpool [6] 5 [] = Done ((False, None), [[6]])"
    using sample_send [of _ 5]
    by (simp del: hex_EncodeToString.simps add: jolt_MoveFunds_def Let_def q sample_jpool_def pool_signMsg_def)
  from jolt_MoveFunds_safe [OF sample_builder this] show ?thesis
    by (auto simp: q sample_jpool_def hex_char_def hextable_def)
qed

definition sample_mint :: InboundReq where
  "sample_mint = \<lparr>ir_address = [0], ir_txID = [5], ir_toPoolAddr = [9],
     ir_coin = \<lparr>Denom = ''JUSD'', Amount = 100\<rparr>, ir_blockHeight = 3\<rparr>"

definition sample_jb :: JoltifyChainInstance where
  "sample_jb = NewJoltifyBridge\<lparr>jolt_lastTwoPools := (Some sample_jpool, Some sample_jpool)\<rparr>"

lemma sample_PoolPubKey: "PoolPubKeyToJoltAddress sample_ext ''k'' = Inr [107]"
  by (simp del: hex_EncodeToString.simps hex_DecodeString.simps
      add: PoolPubKeyToJoltAddress_def sample_sdk hex.dec_enc)

lemma sample_minted:
  "ProcessInBound sample_ext sample_jenv sample_mint sample_jb [] =
     Done ((''AB'', HashHex sample_ext (inbound_Hash sample_ext sample_mint), None), [[6]])"
proof -
  have f: "queryAccount a (je_grpc sample_jenv) = Inr \<lparr>acc_Sequence = 1, acc_AccountNumber = 2, acc_PubKey = Some [5]\<rparr>"
    "\<not> CheckWhetherAlreadyExist (je_grpc sample_jenv) i" "CoinString sample_jenv = Denom"
    "NewMsgCreateIssueToken sample_jenv a i b c = Inr (IssueTokenMsg a i b c)" for a i b c
    by (simp_all add: sample_jenv_def sample_queries_run)
  show ?thesis
    using sample_send [of _ 3]
    by (simp del: hex_EncodeToString.simps sample_ext_simps
        add: ProcessInBound_def Let_def f sample_jb_def sample_jpool_def pool_signMsg_def jolt_GetPool_def
          sample_PoolPubKey prepareIssueTokenRequest_def GetInboundReqInfo_def
          sample_mint_def)
qed

theorem ProcessInBound_mints_once_witness:
  "\<exists>tx creator. tss_signed sample_ext sample_jenv (pool_signMsg ''k'' 3) tx
     \<and> ct_Msgs tx = [IssueTokenMsg creator (HashHex sample_ext (inbound_Hash sample_ext sample_mint)) ''JUSD'' ''00'']"
proof -
  have "snd (jolt_lastTwoPools sample_jb) = Some sample_jpool" by (simp add: sample_jb_def)
  with ProcessInBound_mints_once [OF sample_builder sample_minted] show ?thesis
    by (auto simp: sample_mint_def sample_jpool_def sample_jenv_def hex_char_def hextable_def)
qed

theorem signTx_failed_status_witness:
  "\<exists>env. builder_ok env \<and> (\<forall>tx sd. signTx sample_ext env tx sd (Some (pool_signMsg ''k'' 5)) = Done (Inr empty_SignatureV2))"
proof -
  let ?env = "sample_jenv\<lparr>je_keysign := (\<lambda>_. Inr \<lparr>Signatures = [], ks_Success = False\<rparr>)\<rparr>"
  have b: "builder_ok ?env" using sample_builder by (simp add: builder_ok_def)
  have s: "\<forall>req resp. je_keysign ?env req = Inr resp \<longrightarrow> \<not> ks_Success resp" by auto
  have g: "GetSignBytes ?env sd tx = Inr [4]" for tx sd by (simp add: sample_jenv_def)
  have d: "doTssSign ?env m = Inr \<lparr>Signatures = [], ks_Success = False\<rparr>" for m
    by (simp add: doTssSign_def KeySign_def)
  have "signTx sample_ext ?env tx sd (Some (pool_signMsg ''k'' 5)) = Done (Inr empty_SignatureV2)" for tx sd
    using signTx_failed_status [OF b s, where sd = sd and tx = tx and e = sample_ext and m = "pool_signMsg ''k'' 5",
        THEN conjunct1] g d by blast
  then show ?thesis using b by blast
qed

definition sample_info :: "bytes \<Rightarrow> info" where
  "sample_info key = no_info\<lparr>info_PubKey_Value := base64_EncodeToString key\<rparr>"

theorem HandleUpdateValidators_submits_witness:
  "\<exists>err jc'. HandleUpdateValidators sample_ext sample_jenv [] 4
       (NewJoltifyBridge\<lparr>validatorSet := Some \<lparr>activeValidators = [(''01'', \<lparr>val_Address = [1], val_PubKey = [3], VotingPower = 9\<rparr>)], vs_blockHeight = 3\<rparr>, myValidatorInfo := sample_info [3]\<rparr>)
     = Done (err, jc')
   \<and> \<lparr>tpm_msg = \<lparr>mcp_Creator = [1], mcp_PoolPubKey = ''n'', mcp_BlockHeight = FormatInt 5\<rparr>,
          tpm_acc = \<lparr>acc_Sequence = 1, acc_AccountNumber = 2, acc_PubKey = Some [5]\<rparr>, tpm_poolPubKey = ''n'',
          tpm_blockHeight = 5\<rparr> \<in> set (msgSendCache jc') \<and> length (msgSendCache jc') = 1"
proof -
  let ?vs = "\<lparr>activeValidators = [(''01'', \<lparr>val_Address = [1], val_PubKey = [3], VotingPower = 9\<rparr>)], vs_blockHeight = 3\<rparr>"
  let ?jc = "NewJoltifyBridge\<lparr>validatorSet := Some ?vs, myValidatorInfo := sample_info [3]\<rparr>"
  let ?vals = "[\<lparr>val_Address = [1], val_PubKey = [3], VotingPower = 9\<rparr>]"
  let ?m = "\<lparr>tpm_msg = \<lparr>mcp_Creator = [1], mcp_PoolPubKey = ''n'', mcp_BlockHeight = FormatInt 5\<rparr>,
          tpm_acc = \<lparr>acc_Sequence = 1, acc_AccountNumber = 2, acc_PubKey = Some [5]\<rparr>, tpm_poolPubKey = ''n'',
          tpm_blockHeight = 5\<rparr>"
  have v: "?vs\<lparr>vs_blockHeight := 4\<rparr> = snd (UpdateValidatorSet sample_ext [] 4 ?vs)"
    by (simp add: UpdateValidatorSet_def)
  have g: "?vals = fst (GetActiveValidators (?vs\<lparr>vs_blockHeight := 4\<rparr>))"
    by (simp add: GetActiveValidators_def)
  have s: "submits sample_ext sample_jenv 4 (info_PubKey_Value (myValidatorInfo ?jc)) ?vals ?m"
    by (simp add: submits_def base64.dec_enc sample_info_def sample_jenv_def sample_queries_run KeyGen_def)
  have vs: "validatorSet ?jc = Some ?vs" and empty: "msgSendCache ?jc = []" by (simp_all add: NewJoltifyBridge_def)
  obtain err c where r: "HandleUpdateValidators sample_ext sample_jenv [] 4 ?jc
      = Done (err, ?jc\<lparr>validatorSet := Some (?vs\<lparr>vs_blockHeight := 4\<rparr>), msgSendCache := msgSendCache ?jc @ c\<rparr>)"
    and c: "length c \<le> 1" "?m \<in> set c"
    using HandleUpdateValidators_submits [OF vs _ v g, of sample_jenv] s by auto
  then have "length c = 1" by (cases c) auto
  with r c empty show ?thesis by auto
qed

lemma sample_submit: "\<exists>r. submit_blocks sample_ext [(sample_jenv, 4)]
     (NewJoltifyBridge\<lparr>msgSendCache := [\<lparr>tpm_msg = \<lparr>mcp_Creator = [1], mcp_PoolPubKey = ''n'', mcp_BlockHeight = ''5''\<rparr>,
        tpm_acc = \<lparr>acc_Sequence = 1, acc_AccountNumber = 2, acc_PubKey = Some [5]\<rparr>, tpm_poolPubKey = ''n'',
        tpm_blockHeight = 5\<rparr>]\<rparr>, []) = Done r"
  by (simp add: submit_blocks_def CheckAndUpdatePool_def)

theorem submit_blocks_fifo_witness:
  "\<exists>jc. msgSendCache jc \<noteq> [] \<and> submit_blocks sample_ext [(sample_jenv, 4)] (jc, []) = Done (jc, [])"
proof -
  let ?el = "\<lparr>tpm_msg = \<lparr>mcp_Creator = [1], mcp_PoolPubKey = ''n'', mcp_BlockHeight = ''5''\<rparr>,
        tpm_acc = \<lparr>acc_Sequence = 1, acc_AccountNumber = 2, acc_PubKey = Some [5]\<rparr>, tpm_poolPubKey = ''n'',
        tpm_blockHeight = 5\<rparr> :: tssPoolMsg"
  let ?jc = "NewJoltifyBridge\<lparr>msgSendCache := [?el]\<rparr>"
  obtain jc' sent' where r: "submit_blocks sample_ext [(sample_jenv, 4)] (?jc, []) = Done (jc', sent')"
    using sample_submit by fast
  have "jc' = ?jc \<and> sent' = []"
    using submit_blocks_fifo [OF r, THEN conjunct2, rule_format, of ?el "[]"] by simp
  with r show ?thesis by (intro exI [of _ ?jc]) simp
qed

definition sample_node_env :: node_env where
  "sample_node_env = \<lparr>GetSyncing = (\<lambda>k. Inr (k < 1)), poll_time = (\<lambda>_. 1), GetNodeInfo = None, rest_GetRequest = (\<lambda>_. Inr [5]),
     json_info = (\<lambda>_. Inr (sample_info [3])), UnpackPubKey = Inr, ne_grpc = sample_grpc\<rparr>"

lemma sample_node_env_simps:
  "GetSyncing sample_node_env k = Inr (k < 1)" "poll_time sample_node_env k = 1" "GetNodeInfo sample_node_env = None"
  "rest_GetRequest sample_node_env url = Inr [5]" "json_info sample_node_env page = Inr (sample_info [3])"
  "UnpackPubKey sample_node_env b = Inr b"
  "QueryTipValidator (ne_grpc sample_node_env) = Inr (7, [\<lparr>tv_PubKeyAny = [1], tv_Address = ''a'', tv_VotingPower = 9\<rparr>])"
  by (simp_all add: sample_node_env_def sample_grpc_def QueryTipValidator_def)

theorem InitValidators_result_witness:
  "\<exists>vs jc'. InitValidators sample_ext sample_node_env [] NewJoltifyBridge
       = (None, jc') \<and> validatorSet jc' = Some vs \<and> vs_blockHeight vs = 7
     \<and> valset_abs vs = (\<lambda>_. None)(''61'' \<mapsto> \<lparr>val_Address = [97], val_PubKey = [1], VotingPower = 9\<rparr>)"
proof -
  have a: "ConsAddressFromBech32 sample_ext ''a'' = Inr [97]" "ConsString sample_ext [97] = ''61''"
    by (simp_all add: sample_ext_def hex_char_def hextable_def)
  show ?thesis
    using InitValidators_result [THEN conjunct2, THEN conjunct2, rule_format, of sample_node_env "[]" "[5]" "sample_info [3]" 7
        "[\<lparr>tv_PubKeyAny = [1], tv_Address = ''a'', tv_VotingPower = 9\<rparr>]" sample_ext NewJoltifyBridge]
    by (auto simp: sample_node_env_simps a Let_def)
qed

end
