(* ===== verification/Pub_Book.thy ===== *)
theory Pub_Book
  imports Pub_Inbound_Correct
begin

text \<open>
  What the inbound side of the public chain promises, as an abstract book: which transfers
  wait for their fee, which fees were paid ahead, and which transfers are owed a mint. A
  block is the list of the actions a node reads in it. \<open>pubchain/tx_inbound.go\<close> implements
  the book (\<open>processEachBlock_book\<close>, \<open>DeleteExpired_book\<close>): its two maps keyed by hex strings are the
  book's two maps keyed by transaction hashes, its channel and retry pool together are what
  is owed.
\<close>

section \<open>The book\<close>

record entry =
  en_sender :: acc_address
  en_amount :: int
  en_fee :: int
  en_height :: u64

record book =
  awaiting :: "bytes \<Rightarrow> entry option"
  prepaid :: "bytes \<Rightarrow> (int \<times> u64) option"
  owed :: "(acc_address \<times> int \<times> bytes) multiset"

datatype action = Transfer bytes acc_address int | Payment bytes int

text \<open>The fee that releases a transfer is 10 units.\<close>

fun book_step :: "u64 \<Rightarrow> action \<Rightarrow> book \<Rightarrow> book" where
  "book_step h (Transfer i sender amount) b =
     (case awaiting b i of
        Some _ \<Rightarrow> b
      | None \<Rightarrow>
          (case prepaid b i of
             None \<Rightarrow> b\<lparr>awaiting := (awaiting b)(i \<mapsto> \<lparr>en_sender = sender, en_amount = amount, en_fee = 0, en_height = h\<rparr>)\<rparr>
           | Some (f, _) \<Rightarrow>
               if f < 10
               then b\<lparr>awaiting := (awaiting b)(i \<mapsto> \<lparr>en_sender = sender, en_amount = amount, en_fee = f, en_height = h\<rparr>),
                      prepaid := (prepaid b)(i := None)\<rparr>
               else b\<lparr>prepaid := (prepaid b)(i := None), owed := add_mset (sender, amount, i) (owed b)\<rparr>))"
| "book_step h (Payment i v) b =
     (case awaiting b i of
        None \<Rightarrow> b\<lparr>prepaid := (prepaid b)(i \<mapsto> (v, h))\<rparr>
      | Some t \<Rightarrow>
          if en_fee t + v < 10 then b\<lparr>awaiting := (awaiting b)(i \<mapsto> t\<lparr>en_fee := en_fee t + v\<rparr>)\<rparr>
          else b\<lparr>awaiting := (awaiting b)(i := None), owed := add_mset (en_sender t, en_amount t, i) (owed b)\<rparr>)"

definition book_steps :: "u64 \<Rightarrow> action list \<Rightarrow> book \<Rightarrow> book" where
  "book_steps h = fold (book_step h)"

definition book_expire :: "u64 \<Rightarrow> book \<Rightarrow> book" where
  "book_expire h b = b\<lparr>
     awaiting := (\<lambda>i. case awaiting b i of Some t \<Rightarrow> if TxTimeout < h - en_height t then None else Some t | None \<Rightarrow> None),
     prepaid := (\<lambda>i. case prepaid b i of Some (f, k) \<Rightarrow> if TxTimeout < h - k then None else Some (f, k) | None \<Rightarrow> None)\<rparr>"

text \<open>What is owed only grows, and by what does not depend on it.\<close>

definition owing :: "(acc_address \<times> int \<times> bytes) multiset \<Rightarrow> book \<Rightarrow> book" where
  "owing m b = b\<lparr>owed := owed b + m\<rparr>"

lemma book_step_owing: "book_step h a (owing m b) = owing m (book_step h a b)"
  by (cases a) (auto simp: owing_def split: option.splits)

lemma book_steps_owing: "book_steps h as (owing m b) = owing m (book_steps h as b)"
  by (induction as arbitrary: b) (simp_all add: book_steps_def book_step_owing)

lemma book_expire_owing: "book_expire h (owing m b) = owing m (book_expire h b)"
  by (simp add: book_expire_def owing_def)

text \<open>Actions on different transfers commute, so only their order per transfer matters.\<close>

fun action_id :: "action \<Rightarrow> bytes" where
  "action_id (Transfer i sender amount) = i"
| "action_id (Payment i v) = i"

lemma book_step_commute:
  "action_id a \<noteq> action_id c \<Longrightarrow> book_step h a (book_step k c b) = book_step k c (book_step h a b)"
  by (cases a; cases c) (auto simp: fun_upd_twist split: option.splits if_splits intro!: book.equality)

section \<open>What a node reads in a transaction\<close>

definition fee_payment :: "ext \<Rightarrow> pub_env \<Rightarrow> PubChainInstance \<Rightarrow> EthTx \<Rightarrow> (bytes \<times> int) option" where
  "fee_payment e env pi tx =
     (case (tx_To tx, checkErc20 env (case tx_Data tx of None \<Rightarrow> [] | Some d \<Rightarrow> d), tx_Data tx) of
        (Some to, Inl _, Some d) \<Rightarrow>
          if Receipt env (tx_Hash tx) = Inr 1 \<and> checkToBridge e to pi then Some (d, tx_Value tx) else None
      | _ \<Rightarrow> None)"

definition tx_actions :: "ext \<Rightarrow> pub_env \<Rightarrow> PubChainInstance \<Rightarrow> EthTx \<Rightarrow> action list" where
  "tx_actions e env pi tx =
     (case valid_transfer e env pi tx of
        Some (sender, c) \<Rightarrow> [Transfer (tx_Hash tx) sender (Amount c)]
      | None \<Rightarrow> (case fee_payment e env pi tx of Some (i, v) \<Rightarrow> [Payment i v] | None \<Rightarrow> []))"

definition block_actions :: "ext \<Rightarrow> pub_env \<Rightarrow> PubChainInstance \<Rightarrow> EthBlock \<Rightarrow> action list" where
  "block_actions e env pi b = concat (map (tx_actions e env pi) (Transactions b))"

text \<open>
  Relied on: a hash prints as its bytes in hex, with a prefix; and no pool lives at the
  address of the token contract.
\<close>

definition hash_ok :: "ext \<Rightarrow> bool" where
  "hash_ok e \<longleftrightarrow> (\<forall>h. HashHex e h = ''0x'' @ hex_EncodeToString h)"

definition token_not_pool :: "ext \<Rightarrow> PubChainInstance \<Rightarrow> bool" where
  "token_not_pool e pi \<longleftrightarrow> (\<forall>to. EthHex e to = tokenAddr pi \<longrightarrow> \<not> checkToBridge e to pi)"

section \<open>The abstraction\<close>

definition entry_of :: "inboundTx \<Rightarrow> entry" where
  "entry_of t = \<lparr>en_sender = itx_address t, en_amount = Amount (itx_token t), en_fee = Amount (itx_fee t),
     en_height = pubBlockHeight t\<rparr>"

definition mint_id :: "InboundReq \<Rightarrow> acc_address \<times> int \<times> bytes" where
  "mint_id r = (ir_address r, Amount (ir_coin r), ir_txID r)"

definition queued :: "PubChainInstance \<Rightarrow> (acc_address \<times> int \<times> bytes) multiset" where
  "queued pi = image_mset mint_id (mset (InboundReqChan pi) + pub_retry_bag pi)"

definition book_of :: "PubChainInstance \<Rightarrow> book" where
  "book_of pi = \<lparr>
     awaiting = (\<lambda>i. map_option entry_of (sm_Load (hex_EncodeToString i) (pendingInbounds pi))),
     prepaid = (\<lambda>i. map_option (\<lambda>b. (Amount (bnb_fee b), bnb_blockHeight b)) (sm_Load (hex_EncodeToString i) (pendingInboundsBnB pi))),
     owed = queued pi\<rparr>"

lemma hex_eq_iff [simp]: "hex_EncodeToString a = hex_EncodeToString b \<longleftrightarrow> a = b"
  using hex.enc_inj by blast

lemma queued_simps [simp]:
  "queued (pi\<lparr>pendingInbounds := m\<rparr>) = queued pi" "queued (pi\<lparr>pendingInboundsBnB := m'\<rparr>) = queued pi"
  "queued (pi\<lparr>InboundReqChan := InboundReqChan pi @ [r]\<rparr>) = add_mset (mint_id r) (queued pi)"
  "queued (pub_AddItem e r pi) = add_mset (mint_id r) (queued pi)"
  by (simp_all add: queued_def pub_retry_bag_def pub_AddItem_def)

section \<open>The code implements the book\<close>

lemma processInboundTx_book:
  assumes "sdk_ok M e" and "pub_inv e pi" and "EthHex e addr = tokenAddr pi"
    and "processInboundTx e (hex_EncodeToString i) h from to val addr pi = Done (err, pi')"
  shows "book_of pi' = book_step h (Transfer i from val) (book_of pi)"
proof (cases "sm_Load (hex_EncodeToString i) (pendingInbounds pi)")
  case (Some t)
  then show ?thesis using assms(4) by (simp add: processInboundTx_def book_of_def)
next
  case None
  show ?thesis
  proof (cases "sm_Load (hex_EncodeToString i) (pendingInboundsBnB pi)")
    case n: None
    then show ?thesis using assms(4) None
      by (auto simp: processInboundTx_no_fee [OF assms(1) None assms(3) n] book_of_def entry_of_def sm.load_store sm.load_del
          queued_def pub_retry_bag_def intro!: ext split: if_splits)
  next
    case (Some b)
    then have b: "Denom (bnb_fee b) = InBoundDenomFee"
      using assms(2) by (auto simp: pub_inv_def pending_ok_def)
    show ?thesis using assms(4) None Some
      by (auto simp: processInboundTx_with_fee [OF assms(1) None assms(3) Some b] book_of_def entry_of_def sm.load_store sm.load_del
          queued_def mint_id_def pub_retry_bag_def hex.dec_enc exec_bind_eq_Done_iff chan_send_Done_iff NewAccountInboundReq_def Let_def
          intro!: ext split: if_splits)
  qed
qed

lemma updateInboundTx_book:
  assumes "sdk_ok M e" and "pub_inv e pi" and "0 \<le> v"
    and "updateInboundTx e (hex_EncodeToString i) v h pi = Done (acc, pi')"
  shows "book_step h (Payment i v) (book_of pi) =
    (case acc of None \<Rightarrow> book_of pi' | Some a \<Rightarrow> owing {#(itx_address a, Amount (itx_token a), i)#} (book_of pi'))"
proof (cases "sm_Load (hex_EncodeToString i) (pendingInbounds pi)")
  case None
  then show ?thesis using assms(4)
    by (auto simp: updateInboundTx_unknown [OF assms(1) None assms(3)] book_of_def sm.load_store queued_def pub_retry_bag_def
        intro!: ext split: if_splits)
next
  case (Some t)
  have t: "Denom (itx_fee t) = InBoundDenomFee" "0 \<le> Amount (itx_fee t)"
    using assms(2) Some by (auto simp: pub_inv_def dest: pending_okD)
  show ?thesis using assms(4) Some
    by (auto simp: updateInboundTx_known [OF assms(1) Some t(1) assms(3) t(2)] Let_def book_of_def entry_of_def sm.load_store
        sm.load_del queued_def pub_retry_bag_def owing_def intro!: ext split: if_splits)
qed

lemma book_of_AddItem:
  "book_of (pub_AddItem e r pi) = owing {#mint_id r#} (book_of pi)"
  by (simp add: book_of_def owing_def) (simp add: pub_AddItem_def)

lemma process_fee_book:
  assumes "sdk_ok M e" and "pub_inv e pi" and "0 \<le> tx_Value tx" and run: "process_fee e n tx to pi = Done pi'"
  shows "book_of pi' = (if checkToBridge e to pi
    then (case tx_Data tx of None \<Rightarrow> book_of pi | Some d \<Rightarrow> book_step n (Payment d (tx_Value tx)) (book_of pi))
    else book_of pi)"
proof (cases "checkToBridge e to pi \<and> tx_Data tx \<noteq> None")
  case False
  then show ?thesis using run by (auto simp: process_fee_def split: if_splits option.splits)
next
  case True
  then obtain d where d: "tx_Data tx = Some d" "checkToBridge e to pi" by auto
  from run d obtain acc pi1 where u: "updateInboundTx e (hex_EncodeToString d) (tx_Value tx) n pi = Done (acc, pi1)"
    and r: "pi' = (case acc of None \<Rightarrow> pi1 | Some a \<Rightarrow> pub_AddItem e (NewAccountInboundReq (itx_address a) to (itx_token a) d 0) pi1)"
    by (auto simp: process_fee_def exec_bind_eq_Done_iff split: option.splits)
  show ?thesis
    using updateInboundTx_book [OF assms(1-3) u] d r
    by (auto simp: book_of_AddItem mint_id_def NewAccountInboundReq_def split: option.splits)
qed

lemma tx_actions_cong:
  assumes "tokenAddr pi1 = tokenAddr pi" and "pub_lastTwoPools pi1 = pub_lastTwoPools pi"
  shows "tx_actions e env pi1 = tx_actions e env pi"
proof -
  have to: "checkToBridge e d pi1 = checkToBridge e d pi" for d
    using assms by (simp add: checkToBridge_def pub_GetPool_def)
  have fee: "fee_payment e env pi1 = fee_payment e env pi" unfolding fee_payment_def [abs_def] to by (rule refl)
  show ?thesis unfolding tx_actions_def [abs_def] valid_transfer_cong [OF assms, of e env] fee by (rule refl)
qed

lemma valid_transfer_None_book:
  assumes "valid_transfer e env pi tx = None" and "sdk_ok M e" and "pub_inv e pi" and "0 \<le> tx_Value tx"
    and run: "process_tx e env n tx pi = Done pi'"
  shows "book_of pi' = (case fee_payment e env pi tx of Some (i, v) \<Rightarrow> book_step n (Payment i v) (book_of pi) | None \<Rightarrow> book_of pi)"
proof (cases "tx_To tx")
  case None
  then show ?thesis using run by (simp add: process_tx_def fee_payment_def)
next
  case (Some to)
  let ?d = "case tx_Data tx of None \<Rightarrow> [] | Some d \<Rightarrow> d"
  show ?thesis
  proof (cases "checkErc20 env ?d")
    case (Inl err)
    show ?thesis
    proof (cases "Receipt env (tx_Hash tx) = Inr 1")
      case True
      then have "process_fee e n tx to pi = Done pi'" using run Some Inl by (simp add: process_tx_def checkEachTx_def)
      from process_fee_book [OF assms(2-4) this] show ?thesis
        using Some Inl True by (auto simp: fee_payment_def split: option.splits)
    qed (use run Some Inl in \<open>auto simp: process_tx_def checkEachTx_def fee_payment_def split: option.splits\<close>)
  next
    case (Inr p)
    obtain dest amount where p: "p = (dest, amount)" by (cases p)
    have "fee_payment e env pi tx = None" using Some Inr by (simp add: fee_payment_def)
    moreover have "pi' = pi"
      using run assms(1) Some Inr p
      by (cases "transfer_sender e tx"; cases "case transfer_sender e tx of Done r \<Rightarrow> r | _ \<Rightarrow> Inl []")
        (auto simp: process_tx_def checkEachTx_def ProcessInBoundERC20_eq valid_transfer_def split: if_splits)
    ultimately show ?thesis by simp
  qed
qed

lemma process_tx_book:
  assumes "sdk_ok M e" and "hash_ok e" and "pub_inv e pi" and "token_not_pool e pi" and "0 \<le> tx_Value tx"
    and run: "process_tx e env n tx pi = Done pi'"
  shows "book_of pi' = book_steps n (tx_actions e env pi tx) (book_of pi)"
proof (cases "valid_transfer e env pi tx")
  case None
  then show ?thesis
    using valid_transfer_None_book [OF None assms(1,3,5) run]
    by (auto simp: tx_actions_def book_steps_def split: option.splits)
next
  case (Some q)
  then obtain to dest sender amount where t: "EthHex e to = tokenAddr pi"
      "q = (sender, \<lparr>Denom = InBoundDenom, Amount = amount\<rparr>)"
    and eq: "process_tx e env n tx pi = exec_bind (processInboundTx e (tx_key e tx) n sender dest amount to pi)
      (\<lambda>(err, pi1). case err of Some _ \<Rightarrow> Done pi1 | None \<Rightarrow> process_fee e n tx to pi1)"
    by (rule valid_transfer_Some)
  have key: "tx_key e tx = hex_EncodeToString (tx_Hash tx)" using assms(2) by (simp add: hash_ok_def tx_key_def)
  from run eq obtain err pi1 where r: "processInboundTx e (tx_key e tx) n sender dest amount to pi = Done (err, pi1)"
    and rest: "(case err of Some _ \<Rightarrow> Done pi1 | None \<Rightarrow> process_fee e n tx to pi1) = Done pi'"
    by (auto simp: exec_bind_eq_Done_iff)
  have "checkToBridge e to pi1 = checkToBridge e to pi"
    using processInboundTx_backing [OF assms(1,3) r] by (simp add: checkToBridge_def pub_GetPool_def)
  then have "pi' = pi1"
    using rest assms(4) t(1) by (auto simp: token_not_pool_def process_fee_def split: option.splits)
  then show ?thesis
    using processInboundTx_book [OF assms(1,3) t(1) r [unfolded key]] Some t(2) by (simp add: tx_actions_def book_steps_def)
qed

lemma book_steps_append: "book_steps h (as @ bs) b = book_steps h bs (book_steps h as b)"
  by (simp add: book_steps_def)

lemma token_not_pool_cong:
  "tokenAddr pi1 = tokenAddr pi \<Longrightarrow> pub_lastTwoPools pi1 = pub_lastTwoPools pi \<Longrightarrow> token_not_pool e pi1 = token_not_pool e pi"
  by (simp add: token_not_pool_def checkToBridge_def pub_GetPool_def)

lemma process_txs_book:
  assumes "sdk_ok M e" and "hash_ok e" and "pub_inv e pi" and "token_not_pool e pi" and "\<forall>tx \<in> set txs. 0 \<le> tx_Value tx"
    and "exec_fold (process_tx e env n) txs pi = Done pi'"
  shows "book_of pi' = book_steps n (concat (map (tx_actions e env pi) txs)) (book_of pi)"
  using assms(3-6)
proof (induction txs arbitrary: pi)
  case Nil
  then show ?case by (simp add: book_steps_def)
next
  case (Cons tx txs)
  then obtain pi1 where s1: "process_tx e env n tx pi = Done pi1" and rest: "exec_fold (process_tx e env n) txs pi1 = Done pi'"
    by (auto simp: exec_bind_eq_Done_iff)
  have v: "0 \<le> tx_Value tx" using Cons.prems(3) by simp
  have same: "tokenAddr pi1 = tokenAddr pi" "pub_lastTwoPools pi1 = pub_lastTwoPools pi"
    using process_tx_backing [OF assms(1) Cons.prems(1) v s1] by auto
  have "book_of pi' = book_steps n (concat (map (tx_actions e env pi1) txs)) (book_of pi1)"
    using Cons.IH [OF process_tx_inv [OF assms(1) Cons.prems(1) v s1] _ _ rest] Cons.prems(2,3) token_not_pool_cong [OF same] by simp
  then show ?case
    using process_tx_book [OF assms(1,2) Cons.prems(1,2) v s1] tx_actions_cong [OF same]
    by (simp add: book_steps_append)
qed

text \<open>What a block does to the book, and what the clean-up after it does.\<close>

lemma processEachBlock_book:
  assumes "sdk_ok M e" and "hash_ok e" and "pub_inv e pi" and "token_not_pool e pi"
    and "\<forall>tx \<in> set (Transactions b). 0 \<le> tx_Value tx" and "processEachBlock e env b pi = Done pi'"
  shows "book_of pi' = book_steps (NumberU64 b) (block_actions e env pi b) (book_of pi)"
  using process_txs_book [OF assms(1-5)] assms(6) by (simp add: processEachBlock_def block_actions_def)

lemma DeleteExpired_book:
  assumes "pub_inv e pi"
  shows "book_of (DeleteExpired h pi) = book_expire h (book_of pi)"
proof -
  have wf: "sm_wf (pendingInbounds pi)" "sm_wf (pendingInboundsBnB pi)" using assms by (simp_all add: pub_inv_def pending_ok_def)
  have "queued (DeleteExpired h pi) = queued pi" by (simp add: DeleteExpired_def Let_def)
  then show ?thesis
    by (auto simp: book_of_def book_expire_def DeleteExpired_load [OF wf]
        entry_of_def intro!: ext split: option.splits)
qed

text \<open>A transfer that is the first the node hears of its transaction waits.\<close>

lemma process_tx_first:
  assumes "sdk_ok M e" and "tx_To tx = Some to" and "EthHex e to = tokenAddr pi" and "Receipt env (tx_Hash tx) = Inr 1"
    and "checkErc20 env (case tx_Data tx of None \<Rightarrow> [] | Some d \<Rightarrow> d) = Inr (dest, amount)"
    and "transfer_sender e tx = Done (Inr sender)" and "\<bar>amount\<bar> < 2 ^ M"
    and "checkToBridge e dest pi" and "token_not_pool e pi"
    and "sm_Load (tx_key e tx) (pendingInbounds pi) = None" and "sm_Load (tx_key e tx) (pendingInboundsBnB pi) = None"
  shows "process_tx e env n tx pi = Done (pi\<lparr>pendingInboundsBnB := sm_Delete (tx_key e tx) (pendingInboundsBnB pi),
    pendingInbounds := sm_Store (tx_key e tx) \<lparr>itx_address = sender, pubBlockHeight = n,
      itx_token = \<lparr>Denom = InBoundDenom, Amount = amount\<rparr>, itx_fee = \<lparr>Denom = InBoundDenomFee, Amount = 0\<rparr>\<rparr>
      (pendingInbounds pi)\<rparr>)"
proof -
  have "\<not> checkToBridge e to (pi\<lparr>pendingInboundsBnB := x, pendingInbounds := y\<rparr>)" for x y
    using assms(3,9) by (simp add: token_not_pool_def checkToBridge_def pub_GetPool_def)
  then have "process_fee e n tx to (pi\<lparr>pendingInboundsBnB := x, pendingInbounds := y\<rparr>)
      = Done (pi\<lparr>pendingInboundsBnB := x, pendingInbounds := y\<rparr>)" for x y
    by (simp add: process_fee_def)
  then show ?thesis
    using assms(2-8) processInboundTx_no_fee [OF assms(1,10,3,11)]
    by (simp add: process_tx_def checkEachTx_def ProcessInBoundERC20_eq tx_key_def)
qed

end
