(* ===== verification/Bridge_Monitor.thy ===== *)
theory Bridge_Monitor
  imports Bridge_Prelude
begin

text \<open>
  \<open>monitor/metric.go\<close>: the two gauges the event loop sets, and what is exported of them. A
  gauge is set to the size of a retry pool; as a \<open>float64\<close> such a size is exact, so the
  value is a natural number here. Registering with prometheus (\<open>MustRegister\<close>) is kept as
  the list of the names that a scrape of the process shows.
\<close>

record Metric =
  inboundTxNum :: nat
  outboundTxNum :: nat
  registered :: "string list"

definition NewMetric :: Metric where
  "NewMetric = \<lparr>inboundTxNum = 0, outboundTxNum = 0, registered = []\<rparr>"

definition UpdateInboundTxNum :: "nat \<Rightarrow> Metric \<Rightarrow> Metric" where
  "UpdateInboundTxNum num m = m\<lparr>inboundTxNum := num\<rparr>"

definition UpdateOutboundTxNum :: "nat \<Rightarrow> Metric \<Rightarrow> Metric" where
  "UpdateOutboundTxNum num m = m\<lparr>outboundTxNum := num\<rparr>"

definition metric_Enable :: "Metric \<Rightarrow> Metric" where
  "metric_Enable m = m\<lparr>registered := registered m @ [''Joltify_bridge_inbound_tx'']\<rparr>"

text \<open>What a scrape shows: the registered gauges with their values.\<close>

definition scrape :: "Metric \<Rightarrow> (string \<times> nat) list" where
  "scrape m = filter (\<lambda>(name, _). name \<in> set (registered m))
     [(''Joltify_bridge_inbound_tx'', inboundTxNum m), (''Joltify_bridge_outbound_tx'', outboundTxNum m)]"

lemma registered_update [simp]:
  "registered (UpdateInboundTxNum n m) = registered m" "registered (UpdateOutboundTxNum n m) = registered m"
  by (simp_all add: UpdateInboundTxNum_def UpdateOutboundTxNum_def)

text \<open>\<open>Enable\<close> registers one gauge only: the other is updated and never shown.\<close>

lemma outbound_not_exported:
  "map fst (scrape (UpdateOutboundTxNum n (UpdateInboundTxNum k (metric_Enable NewMetric)))) = [''Joltify_bridge_inbound_tx'']"
  by (simp add: scrape_def UpdateOutboundTxNum_def UpdateInboundTxNum_def metric_Enable_def NewMetric_def)

end
