(* ===== verification/Bridge_Loop.thy ===== *)
theory Bridge_Loop
  imports Jolt_Bridge Pub_Send Bridge_Monitor
begin

text \<open>
  \<open>bridge/joltifyBridge.go\<close> and \<open>bridge/helper.go\<close>: the event loop that owns both chain
  instances. One goroutine takes one event at a time (a change of the validators, a block or
  a transaction of the Joltify chain, a block of the public chain, a queued inbound or
  outbound request), so each case of its \<open>select\<close> is one handler here, run to its end. The
  goroutines a handler starts only poll a transaction's status and may put the request back:
  they are kept as pending checks and finish, in any order, as events of their own.

  What the chains answer while an event is handled is part of the event.
\<close>

section \<open>State and events\<close>

datatype status_check =
    MintCheck InboundReq string
  | SendCheck OutBoundReq string

text \<open>The two chain instances, what each chain was sent, the checks that still run, the gauges.\<close>

record bridge =
  br_pi :: PubChainInstance
  br_jc :: JoltifyChainInstance
  br_joltSent :: "bytes list"
  br_pubSent :: "SignedTx list"
  br_checks :: "status_check list"
  br_metric :: Metric

type_synonym backoff_retry = "(nat \<Rightarrow> goerror option) \<Rightarrow> nat \<times> goerror option"

text \<open>
  The height of a public block is a big integer. A check ends with what its polls were
  answered: the chain the poll asks, at each poll.
\<close>

datatype bridge_event =
    ValidatorUpdate jolt_env "TmValidator list"
  | JoltBlock jolt_env i64
  | JoltTx query_env nat i64 bytes
  | PubBlock pub_env send_env jolt_env nat "goerror + EthBlock"
  | TakeInbound jolt_env
  | TakeOutbound jolt_env send_env
  | MintChecked nat backoff_retry "nat \<Rightarrow> grpc_client"
  | SendChecked nat backoff_retry "nat \<Rightarrow> pub_env"

section \<open>bridge/helper.go\<close>

text \<open>The protobuf getters are safe on nil.\<close>

definition GetPoolPubKey :: "VaultPool option \<Rightarrow> string" where
  "GetPoolPubKey p = (case Option.bind p CreatePool of None \<Rightarrow> [] | Some cp \<Rightarrow> PoolPubKey cp)"

definition query_pool :: "ext \<Rightarrow> VaultPool option \<Rightarrow> goerror + PoolInfo" where
  "query_pool e p =
     (let pk = GetPoolPubKey p in
      case PoolPubKeyToEthAddress e pk of
        Inl err \<Rightarrow> Inl err
      | Inr ethAddr \<Rightarrow>
     (case PoolPubKeyToJoltAddress e pk of
        Inl err \<Rightarrow> Inl err
      | Inr addr \<Rightarrow> Inr \<lparr>Pk = pk, JoltifyAddress = addr, EthAddress = ethAddr, VaultInfo = None\<rparr>))"

definition NeedUpdate :: "ext \<Rightarrow> VaultPool option list \<Rightarrow> PoolInfo option list \<Rightarrow> bool" where
  "NeedUpdate e qcPools curPools =
     (case (curPools ! 0, curPools ! 1) of
        (Some cur0, Some cur1) \<Rightarrow>
          (case query_pool e (qcPools ! 0) of
             Inl _ \<Rightarrow> False
           | Inr q0 \<Rightarrow>
          (case query_pool e (qcPools ! 1) of
             Inl _ \<Rightarrow> False
           | Inr q1 \<Rightarrow>
               \<not> (JoltifyAddress q0 = JoltifyAddress cur1 \<and> JoltifyAddress q1 = JoltifyAddress cur0)))
      | _ \<Rightarrow> True)"

section \<open>Validators and blocks of the Joltify chain\<close>

definition on_validators ::
    "ext \<Rightarrow> jolt_env \<Rightarrow> TmValidator list \<Rightarrow> bridge \<Rightarrow> bridge exec" where
  "on_validators e env validatorUpdates s =
     exec_bind (GetLastBlockHeight (je_grpc env)) (\<lambda>lastHeight.
     case lastHeight of
        Inl _ \<Rightarrow> Done s
      | Inr height \<Rightarrow>
          exec_bind (HandleUpdateValidators e env validatorUpdates height (br_jc s)) (\<lambda>(_, jc).
            Done (s\<lparr>br_jc := jc\<rparr>)))"

text \<open>For each new block one failed inbound request goes back to the channel.\<close>

definition retry_inbound :: "i64 \<Rightarrow> bridge \<Rightarrow> bridge exec" where
  "retry_inbound height s =
     exec_bind (pub_PopItem (br_pi s)) (\<lambda>(itemInbound, pi1).
       let s1 = s\<lparr>br_metric := UpdateInboundTxNum (pub_Size pi1) (br_metric s)\<rparr> in
       case itemInbound of
         None \<Rightarrow> Done (s1\<lparr>br_pi := pi1\<rparr>)
       | Some item \<Rightarrow>
           exec_bind (chan_send reqCacheSize (inbound_SetItemHeight height item) (InboundReqChan pi1)) (\<lambda>c.
             Done (s1\<lparr>br_pi := pi1\<lparr>InboundReqChan := c\<rparr>\<rparr>)))"

text \<open>The first filling of both caches, in the order of the chain's answer.\<close>

definition fill_pools :: "ext \<Rightarrow> VaultPool option list \<Rightarrow> bridge \<Rightarrow> bridge exec" where
  "fill_pools e poolInfo =
     exec_fold (\<lambda>el s.
       exec_bind (pub_UpdatePool e el (br_pi s)) (\<lambda>(_, pi1).
       exec_bind (jolt_UpdatePool e el (br_jc s)) (\<lambda>(_, jc1).
       Done (s\<lparr>br_pi := pi1, br_jc := jc1\<rparr>)))) poolInfo"

definition refresh_pools :: "ext \<Rightarrow> i64 \<Rightarrow> VaultPool option list \<Rightarrow> bridge \<Rightarrow> bridge exec" where
  "refresh_pools e height poolInfo s =
     (if NeedUpdate e poolInfo (pub_GetPool (br_pi s)) then
        exec_bind (pub_UpdatePool e (poolInfo ! 0) (br_pi s)) (\<lambda>(_, pi1).
        exec_bind (jolt_UpdatePool e (poolInfo ! 0) (br_jc s)) (\<lambda>(prev, jc1).
        exec_bind (or_panic ''nil pointer dereference'' prev) (\<lambda>previousPool.
          if Pk previousPool \<noteq> GetPoolPubKey (poolInfo ! 0) then
            Done (s\<lparr>br_jc := jolt_AddMoveFundItem previousPool (height - MINCHECKBLOCKGAP + 5) jc1,
                    br_pi := pub_AddMoveFundItem previousPool (pub_CurrentHeight pi1 - MINCHECKBLOCKGAP + 5) pi1\<rparr>)
          else Done (s\<lparr>br_jc := jc1, br_pi := pi1\<rparr>))))
      else Done s)"

definition pool_addr :: "VaultPool option \<Rightarrow> acc_address exec" where
  "pool_addr p =
     exec_bind (or_panic ''nil pointer dereference'' p) (\<lambda>v.
     exec_bind (or_panic ''nil pointer dereference'' (CreatePool v)) (\<lambda>cp. Done (PoolAddr cp)))"

text \<open>
  The log line of a failed move dereferences the second pool of the answer.
\<close>

definition move_jolt_funds ::
    "ext \<Rightarrow> jolt_env \<Rightarrow> i64 \<Rightarrow> VaultPool option list \<Rightarrow> bridge \<Rightarrow> bridge exec" where
  "move_jolt_funds e env height poolInfo s =
     exec_bind (jolt_PopMoveFundItemAfterBlock height (br_jc s)) (\<lambda>(prev, _, jc1).
     let s1 = s\<lparr>br_jc := jc1\<rparr> in
     case prev of
       None \<Rightarrow> Done s1
     | Some previousPool \<Rightarrow>
         exec_bind (CheckWhetherSigner env (VaultInfo previousPool)) (\<lambda>r.
         case r of
           Inl _ \<Rightarrow> Done s1
         | Inr isSigner \<Rightarrow>
             if \<not> isSigner then Done s1
             else
               exec_bind (pool_addr (poolInfo ! 0)) (\<lambda>to.
               exec_bind (jolt_MoveFunds e env previousPool to height (br_joltSent s1)) (\<lambda>((emptyAcc, err), sent).
                 let s2 = s1\<lparr>br_joltSent := sent\<rparr> in
                 if emptyAcc then Done s2
                 else exec_bind (if err \<noteq> None then pool_addr (poolInfo ! 1) else Done []) (\<lambda>_.
                   Done (s2\<lparr>br_jc := jolt_AddMoveFundItem previousPool height (br_jc s2)\<rparr>))))))"

definition on_jolt_block ::
    "ext \<Rightarrow> jolt_env \<Rightarrow> i64 \<Rightarrow> bridge \<Rightarrow> bridge exec" where
  "on_jolt_block e env currentBlockHeight s =
     exec_bind (CheckAndUpdatePool e env currentBlockHeight (br_jc s) (br_joltSent s)) (\<lambda>(_, jc1, sent1).
     let s1 = s\<lparr>br_jc := jc1\<lparr>jolt_CurrentHeight := currentBlockHeight\<rparr>, br_joltSent := sent1\<rparr> in
     case QueryLastPoolAddress (je_grpc env) of
       Inl _ \<Rightarrow> Done s1
     | Inr poolInfo \<Rightarrow>
         if length poolInfo \<noteq> 2 then Done s1
         else
           exec_bind (retry_inbound currentBlockHeight s1) (\<lambda>s2.
             if pub_GetPool (br_pi s2) ! 0 = None then fill_pools e poolInfo s2
             else
               exec_bind (refresh_pools e currentBlockHeight poolInfo s2)
                 (move_jolt_funds e env currentBlockHeight poolInfo)))"

definition on_jolt_tx :: "ext \<Rightarrow> query_env \<Rightarrow> nat \<Rightarrow> i64 \<Rightarrow> bytes \<Rightarrow> bridge \<Rightarrow> bridge exec" where
  "on_jolt_tx e env code blockHeight tx s =
     (if code \<noteq> 0 then Done s
      else exec_bind (CheckOutBoundTx e env blockHeight tx (br_jc s)) (\<lambda>jc. Done (s\<lparr>br_jc := jc\<rparr>)))"

section \<open>Blocks of the public chain\<close>

definition retry_outbound :: "i64 \<Rightarrow> bridge \<Rightarrow> bridge exec" where
  "retry_outbound height s =
     exec_bind (jolt_PopItem (br_jc s)) (\<lambda>(itemOutBound, jc1).
       let s1 = s\<lparr>br_metric := UpdateOutboundTxNum (jolt_Size jc1) (br_metric s)\<rparr> in
       case itemOutBound of
         None \<Rightarrow> Done (s1\<lparr>br_jc := jc1\<rparr>)
       | Some item \<Rightarrow>
           exec_bind (chan_send reqCacheSize (outbound_SetItemHeight height item) (OutboundReqChan jc1)) (\<lambda>c.
             Done (s1\<lparr>br_jc := jc1\<lparr>OutboundReqChan := c\<rparr>\<rparr>)))"

definition move_pub_funds :: "ext \<Rightarrow> send_env \<Rightarrow> jolt_env \<Rightarrow> i64 \<Rightarrow> bridge \<Rightarrow> bridge exec" where
  "move_pub_funds e senv jenv height s =
     exec_bind (pub_PopMoveFundItemAfterBlock height (br_pi s)) (\<lambda>(prev, _, pi1).
     let s1 = s\<lparr>br_pi := pi1\<rparr> in
     case prev of
       None \<Rightarrow> Done s1
     | Some previousPool \<Rightarrow>
         let currentPool = pub_GetPool (br_pi s1) in
         exec_bind (CheckWhetherSigner jenv (VaultInfo previousPool)) (\<lambda>r.
         case r of
           Inl _ \<Rightarrow> Done s1
         | Inr isSigner \<Rightarrow>
             if \<not> isSigner then Done s1
             else
               exec_bind (or_panic ''nil pointer dereference'' (currentPool ! 1)) (\<lambda>latest.
               exec_bind (pub_MoveFunds e senv (br_pi s1) previousPool (EthAddress latest) height (br_pubSent s1))
                 (\<lambda>((emptyAccount, err), sent).
                   let s2 = s1\<lparr>br_pubSent := sent\<rparr>;
                       s3 = s2\<lparr>br_pi := pub_AddMoveFundItem previousPool (pub_CurrentHeight (br_pi s2)) (br_pi s2)\<rparr>
                   in if err \<noteq> None then Done s3
                      else if emptyAccount then Done s2
                      else Done s3))))"

text \<open>\<open>Int64()\<close> and \<open>Uint64()\<close> of the block's number are its low 64 bits.\<close>

definition on_pub_block ::
    "ext \<Rightarrow> pub_env \<Rightarrow> send_env \<Rightarrow> jolt_env \<Rightarrow> nat \<Rightarrow> goerror + EthBlock \<Rightarrow> bridge \<Rightarrow> bridge exec" where
  "on_pub_block e penv senv jenv number block s =
     exec_bind (ProcessNewBlock e penv block (br_pi s)) (\<lambda>(_, pi1).
     let pi2 = DeleteExpired (of_nat number) (pi1\<lparr>pub_CurrentHeight := of_nat number\<rparr>)
     in exec_bind (retry_outbound (of_nat number) (s\<lparr>br_pi := pi2\<rparr>))
          (move_pub_funds e senv jenv (of_nat number)))"

section \<open>Requests from the channels\<close>

text \<open>A receive is only enabled on a channel that is not empty.\<close>

definition on_inbound :: "ext \<Rightarrow> jolt_env \<Rightarrow> bridge \<Rightarrow> bridge exec" where
  "on_inbound e env s =
     (case chan_recv (InboundReqChan (br_pi s)) of
        None \<Rightarrow> Block
      | Some (item, c) \<Rightarrow>
          let s1 = s\<lparr>br_pi := (br_pi s)\<lparr>InboundReqChan := c\<rparr>\<rparr>;
              pools = jolt_GetPool (br_jc s1)
          in exec_bind (or_panic ''nil pointer dereference'' (pools ! 1)) (\<lambda>pool1.
             exec_bind (CheckWhetherSigner env (VaultInfo pool1)) (\<lambda>r.
             case r of
               Inl _ \<Rightarrow> Done s1
             | Inr found \<Rightarrow>
                 if found then
                   exec_bind (ProcessInBound e env item (br_jc s1) (br_joltSent s1)) (\<lambda>((txHash, index, err), sent).
                     let s2 = s1\<lparr>br_joltSent := sent\<rparr>
                     in if err \<noteq> None then Done (s2\<lparr>br_pi := pub_AddItem e item (br_pi s2)\<rparr>)
                        else Done (s2\<lparr>br_checks := br_checks s2 @ [MintCheck item index]\<rparr>))
                 else Done s1)))"

definition on_outbound :: "ext \<Rightarrow> jolt_env \<Rightarrow> send_env \<Rightarrow> bridge \<Rightarrow> bridge exec" where
  "on_outbound e env senv s =
     (case chan_recv (OutboundReqChan (br_jc s)) of
        None \<Rightarrow> Block
      | Some (item, c) \<Rightarrow>
          let s1 = s\<lparr>br_jc := (br_jc s)\<lparr>OutboundReqChan := c\<rparr>\<rparr>;
              pools = jolt_GetPool (br_jc s1)
          in exec_bind (or_panic ''nil pointer dereference'' (pools ! 1)) (\<lambda>pool1.
             exec_bind (CheckWhetherSigner env (VaultInfo pool1)) (\<lambda>r.
             case r of
               Inl _ \<Rightarrow> Done s1
             | Inr found \<Rightarrow>
                 if found then
                   (let (toAddr, fromAddr, amount, blockHeight) = GetOutBoundInfo item in
                    exec_bind (ProcessOutBound e senv (br_pi s1) toAddr fromAddr amount blockHeight (br_pubSent s1))
                      (\<lambda>(res, sent).
                        let s2 = s1\<lparr>br_pubSent := sent\<rparr>
                        in case res of
                             Inl _ \<Rightarrow> Done (s2\<lparr>br_jc := jolt_AddItem e item (br_jc s2)\<rparr>)
                           | Inr txHash \<Rightarrow> Done (s2\<lparr>br_checks := br_checks s2 @ [SendCheck item txHash]\<rparr>)))
                 else Done s1)))"

section \<open>The checks\<close>

definition drop_check :: "nat \<Rightarrow> bridge \<Rightarrow> bridge" where
  "drop_check n s = s\<lparr>br_checks := take n (br_checks s) @ drop (Suc n) (br_checks s)\<rparr>"

definition on_mint_checked ::
    "ext \<Rightarrow> nat \<Rightarrow> backoff_retry \<Rightarrow> (nat \<Rightarrow> grpc_client) \<Rightarrow> bridge \<Rightarrow> bridge exec" where
  "on_mint_checked e n Retry clients s =
     (if length (br_checks s) \<le> n then Block
      else case br_checks s ! n of
        SendCheck _ _ \<Rightarrow> Block
      | MintCheck item index \<Rightarrow>
          let s1 = drop_check n s
          in if jolt_CheckTxStatus Retry clients index \<noteq> None
             then Done (s1\<lparr>br_pi := pub_AddItem e item (br_pi s1)\<rparr>)
             else Done s1)"

definition on_send_checked ::
    "ext \<Rightarrow> nat \<Rightarrow> backoff_retry \<Rightarrow> (nat \<Rightarrow> pub_env) \<Rightarrow> bridge \<Rightarrow> bridge exec" where
  "on_send_checked e n Retry envs s =
     (if length (br_checks s) \<le> n then Block
      else case br_checks s ! n of
        MintCheck _ _ \<Rightarrow> Block
      | SendCheck item txHash \<Rightarrow>
          let s1 = drop_check n s
          in case pub_CheckTxStatus e Retry envs txHash of
               None \<Rightarrow> Done s1
             | Some err \<Rightarrow>
                 if err \<noteq> ''tx failed'' then Done s1
                 else Done (s1\<lparr>br_jc := jolt_AddItem e item (br_jc s1)\<rparr>))"

section \<open>The loop\<close>

fun handle :: "ext \<Rightarrow> bridge_event \<Rightarrow> bridge \<Rightarrow> bridge exec" where
  "handle e (ValidatorUpdate env updates) s = on_validators e env updates s"
| "handle e (JoltBlock env height) s = on_jolt_block e env height s"
| "handle e (JoltTx env code height tx) s = on_jolt_tx e env code height tx s"
| "handle e (PubBlock penv senv jenv number block) s = on_pub_block e penv senv jenv number block s"
| "handle e (TakeInbound env) s = on_inbound e env s"
| "handle e (TakeOutbound env senv) s = on_outbound e env senv s"
| "handle e (MintChecked n Retry clients) s = on_mint_checked e n Retry clients s"
| "handle e (SendChecked n Retry envs) s = on_send_checked e n Retry envs s"

text \<open>
  A step is an event handled to its end; a run is any sequence of events, kept with the
  state each was handled in. Transactions of a block carry amounts that are not negative.
\<close>

fun event_ok :: "bridge_event \<Rightarrow> bool" where
  "event_ok (PubBlock penv senv jenv number (Inr b)) \<longleftrightarrow> (\<forall>tx \<in> set (Transactions b). 0 \<le> tx_Value tx)"
| "event_ok _ \<longleftrightarrow> True"

inductive bridge_run :: "ext \<Rightarrow> bridge \<Rightarrow> (bridge \<times> bridge_event) list \<Rightarrow> bridge \<Rightarrow> bool" for e where
  start: "bridge_run e s [] s"
| step: "bridge_run e s tr s1 \<Longrightarrow> event_ok ev \<Longrightarrow> handle e ev s1 = Done s' \<Longrightarrow> bridge_run e s (tr @ [(s1, ev)]) s'"

inductive_cases bridge_run_snocE: "bridge_run e s (tr @ [x]) s'"
inductive_simps bridge_run_nil: "bridge_run e s [] s'"

text \<open>The bridge after a start-up that answered without error.\<close>

definition initial_bridge :: "string \<Rightarrow> JoltifyChainInstance \<Rightarrow> Metric \<Rightarrow> bridge" where
  "initial_bridge addr jc metric =
     \<lparr>br_pi = NewChainInstance addr, br_jc = jc, br_joltSent = [], br_pubSent = [], br_checks = [],
      br_metric = metric\<rparr>"

end
