(* ===== verification/Bridge_Frames.thy ===== *)
theory Bridge_Frames
  imports Bridge_Loop Jolt_Bridge_Correct
begin

text \<open>
  What the parts of the event loop's handlers change, and what they leave alone: one lemma
  per part, from which the properties of the loop follow.
\<close>

section \<open>Moving funds\<close>

text \<open>A queue of retired pools after a pop, or a pop and filing the same pool again.\<close>

definition fund_shrunk :: "(i64, PoolInfo) syncmap \<Rightarrow> (i64, PoolInfo) syncmap \<Rightarrow> bool" where
  "fund_shrunk m m' \<longleftrightarrow> (sm_wf m \<longrightarrow> sm_wf m' \<and> snd ` set m' \<subseteq> snd ` set m)"

lemma fund_shrunk_refl [simp]: "fund_shrunk m m"
  by (simp add: fund_shrunk_def)

lemma fund_shrunk_taken: "fund_shrunk m (sm_Delete k m)"
  by (auto simp: fund_shrunk_def sm.wf_del set_sm_Delete)

lemma fund_shrunk_filed: "sm_Load k m = Some p \<Longrightarrow> fund_shrunk m (sm_Store h p (sm_Delete k m))"
  using sm_Load_eq_Some_iff [of m k p]
  by (auto simp: fund_shrunk_def sm.wf_del sm.wf_store set_sm_Store set_sm_Delete intro!: image_eqI)

lemma pub_fund_pop_frame:
  assumes "pub_PopMoveFundItemAfterBlock c pi = Done (r, k, pi')"
  obtains (none) "r = None" and "pi' = pi"
  | (some) p where "r = Some p" and "sm_Load k (pub_moveFundReq pi) = Some p"
      and "pi' = pi\<lparr>pub_moveFundReq := sm_Delete k (pub_moveFundReq pi)\<rparr>"
proof (cases "sint (scan_min (pub_moveFundReq pi)) < sint int64_max \<and> due c (scan_min (pub_moveFundReq pi))")
  case False
  then show thesis using assms none by (auto simp: pub_PopMoveFundItemAfterBlock_def Let_def split: if_splits)
next
  case True
  with assms have "pub_take_fund (scan_min (pub_moveFundReq pi)) pi = Done (r, k, pi')"
    by (simp add: pub_PopMoveFundItemAfterBlock_def)
  then show thesis
  proof (cases "sm_Load (scan_min (pub_moveFundReq pi)) (pub_moveFundReq pi)")
    case (Some p)
    moreover from this have "r = Some p" "k = scan_min (pub_moveFundReq pi)"
      "pi' = pi\<lparr>pub_moveFundReq := sm_Delete k (pub_moveFundReq pi)\<rparr>"
      using \<open>pub_take_fund (scan_min (pub_moveFundReq pi)) pi = Done (r, k, pi')\<close>
      by (auto simp: pub_take_fund_def sm_LoadAndDelete_eq)
    ultimately show thesis using some by simp
  qed (simp add: pub_take_fund_def sm_LoadAndDelete_eq)
qed

lemma jolt_fund_pop_frame:
  assumes "jolt_PopMoveFundItemAfterBlock c jc = Done (r, k, jc')"
  obtains (none) "r = None" and "jc' = jc"
  | (some) p where "r = Some p" and "sm_Load k (jolt_moveFundReq jc) = Some p"
      and "jc' = jc\<lparr>jolt_moveFundReq := sm_Delete k (jolt_moveFundReq jc)\<rparr>"
proof (cases "sint (scan_min (jolt_moveFundReq jc)) < sint int64_max \<and> due c (scan_min (jolt_moveFundReq jc))")
  case False
  then show thesis using assms none by (auto simp: jolt_PopMoveFundItemAfterBlock_def Let_def split: if_splits)
next
  case True
  with assms have "jolt_take_fund (scan_min (jolt_moveFundReq jc)) jc = Done (r, k, jc')"
    by (simp add: jolt_PopMoveFundItemAfterBlock_def)
  then show thesis
  proof (cases "sm_Load (scan_min (jolt_moveFundReq jc)) (jolt_moveFundReq jc)")
    case (Some p)
    moreover from this have "r = Some p" "k = scan_min (jolt_moveFundReq jc)"
      "jc' = jc\<lparr>jolt_moveFundReq := sm_Delete k (jolt_moveFundReq jc)\<rparr>"
      using \<open>jolt_take_fund (scan_min (jolt_moveFundReq jc)) jc = Done (r, k, jc')\<close>
      by (auto simp: jolt_take_fund_def sm_LoadAndDelete_eq)
    ultimately show thesis using some by simp
  qed (simp add: jolt_take_fund_def sm_LoadAndDelete_eq)
qed

lemma move_jolt_funds_frame:
  assumes "move_jolt_funds e env h ps s = Done s'"
  shows "\<exists>m sent. s' = s\<lparr>br_jc := (br_jc s)\<lparr>jolt_moveFundReq := m\<rparr>, br_joltSent := sent\<rparr>
    \<and> fund_shrunk (jolt_moveFundReq (br_jc s)) m"
proof -
  obtain r k jc1 where pop: "jolt_PopMoveFundItemAfterBlock h (br_jc s) = Done (r, k, jc1)"
    using assms by (auto simp: move_jolt_funds_def exec_bind_eq_Done_iff)
  from pop show ?thesis
  proof (cases rule: jolt_fund_pop_frame)
    case none
    then have "s' = s" using assms pop by (simp add: move_jolt_funds_def)
    then show ?thesis by (intro exI [of _ "jolt_moveFundReq (br_jc s)"] exI [of _ "br_joltSent s"]) simp
  next
    case (some p)
    let ?m = "sm_Delete k (jolt_moveFundReq (br_jc s))"
    obtain q where q: "CheckWhetherSigner env (VaultInfo p) = Done q"
      using assms pop some(1) by (auto simp: move_jolt_funds_def Let_def exec_bind_eq_Done_iff)
    have "s' = s\<lparr>br_jc := jc1\<rparr> \<or> (\<exists>sent. s' = s\<lparr>br_jc := jc1, br_joltSent := sent\<rparr>)
      \<or> (\<exists>sent. s' = s\<lparr>br_joltSent := sent, br_jc := jolt_AddMoveFundItem p h jc1\<rparr>)"
    proof (cases "q = Inr True")
      case False
      then show ?thesis using assms pop some(1) q
        by (cases q) (simp_all add: move_jolt_funds_def Let_def)
    next
      case True
      with assms pop some(1) q show ?thesis
        by (auto simp: move_jolt_funds_def Let_def exec_bind_eq_Done_iff split: if_splits)
    qed
    then show ?thesis
    proof (elim disjE exE)
      assume "s' = s\<lparr>br_jc := jc1\<rparr>"
      then show ?thesis using some
        by (intro exI [of _ ?m] exI [of _ "br_joltSent s"]) (simp add: fund_shrunk_taken)
    next
      fix sent assume "s' = s\<lparr>br_jc := jc1, br_joltSent := sent\<rparr>"
      then show ?thesis using some
        by (intro exI [of _ ?m] exI [of _ sent]) (simp add: fund_shrunk_taken)
    next
      fix sent assume "s' = s\<lparr>br_joltSent := sent, br_jc := jolt_AddMoveFundItem p h jc1\<rparr>"
      then show ?thesis using some
        by (intro exI [of _ "sm_Store h p ?m"] exI [of _ sent])
          (auto simp: fund_shrunk_filed jolt_AddMoveFundItem_def intro!: bridge.equality)
    qed
  qed
qed

lemma move_pub_funds_frame:
  assumes "move_pub_funds e senv jenv h s = Done s'"
  shows "\<exists>m sent. s' = s\<lparr>br_pi := (br_pi s)\<lparr>pub_moveFundReq := m\<rparr>, br_pubSent := sent\<rparr>
    \<and> fund_shrunk (pub_moveFundReq (br_pi s)) m"
proof -
  obtain r k pi1 where pop: "pub_PopMoveFundItemAfterBlock h (br_pi s) = Done (r, k, pi1)"
    using assms by (auto simp: move_pub_funds_def exec_bind_eq_Done_iff)
  from pop show ?thesis
  proof (cases rule: pub_fund_pop_frame)
    case none
    then have "s' = s" using assms pop by (simp add: move_pub_funds_def)
    then show ?thesis by (intro exI [of _ "pub_moveFundReq (br_pi s)"] exI [of _ "br_pubSent s"]) simp
  next
    case (some p)
    let ?m = "sm_Delete k (pub_moveFundReq (br_pi s))"
    obtain q where q: "CheckWhetherSigner jenv (VaultInfo p) = Done q"
      using assms pop some(1) by (auto simp: move_pub_funds_def Let_def exec_bind_eq_Done_iff)
    have "s' = s\<lparr>br_pi := pi1\<rparr> \<or> (\<exists>sent. s' = s\<lparr>br_pi := pi1, br_pubSent := sent\<rparr>)
      \<or> (\<exists>h sent. s' = s\<lparr>br_pubSent := sent, br_pi := pub_AddMoveFundItem p h pi1\<rparr>)"
    proof (cases "q = Inr True")
      case False
      then show ?thesis using assms pop some(1) q
        by (cases q) (simp_all add: move_pub_funds_def Let_def)
    next
      case True
      with assms pop some(1) q show ?thesis
        by (auto simp: move_pub_funds_def Let_def exec_bind_eq_Done_iff split: if_splits)
    qed
    then show ?thesis
    proof (elim disjE exE)
      assume "s' = s\<lparr>br_pi := pi1\<rparr>"
      then show ?thesis using some
        by (intro exI [of _ ?m] exI [of _ "br_pubSent s"]) (simp add: fund_shrunk_taken)
    next
      fix sent assume "s' = s\<lparr>br_pi := pi1, br_pubSent := sent\<rparr>"
      then show ?thesis using some
        by (intro exI [of _ ?m] exI [of _ sent]) (simp add: fund_shrunk_taken)
    next
      fix h sent assume "s' = s\<lparr>br_pubSent := sent, br_pi := pub_AddMoveFundItem p h pi1\<rparr>"
      then show ?thesis using some
        by (intro exI [of _ "sm_Store h p ?m"] exI [of _ sent])
          (auto simp: fund_shrunk_filed pub_AddMoveFundItem_def intro!: bridge.equality)
    qed
  qed
qed

section \<open>Retries\<close>

lemma pub_PopItem_frame:
  assumes "pub_PopItem pi = Done (r, pi')"
  obtains (none) "r = None" and "pi' = pi"
  | (some) h item rest where "r = Some item" and "pi' = pi\<lparr>RetryInboundReq := rest\<rparr>"
      and "mset (RetryInboundReq pi) = add_mset (h, item) (mset rest)"
proof (cases "take_first (\<lambda>(h, _). h = scan_max (RetryInboundReq pi)) (RetryInboundReq pi)")
  case None
  then show thesis using assms none by (auto simp: pub_PopItem_def Let_def split: if_splits)
next
  case (Some y)
  then obtain h item rest where y: "y = ((h, item), rest)" by (metis surj_pair)
  with Some assms have "(r = None \<and> pi' = pi) \<or> (r = Some item \<and> pi' = pi\<lparr>RetryInboundReq := rest\<rparr>)"
    by (auto simp: pub_PopItem_def Let_def split: if_splits)
  then show thesis using none some take_first_SomeD [OF Some [unfolded y]] by blast
qed

lemma jolt_PopItem_frame:
  assumes "jolt_PopItem jc = Done (r, jc')"
  obtains (none) "r = None" and "jc' = jc"
  | (some) h item rest where "r = Some item" and "jc' = jc\<lparr>RetryOutboundReq := rest\<rparr>"
      and "mset (RetryOutboundReq jc) = add_mset (h, item) (mset rest)"
proof (cases "take_first (\<lambda>(h, _). h = scan_max (RetryOutboundReq jc)) (RetryOutboundReq jc)")
  case None
  then show thesis using assms none by (auto simp: jolt_PopItem_def Let_def split: if_splits)
next
  case (Some y)
  then obtain h item rest where y: "y = ((h, item), rest)" by (metis surj_pair)
  with Some assms have "(r = None \<and> jc' = jc) \<or> (r = Some item \<and> jc' = jc\<lparr>RetryOutboundReq := rest\<rparr>)"
    by (auto simp: jolt_PopItem_def Let_def split: if_splits)
  then show thesis using none some take_first_SomeD [OF Some [unfolded y]] by blast
qed

lemma retry_inbound_frame:
  assumes "retry_inbound h s = Done s'"
  obtains (none) m where "s' = s\<lparr>br_metric := m\<rparr>"
  | (some) k item rest m where "length (InboundReqChan (br_pi s)) < reqCacheSize"
      and "mset (RetryInboundReq (br_pi s)) = add_mset (k, item) (mset rest)"
      and "s' = s\<lparr>br_metric := m, br_pi := (br_pi s)\<lparr>RetryInboundReq := rest,
             InboundReqChan := InboundReqChan (br_pi s) @ [inbound_SetItemHeight h item]\<rparr>\<rparr>"
proof -
  obtain r pi1 where pop: "pub_PopItem (br_pi s) = Done (r, pi1)"
    using assms by (auto simp: retry_inbound_def exec_bind_eq_Done_iff)
  from pop show thesis
  proof (cases rule: pub_PopItem_frame)
    case none
    then have "s' = s\<lparr>br_metric := UpdateInboundTxNum (pub_Size pi1) (br_metric s)\<rparr>"
      using assms pop by (simp add: retry_inbound_def)
    then show thesis by (rule that(1))
  next
    case (some k item rest)
    then show thesis using assms pop that(2) [of k item rest "UpdateInboundTxNum (pub_Size pi1) (br_metric s)"]
      by (simp add: retry_inbound_def exec_bind_eq_Done_iff chan_send_Done_iff)
  qed
qed

lemma retry_outbound_frame:
  assumes "retry_outbound h s = Done s'"
  obtains (none) m where "s' = s\<lparr>br_metric := m\<rparr>"
  | (some) k item rest m where "length (OutboundReqChan (br_jc s)) < reqCacheSize"
      and "mset (RetryOutboundReq (br_jc s)) = add_mset (k, item) (mset rest)"
      and "s' = s\<lparr>br_metric := m, br_jc := (br_jc s)\<lparr>RetryOutboundReq := rest,
             OutboundReqChan := OutboundReqChan (br_jc s) @ [outbound_SetItemHeight h item]\<rparr>\<rparr>"
proof -
  obtain r jc1 where pop: "jolt_PopItem (br_jc s) = Done (r, jc1)"
    using assms by (auto simp: retry_outbound_def exec_bind_eq_Done_iff)
  from pop show thesis
  proof (cases rule: jolt_PopItem_frame)
    case none
    then have "s' = s\<lparr>br_metric := UpdateOutboundTxNum (jolt_Size jc1) (br_metric s)\<rparr>"
      using assms pop by (simp add: retry_outbound_def)
    then show thesis by (rule that(1))
  next
    case (some k item rest)
    then show thesis using assms pop that(2) [of k item rest "UpdateOutboundTxNum (jolt_Size jc1) (br_metric s)"]
      by (simp add: retry_outbound_def exec_bind_eq_Done_iff chan_send_Done_iff)
  qed
qed

section \<open>Pools\<close>

text \<open>One update of both caches.\<close>

definition upd_both :: "ext \<Rightarrow> VaultPool \<Rightarrow> bridge \<Rightarrow> bridge" where
  "upd_both e v s = s\<lparr>br_pi := pub_upd e v (br_pi s), br_jc := jolt_upd e v (br_jc s)\<rparr>"

lemma jolt_UpdatePool_Done:
  assumes "jolt_UpdatePool e pool jc = Done (prev, jc')"
  obtains v cp where "pool = Some v" and "CreatePool v = Some cp" and "jc' = jolt_upd e v jc"
    and "prev = (if pool_entry e v = None then None else fst (jolt_lastTwoPools jc))"
proof (cases pool)
  case None
  then show thesis using assms by (simp add: jolt_UpdatePool_def)
next
  case (Some v)
  show thesis
  proof (cases "CreatePool v")
    case None
    then show thesis using assms Some by (simp add: jolt_UpdatePool_def)
  next
    case cp: (Some cp)
    then show thesis using assms Some jolt_UpdatePool_done [of v e jc] that by auto
  qed
qed

lemma update_both_Done:
  assumes "exec_bind (pub_UpdatePool e el (br_pi s)) (\<lambda>(_, pi1).
       exec_bind (jolt_UpdatePool e el (br_jc s)) (\<lambda>(prev, jc1). f prev pi1 jc1)) = Done s'"
  obtains v cp where "el = Some v" and "CreatePool v = Some cp"
    and "f (if pool_entry e v = None then None else fst (jolt_lastTwoPools (br_jc s)))
           (pub_upd e v (br_pi s)) (jolt_upd e v (br_jc s)) = Done s'"
proof -
  from assms obtain err pi1 prev jc1 where u: "pub_UpdatePool e el (br_pi s) = Done (err, pi1)"
    "jolt_UpdatePool e el (br_jc s) = Done (prev, jc1)" "f prev pi1 jc1 = Done s'"
    by (auto simp: exec_bind_eq_Done_iff)
  from u(2) obtain v cp where v: "el = Some v" "CreatePool v = Some cp" "jc1 = jolt_upd e v (br_jc s)"
    "prev = (if pool_entry e v = None then None else fst (jolt_lastTwoPools (br_jc s)))"
    by (rule jolt_UpdatePool_Done)
  moreover have "pi1 = pub_upd e v (br_pi s)" using u(1) v(1) by (simp add: pub_upd_def)
  ultimately show thesis using u(3) that by blast
qed

lemma fill_pools_frame:
  assumes "fill_pools e ps s = Done s'"
  shows "\<exists>vs. ps = map Some vs \<and> s' = fold (upd_both e) vs s"
  using assms unfolding fill_pools_def
proof (induction ps arbitrary: s)
  case (Cons el ps)
  then obtain s1 where s1: "exec_bind (pub_UpdatePool e el (br_pi s)) (\<lambda>(_, pi1).
       exec_bind (jolt_UpdatePool e el (br_jc s)) (\<lambda>(_, jc1). Done (s\<lparr>br_pi := pi1, br_jc := jc1\<rparr>))) = Done s1"
    and rest: "exec_fold (\<lambda>el s. exec_bind (pub_UpdatePool e el (br_pi s)) (\<lambda>(_, pi1).
       exec_bind (jolt_UpdatePool e el (br_jc s)) (\<lambda>(_, jc1). Done (s\<lparr>br_pi := pi1, br_jc := jc1\<rparr>)))) ps s1 = Done s'"
    by (auto simp: exec_bind_eq_Done_iff)
  from s1 obtain v cp where "el = Some v" "s1 = upd_both e v s"
    by (rule update_both_Done) (simp add: upd_both_def)
  with Cons.IH [OF rest] show ?case by (metis fold_simps(2) list.simps(9))
qed simp

lemma refresh_pools_frame:
  assumes "refresh_pools e h ps s = Done s'"
  obtains (same) "s' = s"
  | (upd) v prev where "ps ! 0 = Some v" and "pool_entry e v \<noteq> None" and "fst (jolt_lastTwoPools (br_jc s)) = Some prev"
      and "s' = upd_both e v s"
  | (retired) v prev where "ps ! 0 = Some v" and "pool_entry e v \<noteq> None" and "fst (jolt_lastTwoPools (br_jc s)) = Some prev"
      and "s' = s\<lparr>br_jc := jolt_AddMoveFundItem prev (h - MINCHECKBLOCKGAP + 5) (br_jc (upd_both e v s)),
                  br_pi := pub_AddMoveFundItem prev (pub_CurrentHeight (br_pi s) - MINCHECKBLOCKGAP + 5)
                    (br_pi (upd_both e v s))\<rparr>"
proof (cases "NeedUpdate e ps (pub_GetPool (br_pi s))")
  case False
  then have "s' = s" using assms by (simp add: refresh_pools_def)
  then show thesis by (rule same)
next
  case True
  let ?f = "\<lambda>prev pi1 jc1. exec_bind (or_panic ''nil pointer dereference'' prev) (\<lambda>previousPool.
          if Pk previousPool \<noteq> GetPoolPubKey (ps ! 0) then
            Done (s\<lparr>br_jc := jolt_AddMoveFundItem previousPool (h - MINCHECKBLOCKGAP + 5) jc1,
                    br_pi := pub_AddMoveFundItem previousPool (pub_CurrentHeight pi1 - MINCHECKBLOCKGAP + 5) pi1\<rparr>)
          else Done (s\<lparr>br_jc := jc1, br_pi := pi1\<rparr>))"
  from assms True have "exec_bind (pub_UpdatePool e (ps ! 0) (br_pi s)) (\<lambda>(_, pi1).
       exec_bind (jolt_UpdatePool e (ps ! 0) (br_jc s)) (\<lambda>(prev, jc1). ?f prev pi1 jc1)) = Done s'"
    by (simp add: refresh_pools_def)
  then obtain v cp where v: "ps ! 0 = Some v" "CreatePool v = Some cp"
    and run: "?f (if pool_entry e v = None then None else fst (jolt_lastTwoPools (br_jc s)))
           (pub_upd e v (br_pi s)) (jolt_upd e v (br_jc s)) = Done s'"
    by (rule update_both_Done)
  from run obtain prev where p: "pool_entry e v \<noteq> None" "fst (jolt_lastTwoPools (br_jc s)) = Some prev"
    by (cases "pool_entry e v"; cases "fst (jolt_lastTwoPools (br_jc s))") auto
  have h: "pub_CurrentHeight (pub_upd e v (br_pi s)) = pub_CurrentHeight (br_pi s)"
    by (subst pub_upd_only_pools) simp
  show thesis
  proof (cases "Pk prev \<noteq> GetPoolPubKey (ps ! 0)")
    case True
    then show thesis using run p retired [OF v(1) p] by (simp add: upd_both_def h)
  next
    case False
    then have "s' = upd_both e v s" using run p by (auto simp: upd_both_def intro!: bridge.equality)
    then show thesis using upd [OF v(1) p] by simp
  qed
qed

section \<open>Validators, pool messages and blocks\<close>

lemma prepareTssPool_frame: "\<exists>c. snd (prepareTssPool e env a k n jc) = jc\<lparr>msgSendCache := c\<rparr>"
  by (cases "queryAccount (AccString e a) (je_grpc env)"; cases "ParseInt n")
    (auto simp: prepareTssPool_def Let_def intro: exI [of _ "msgSendCache jc"])

lemma HandleUpdateValidators_frame:
  assumes "HandleUpdateValidators e env updates h jc = Done (err, jc')"
  shows "\<exists>vs c. jc' = jc\<lparr>validatorSet := Some vs, msgSendCache := c\<rparr>"
proof -
  let ?P = "\<lambda>r. \<exists>vs c. snd r = jc\<lparr>validatorSet := Some vs, msgSendCache := c\<rparr>"
  have same: "\<exists>v c. jc\<lparr>validatorSet := Some vs\<rparr> = jc\<lparr>validatorSet := Some v, msgSendCache := c\<rparr>" for vs
    by (intro exI [of _ vs] exI [of _ "msgSendCache jc"]) simp
  have prep: "\<exists>v c. snd (prepareTssPool e env a k n (jc\<lparr>validatorSet := Some vs\<rparr>))
      = jc\<lparr>validatorSet := Some v, msgSendCache := c\<rparr>" for a k n vs
    using prepareTssPool_frame [of e env a k n "jc\<lparr>validatorSet := Some vs\<rparr>"] by blast
  have upd: "\<exists>vs. jc1 = jc\<lparr>validatorSet := Some vs\<rparr>"
    if "UpdateLatestValidator e updates h jc = Done (er, jc1)" for er jc1
    using that by (auto simp: UpdateLatestValidator_def exec_bind_eq_Done_iff case_prod_beta)
  have "yields ?P (HandleUpdateValidators e env updates h jc)"
    unfolding HandleUpdateValidators_def
    by (auto simp: same prep split: option.splits sum.splits dest!: upd)
  from yieldsD [OF this assms] show ?thesis by simp
qed

lemma CheckAndUpdatePool_frame:
  assumes "CheckAndUpdatePool e env h jc sent = Done (r, jc', sent')"
  shows "\<exists>c. jc' = jc\<lparr>msgSendCache := c\<rparr>"
proof -
  obtain ok pk where r: "r = (ok, pk)" by (cases r)
  from assms [unfolded r] show ?thesis
    by (cases rule: CheckAndUpdatePool_cases) (auto intro: exI [of _ "msgSendCache jc"])
qed

lemma on_jolt_block_parts:
  assumes "on_jolt_block e env h s = Done s'"
  obtains c sent s1 where "s1 = s\<lparr>br_jc := (br_jc s)\<lparr>msgSendCache := c, jolt_CurrentHeight := h\<rparr>, br_joltSent := sent\<rparr>"
    and "s' = s1 \<or> (\<exists>ps s2. QueryLastPoolAddress (je_grpc env) = Inr ps \<and> retry_inbound h s1 = Done s2
           \<and> (fill_pools e ps s2 = Done s'
              \<or> (\<exists>s3. refresh_pools e h ps s2 = Done s3 \<and> move_jolt_funds e env h ps s3 = Done s')))"
proof -
  obtain r jc1 sent1 where cp: "CheckAndUpdatePool e env h (br_jc s) (br_joltSent s) = Done (r, jc1, sent1)"
    using assms by (auto simp: on_jolt_block_def exec_bind_eq_Done_iff)
  from CheckAndUpdatePool_frame [OF cp] obtain c where c: "jc1 = (br_jc s)\<lparr>msgSendCache := c\<rparr>" by blast
  let ?s1 = "s\<lparr>br_jc := jc1\<lparr>jolt_CurrentHeight := h\<rparr>, br_joltSent := sent1\<rparr>"
  have "s' = ?s1 \<or> (\<exists>ps s2. QueryLastPoolAddress (je_grpc env) = Inr ps \<and> retry_inbound h ?s1 = Done s2
           \<and> (fill_pools e ps s2 = Done s'
              \<or> (\<exists>s3. refresh_pools e h ps s2 = Done s3 \<and> move_jolt_funds e env h ps s3 = Done s')))"
  proof (cases "QueryLastPoolAddress (je_grpc env)")
    case (Inl err)
    then show ?thesis using assms cp by (simp add: on_jolt_block_def)
  next
    case (Inr ps)
    show ?thesis
    proof (cases "length ps = 2")
      case False
      then show ?thesis using assms cp Inr by (simp add: on_jolt_block_def)
    next
      case True
      then have "exec_bind (retry_inbound h ?s1) (\<lambda>s2.
             if pub_GetPool (br_pi s2) ! 0 = None then fill_pools e ps s2
             else exec_bind (refresh_pools e h ps s2) (move_jolt_funds e env h ps)) = Done s'"
        using assms cp Inr by (simp add: on_jolt_block_def)
      then show ?thesis using Inr by (auto simp: exec_bind_eq_Done_iff split: if_splits)
    qed
  qed
  then show thesis using that [where c = c and sent = sent1 and ?s1.0 = ?s1] c by simp
qed

section \<open>Transactions and blocks\<close>

text \<open>The requests a Joltify transaction files.\<close>

definition tx_claims :: "ext \<Rightarrow> query_env \<Rightarrow> i64 \<Rightarrow> bytes \<Rightarrow> JoltifyChainInstance \<Rightarrow> OutBoundReq list" where
  "tx_claims e env h rawTx jc =
     (case (jolt_lastTwoPools jc, TxDecoder env rawTx) of
        ((Some p0, Some p1), Inr (Some msgs)) \<Rightarrow>
          map (claim_req (hex_EncodeToString (TxHash env rawTx)) p1 h) (List.map_filter (outbound_claim e env (p0, p1)) msgs)
      | _ \<Rightarrow> [])"

lemma CheckOutBoundTx_claims:
  assumes "sdk_ok M e" and "CheckOutBoundTx e env h rawTx jc = Done jc'"
  shows "jc' = fold (jolt_AddItem e) (tx_claims e env h rawTx jc) jc"
proof (cases "\<exists>p0 p1 msgs. jolt_lastTwoPools jc = (Some p0, Some p1) \<and> TxDecoder env rawTx = Inr (Some msgs)")
  case False
  then show ?thesis using assms(2)
    by (cases "jolt_lastTwoPools jc")
      (auto simp: CheckOutBoundTx_def tx_claims_def jolt_GetPool_def split: option.splits sum.splits)
next
  case True
  then obtain p0 p1 msgs where p: "jolt_lastTwoPools jc = (Some p0, Some p1)" "TxDecoder env rawTx = Inr (Some msgs)"
    by blast
  show ?thesis
    unfolding tx_claims_def p prod.case option.case sum.case
    using assms(2) by (intro CheckOutBoundTx_fold [OF assms(1)]) (simp add: CheckOutBoundTx_def jolt_GetPool_def p)
qed

lemma tx_claims_denom: "r \<in> set (tx_claims e env h rawTx jc) \<Longrightarrow> Denom (or_coin r) = OutBoundDenom"
  by (auto simp: tx_claims_def claim_req_def newOutboundReq_def split: prod.splits option.splits sum.splits)

lemma processInboundTx_funds:
  "yields (\<lambda>(_, pi'). pub_moveFundReq pi' = pub_moveFundReq pi) (processInboundTx e txID h from to val addr pi)"
  by (auto simp: processInboundTx_def sm_LoadAndDelete_eq Let_def split: option.splits)

lemma updateInboundTx_funds:
  "yields (\<lambda>(_, pi'). pub_moveFundReq pi' = pub_moveFundReq pi) (updateInboundTx e txID a n pi)"
  by (auto simp: updateInboundTx_def Let_def split: option.splits)

lemma ProcessInBoundERC20_funds:
  "yields (\<lambda>(_, pi'). pub_moveFundReq pi' = pub_moveFundReq pi) (ProcessInBoundERC20 e tx tok to a n pi)"
  by (auto simp: ProcessInBoundERC20_def Let_def processInboundTx_funds split: sum.splits)

lemma process_fee_funds:
  "yields (\<lambda>pi'. pub_moveFundReq pi' = pub_moveFundReq pi) (process_fee e n tx to pi)"
  using yieldsD [OF updateInboundTx_funds]
  by (fastforce simp: process_fee_def pub_AddItem_def split: option.splits)

lemma process_tx_funds:
  "yields (\<lambda>pi'. pub_moveFundReq pi' = pub_moveFundReq pi) (process_tx e env n tx pi)"
proof -
  have erc: "pub_moveFundReq pi1 = pub_moveFundReq pi" if "ProcessInBoundERC20 e tx tok to a n pi = Done (err, pi1)"
    for tok to a err pi1 using yieldsD [OF ProcessInBoundERC20_funds that] by simp
  have fee: "yields (\<lambda>pi'. pub_moveFundReq pi' = pub_moveFundReq pi) (process_fee e n tx to pi1)"
    if "pub_moveFundReq pi1 = pub_moveFundReq pi" for to pi1
    using process_fee_funds [of pi1 e n tx to] that by simp
  show ?thesis
    by (auto simp: process_tx_def fee erc split: option.splits sum.splits)
qed

lemma process_tx_no_pool:
  assumes "pub_lastTwoPools pi = (None, None)"
  shows "process_tx e env n tx pi = Done pi"
proof -
  have "\<not> checkToBridge e dest pi" for dest using assms by (simp add: checkToBridge_def pub_GetPool_def)
  then show ?thesis by (auto simp: process_tx_def process_fee_def split: option.splits sum.splits)
qed

lemma processEachBlock_funds:
  assumes "exec_fold (process_tx e env n) txs pi = Done pi'"
  shows "pub_moveFundReq pi' = pub_moveFundReq pi"
  by (rule exec_fold_invariant [where I = "\<lambda>s. pub_moveFundReq s = pub_moveFundReq pi", OF _ _ assms])
    (auto dest: yieldsD [OF process_tx_funds])

section \<open>Requests from the channels\<close>

text \<open>This node signs for the latest pool, and the lookup of its key tells so.\<close>

definition signs :: "jolt_env \<Rightarrow> bridge \<Rightarrow> bool" where
  "signs env s \<longleftrightarrow> (\<exists>p. snd (jolt_lastTwoPools (br_jc s)) = Some p \<and> CheckWhetherSigner env (VaultInfo p) = Done (Inr True))"

lemma on_inbound_frame:
  assumes "on_inbound e env s = Done s'"
  obtains item c s1 sent where "InboundReqChan (br_pi s) = item # c"
    and "s1 = s\<lparr>br_pi := (br_pi s)\<lparr>InboundReqChan := c\<rparr>, br_joltSent := sent\<rparr>"
    and "if signs env s then s' = s1\<lparr>br_pi := pub_AddItem e item (br_pi s1)\<rparr>
         \<or> (\<exists>index. s' = s1\<lparr>br_checks := br_checks s1 @ [MintCheck item index]\<rparr>)
       else s' = s1"
proof (cases "InboundReqChan (br_pi s)")
  case Nil
  then show thesis using assms by (simp add: on_inbound_def)
next
  case (Cons item c)
  let ?s = "\<lambda>sent. s\<lparr>br_pi := (br_pi s)\<lparr>InboundReqChan := c\<rparr>, br_joltSent := sent\<rparr>"
  have self: "s\<lparr>br_pi := p, br_joltSent := br_joltSent s\<rparr> = s\<lparr>br_pi := p\<rparr>" for p by simp
  have swap: "s\<lparr>br_joltSent := sent, br_pi := p\<rparr> = s\<lparr>br_pi := p, br_joltSent := sent\<rparr>" for p sent
    by (auto intro!: bridge.equality)
  let ?P = "\<lambda>s' sent. if signs env s then s' = (?s sent)\<lparr>br_pi := pub_AddItem e item (br_pi (?s sent))\<rparr>
         \<or> (\<exists>index. s' = (?s sent)\<lparr>br_checks := br_checks s @ [MintCheck item index]\<rparr>)
       else s' = ?s sent"
  have "yields (\<lambda>s'. \<exists>sent. ?P s' sent) (on_inbound e env s)"
    unfolding on_inbound_def Cons
    by (auto simp: Let_def self swap signs_def jolt_GetPool_def split: sum.splits intro: exI [of _ "br_joltSent s"])
  from yieldsD [OF this assms] obtain sent where "?P s' sent" ..
  then show thesis by (intro that [OF Cons refl, of sent]) (cases "signs env s"; simp)
qed

lemma on_outbound_frame:
  assumes "on_outbound e env senv s = Done s'"
  obtains item c s1 sent where "OutboundReqChan (br_jc s) = item # c"
    and "s1 = s\<lparr>br_jc := (br_jc s)\<lparr>OutboundReqChan := c\<rparr>, br_pubSent := sent\<rparr>"
    and "if signs env s then s' = s1\<lparr>br_jc := jolt_AddItem e item (br_jc s1)\<rparr>
         \<or> (\<exists>hash. s' = s1\<lparr>br_checks := br_checks s1 @ [SendCheck item hash]\<rparr>)
       else s' = s1"
proof (cases "OutboundReqChan (br_jc s)")
  case Nil
  then show thesis using assms by (simp add: on_outbound_def)
next
  case (Cons item c)
  let ?s = "\<lambda>sent. s\<lparr>br_jc := (br_jc s)\<lparr>OutboundReqChan := c\<rparr>, br_pubSent := sent\<rparr>"
  have self: "s\<lparr>br_jc := p, br_pubSent := br_pubSent s\<rparr> = s\<lparr>br_jc := p\<rparr>" for p by simp
  have swap: "s\<lparr>br_pubSent := sent, br_jc := p\<rparr> = s\<lparr>br_jc := p, br_pubSent := sent\<rparr>" for p sent
    by (auto intro!: bridge.equality)
  let ?P = "\<lambda>s' sent. if signs env s then s' = (?s sent)\<lparr>br_jc := jolt_AddItem e item (br_jc (?s sent))\<rparr>
         \<or> (\<exists>hash. s' = (?s sent)\<lparr>br_checks := br_checks s @ [SendCheck item hash]\<rparr>)
       else s' = ?s sent"
  have "yields (\<lambda>s'. \<exists>sent. ?P s' sent) (on_outbound e env senv s)"
    unfolding on_outbound_def Cons GetOutBoundInfo_def
    by (auto simp: Let_def self swap signs_def jolt_GetPool_def split: sum.splits intro: exI [of _ "br_pubSent s"])
  from yieldsD [OF this assms] obtain sent where "?P s' sent" ..
  then show thesis by (intro that [OF Cons refl, of sent]) (cases "signs env s"; simp)
qed

end
