(* ===== verification/Bridge_Config.thy ===== *)
theory Bridge_Config
  imports Bridge_Types
begin

text \<open>
  \<open>config/config.go\<close>: the configuration, its flags and their defaults, and what the start-up
  uses of Go's \<open>path\<close> package. A parsed command line is a record of what each kind of flag
  was set to (the last value of a flag counts, the values of \<open>-peer\<close> are kept in order);
  \<open>NewMultiaddr\<close> is a parameter that gives the printed address.
\<close>

section \<open>The configuration\<close>

record InvoiceChainConfig =
  GrpcAddress :: string
  jolt_WsAddress :: string
  WsEndpoint :: string
  HTTPAddress :: string

record PubChainConfig =
  pub_WsAddress :: string
  TokenAddress :: string

text \<open>Durations are nanoseconds in 64 bits.\<close>

record TssConfig =
  PartyTimeout :: i64
  KeyGenTimeout :: i64
  KeySignTimeout :: i64
  PreParamTimeout :: i64
  RendezvousString :: string
  Port :: int
  BootstrapPeers :: "string list"
  ExternalIP :: string
  HTTPAddr :: string

record Config =
  cfg_JoltifyChain :: InvoiceChainConfig
  cfg_PubChain :: PubChainConfig
  cfg_Tss :: TssConfig
  KeyringAddress :: string
  HomeDir :: string
  EnableMonitor :: bool

section \<open>Flags\<close>

record command_line =
  flag_string :: "string \<Rightarrow> string option"
  flag_duration :: "string \<Rightarrow> i64 option"
  flag_bool :: "string \<Rightarrow> bool option"
  flag_int :: "string \<Rightarrow> int option"
  flag_peers :: "string list"

definition flag_or :: "'a \<Rightarrow> 'a option \<Rightarrow> 'a" where
  "flag_or usual v = (case v of None \<Rightarrow> usual | Some x \<Rightarrow> x)"

definition time_Second :: i64 where
  "time_Second = 1000000000"

definition addrList_Set :: "(string \<Rightarrow> goerror + string) \<Rightarrow> string \<Rightarrow> string list \<Rightarrow> goerror + string list" where
  "addrList_Set NewMultiaddr value al =
     (case NewMultiaddr value of Inl err \<Rightarrow> Inl err | Inr addr \<Rightarrow> Inr (al @ [addr]))"

text \<open>\<open>strings.Join(addresses, ",")\<close>\<close>

fun addrList_String :: "string list \<Rightarrow> string" where
  "addrList_String [] = []"
| "addrList_String [a] = a"
| "addrList_String (a # b # al) = a @ '','' @ addrList_String (b # al)"

text \<open>A peer that does not parse ends the program in \<open>flag.Parse\<close>; that is \<open>Inl\<close> here.\<close>

fun set_peers :: "(string \<Rightarrow> goerror + string) \<Rightarrow> string list \<Rightarrow> string list \<Rightarrow> goerror + string list" where
  "set_peers NewMultiaddr [] al = Inr al"
| "set_peers NewMultiaddr (v # vs) al =
     (case addrList_Set NewMultiaddr v al of Inl err \<Rightarrow> Inl err | Inr al1 \<Rightarrow> set_peers NewMultiaddr vs al1)"

definition DefaultConfig :: "(string \<Rightarrow> goerror + string) \<Rightarrow> command_line \<Rightarrow> goerror + Config" where
  "DefaultConfig NewMultiaddr args =
     (let str = (\<lambda>name usual. flag_or usual (flag_string args name));
          dur = (\<lambda>name usual. flag_or usual (flag_duration args name))
      in case set_peers NewMultiaddr (flag_peers args) [] of
           Inl err \<Rightarrow> Inl err
         | Inr peers \<Rightarrow> Inr
             \<lparr>cfg_JoltifyChain =
                \<lparr>GrpcAddress = str ''grpc-port'' ''127.0.0.1:9090'',
                 jolt_WsAddress = str ''ws-port'' ''tcp://localhost:26657'',
                 WsEndpoint = str ''ws-endpoint'' ''/websocket'',
                 HTTPAddress = str ''http-port'' ''http://localhost:26657''\<rparr>,
              cfg_PubChain =
                \<lparr>pub_WsAddress = str ''pub-ws-endpoint'' ''ws://10.2.118.8:8456/'',
                 TokenAddress = str ''pub-token-addr'' ''0xeB42ff4cA651c91EB248f8923358b6144c6B4b79''\<rparr>,
              cfg_Tss =
                \<lparr>PartyTimeout = dur ''joinpartytimeout'' (60 * time_Second),
                 KeyGenTimeout = dur ''gentimeout'' (30 * time_Second),
                 KeySignTimeout = dur ''signtimeout'' (30 * time_Second),
                 PreParamTimeout = dur ''preparamtimeout'' (300 * time_Second),
                 RendezvousString = str ''rendezvous'' ''joltifyChainTss'',
                 Port = flag_or 6668 (flag_int args ''p2p-port''),
                 BootstrapPeers = peers,
                 ExternalIP = str ''external-ip'' [],
                 HTTPAddr = str ''tss-http-port'' ''0.0.0.0:8321''\<rparr>,
              KeyringAddress = str ''key'' ''./keyring.key'',
              HomeDir = str ''home'' ''/root/.joltifyChain/config'',
              EnableMonitor = flag_or True (flag_bool args ''enablemonitor'')\<rparr>)"

section \<open>Paths\<close>

text \<open>
  \<open>path.Join\<close> drops empty elements, joins the rest with slashes and cleans the result:
  empty and \<open>.\<close> components go, \<open>..\<close> takes its parent away, or goes too at the root.
\<close>

fun split_slash :: "string \<Rightarrow> string list" where
  "split_slash [] = [[]]"
| "split_slash (c # cs) =
     (if c = CHR ''/'' then [] # split_slash cs
      else case split_slash cs of [] \<Rightarrow> [[c]] | x # xs \<Rightarrow> (c # x) # xs)"

fun join_slash :: "string list \<Rightarrow> string" where
  "join_slash [] = []"
| "join_slash [x] = x"
| "join_slash (x # y # ys) = x @ CHR ''/'' # join_slash (y # ys)"

fun clean_parts :: "bool \<Rightarrow> string list \<Rightarrow> string list \<Rightarrow> string list" where
  "clean_parts rooted kept [] = kept"
| "clean_parts rooted kept (p # ps) =
     (if p = [] \<or> p = ''.'' then clean_parts rooted kept ps
      else if p = ''..'' then
        (if kept \<noteq> [] \<and> last kept \<noteq> ''..'' then clean_parts rooted (butlast kept) ps
         else if rooted then clean_parts rooted kept ps
         else clean_parts rooted (kept @ [p]) ps)
      else clean_parts rooted (kept @ [p]) ps)"

definition path_Clean :: "string \<Rightarrow> string" where
  "path_Clean p =
     (let rooted = (p \<noteq> [] \<and> hd p = CHR ''/'');
          r = join_slash (clean_parts rooted [] (split_slash p));
          full = (if rooted then CHR ''/'' # r else r)
      in if full = [] then ''.'' else full)"

definition path_Join :: "string list \<Rightarrow> string" where
  "path_Join elems =
     (let es = filter (\<lambda>x. x \<noteq> []) elems in if es = [] then [] else path_Clean (join_slash es))"

lemma path_Join_default:
  "path_Join [''/root/.joltifyChain/config'', ''./keyring.key''] = ''/root/.joltifyChain/config/keyring.key''"
  "path_Join [''a'', ''../../b'', ''c''] = ''../b/c''" "path_Join [''/'', ''..''] = ''/''" "path_Join [[], []] = []"
  by (simp_all add: path_Join_def path_Clean_def)

end
