(* ===== verification/Bridge_Start.thy ===== *)
theory Bridge_Start
  imports Bridge_Config Bridge_Loop
begin

text \<open>
  Start-up: \<open>StartTssServer\<close> of \<open>tssclient/tss_server.go\<close>, the dialling part of the two
  constructors, and \<open>NewBridgeService\<close> with the subscriptions of \<open>addEventLoop\<close>
  (\<open>bridge/joltifyBridge.go\<close>), up to the state the event loop starts in, the http server of
  \<open>bridge/http.go\<close>, and the way out after the interrupt: the context is cancelled, the wait
  group is waited for, and the deferred \<open>TerminateBridge\<close> runs. What the operating system,
  the libraries and the nodes answer is the record \<open>start_env\<close>.
\<close>

record CosPrivKey =
  cpk_Address :: string
  cpk_PubKeyType :: string
  cpk_PubKeyValue :: string
  cpk_PrivKeyType :: string
  cpk_PrivKeyValue :: string

text \<open>The four time-outs handed to the signature service.\<close>

record tss_timeouts =
  tt_Party :: i64
  tt_KeyGen :: i64
  tt_KeySign :: i64
  tt_PreParam :: i64

text \<open>
  \<open>tssNew\<close> gets the peers, the port, the private key, the rendezvous string, the folder, the
  time-outs and the external address. \<open>ListenError\<close> is what the listening goroutine of the
  http server has stored by the time \<open>Start\<close> returns.
\<close>

record start_env =
  StdinRead :: "goerror + nat"
  ReadFile :: "string \<Rightarrow> goerror + bytes"
  json_CosPrivKey :: "bytes \<Rightarrow> goerror + CosPrivKey"
  tssNew :: "string list \<Rightarrow> int \<Rightarrow> bytes \<Rightarrow> string \<Rightarrow> string \<Rightarrow> tss_timeouts \<Rightarrow> string \<Rightarrow> goerror option"
  tssPeerID :: string
  grpcDial :: "string \<Rightarrow> goerror option"
  tmhttpNew :: "string \<Rightarrow> string \<Rightarrow> goerror option"
  wsStart :: "goerror option"
  wsStop :: "goerror option"
  ImportPrivKey :: "string \<Rightarrow> bytes \<Rightarrow> string \<Rightarrow> goerror option"
  start_node :: node_env
  ListenError :: "goerror option"
  ethDial :: "string \<Rightarrow> goerror option"
  HexToAddress :: "string \<Rightarrow> eth_address"
  NewBoundContract :: new_contract
  abiJSON :: "goerror option"
  wsSubscribe :: "string \<Rightarrow> goerror option"
  SubscribeNewHead :: "goerror option"

section \<open>The parts\<close>

definition StartTssServer :: "start_env \<Rightarrow> string \<Rightarrow> TssConfig \<Rightarrow> goerror + CosPrivKey" where
  "StartTssServer env baseFolder tssConfig =
     (case ReadFile env (path_Join [baseFolder, ''priv_validator_key.json'']) of
        Inl err \<Rightarrow> Inl err
      | Inr data \<Rightarrow>
     (case json_CosPrivKey env data of
        Inl err \<Rightarrow> Inl err
      | Inr key \<Rightarrow>
     (case base64_DecodeString (cpk_PrivKeyValue key) of
        None \<Rightarrow> Inl ''illegal base64 data''
      | Some privKey \<Rightarrow>
          (let tssTimeConfig = \<lparr>tt_Party = PartyTimeout tssConfig, tt_KeyGen = KeyGenTimeout tssConfig,
                                tt_KeySign = KeySignTimeout tssConfig, tt_PreParam = PreParamTimeout tssConfig\<rparr>
           in case tssNew env (BootstrapPeers tssConfig) (Port tssConfig) privKey (RendezvousString tssConfig)
                     baseFolder tssTimeConfig (ExternalIP tssConfig) of
                Some err \<Rightarrow> Inl err
              | None \<Rightarrow> Inr key))))"

definition dialJoltifyBridge :: "start_env \<Rightarrow> string \<Rightarrow> string \<Rightarrow> goerror + JoltifyChainInstance" where
  "dialJoltifyBridge env grpcAddr httpAddr =
     (case grpcDial env grpcAddr of Some err \<Rightarrow> Inl err | None \<Rightarrow>
     (case tmhttpNew env httpAddr ''/websocket'' of Some err \<Rightarrow> Inl err | None \<Rightarrow>
     (case wsStart env of Some err \<Rightarrow> Inl err | None \<Rightarrow> Inr NewJoltifyBridge)))"

definition dialChainInstance :: "start_env \<Rightarrow> string \<Rightarrow> string \<Rightarrow> goerror + PubChainInstance" where
  "dialChainInstance env ws tokenAddress =
     (case ethDial env ws of Some _ \<Rightarrow> Inl ''fail to dial the network'' | None \<Rightarrow>
     (case NewToken (abiJSON env) (NewBoundContract env) (HexToAddress env tokenAddress) of
        Inl _ \<Rightarrow> Inl ''fail to get the new token''
      | Inr _ \<Rightarrow>
     (case abiJSON env of Some err \<Rightarrow> Inl (''fail to get the tokenABI with err '' @ err) | None \<Rightarrow>
        Inr (NewChainInstance tokenAddress))))"

section \<open>The wait group and the http server\<close>

text \<open>
  The goroutines that wait for the context to be cancelled and then call \<open>wg.Done\<close>. The
  goroutine of the event loop is not one of them.
\<close>

datatype parked = HttpShutdown | HeadUnsubscribe

record WaitGroup =
  wg_count :: int
  wg_parked :: "parked list"

definition wg_Add :: "int \<Rightarrow> WaitGroup \<Rightarrow> WaitGroup" where
  "wg_Add n w = w\<lparr>wg_count := wg_count w + n\<rparr>"

definition wg_Done :: "WaitGroup \<Rightarrow> WaitGroup" where
  "wg_Done w = wg_Add (- 1) w"

definition park :: "parked \<Rightarrow> WaitGroup \<Rightarrow> WaitGroup" where
  "park p w = w\<lparr>wg_parked := wg_parked w @ [p]\<rparr>"

record JoltifyHTTPServer =
  hs_Addr :: "string option"
  hs_peerID :: string

definition NewJoltifyHttpServer :: "string \<Rightarrow> string \<Rightarrow> JoltifyHTTPServer" where
  "NewJoltifyHttpServer tssAddr peerID = \<lparr>hs_Addr = Some tssAddr, hs_peerID = peerID\<rparr>"

text \<open>The routes: path, methods (none means any), and what is written.\<close>

datatype http_body = P2pID bytes | PromHTTP

definition getP2pIDHandler :: "JoltifyHTTPServer \<Rightarrow> http_body" where
  "getP2pIDHandler t = P2pID (map of_char (hs_peerID t))"

definition joltifyNewHandler :: "JoltifyHTTPServer \<Rightarrow> (string \<times> string list \<times> http_body) list" where
  "joltifyNewHandler t = [(''/p2pid'', [''GET''], getP2pIDHandler t), (''/metrics'', [], PromHTTP)]"

definition http_Start :: "start_env \<Rightarrow> JoltifyHTTPServer \<Rightarrow> WaitGroup \<Rightarrow> goerror option \<times> WaitGroup" where
  "http_Start env t wg =
     (case hs_Addr t of
        None \<Rightarrow> (Some ''invalid http server instance'', wg)
      | Some _ \<Rightarrow> (ListenError env, park HttpShutdown wg))"

definition AddSubscribe :: "start_env \<Rightarrow> string \<Rightarrow> goerror option" where
  "AddSubscribe env query = (case wsSubscribe env query of Some err \<Rightarrow> Some err | None \<Rightarrow> None)"

definition StartSubscription :: "start_env \<Rightarrow> WaitGroup \<Rightarrow> goerror option \<times> WaitGroup" where
  "StartSubscription env wg =
     (case SubscribeNewHead env of Some err \<Rightarrow> (Some err, wg) | None \<Rightarrow> (None, park HeadUnsubscribe wg))"

text \<open>The calls that stop the clients, in order.\<close>

datatype stop_call = StopWs | StopTss

definition TerminateBridge :: "start_env \<Rightarrow> goerror option \<times> stop_call list" where
  "TerminateBridge env =
     (case wsStop env of Some err \<Rightarrow> (Some err, [StopWs]) | None \<Rightarrow> (None, [StopWs, StopTss]))"

section \<open>The service\<close>

text \<open>
  How the start-up ends: the process exits (\<open>log.Fatalln\<close>, which runs no deferred call),
  \<open>NewBridgeService\<close> returns and has stopped what is listed, it never comes back from waiting
  for the node, it waits for the signal with no event loop because a subscription failed, or
  the loop runs.
\<close>

datatype service = Fatal string | Quits "stop_call list" | Idle WaitGroup | Runs bridge WaitGroup

definition tm_event :: "string \<Rightarrow> string" where
  "tm_event name = ''tm.event = '' @ [CHR 0x27] @ name @ [CHR 0x27]"

text \<open>\<open>wg.Done\<close> is deferred, so it runs on every return, also once the loop has been started.\<close>

definition addEventLoop ::
    "start_env \<Rightarrow> WaitGroup \<Rightarrow> JoltifyChainInstance \<Rightarrow> PubChainInstance \<Rightarrow> Metric \<Rightarrow> service" where
  "addEventLoop env wg joltChain pi metric =
     (if AddSubscribe env (tm_event ''ValidatorSetUpdates'') \<noteq> None then Idle (wg_Done wg)
      else if AddSubscribe env (tm_event ''NewBlock'') \<noteq> None then Idle (wg_Done wg)
      else if AddSubscribe env (tm_event ''Tx'') \<noteq> None then Idle (wg_Done wg)
      else case StartSubscription env (wg_Add 1 wg) of
        (Some _, wg1) \<Rightarrow> Idle (wg_Done wg1)
      | (None, wg1) \<Rightarrow>
          Runs \<lparr>br_pi = pi, br_jc = joltChain, br_joltSent = [], br_pubSent = [], br_checks = [],
                br_metric = metric\<rparr> (wg_Done wg1))"

definition NewBridgeService :: "ext \<Rightarrow> start_env \<Rightarrow> Config \<Rightarrow> service" where
  "NewBridgeService e env config =
     (let wg = \<lparr>wg_count = 0, wg_parked = []\<rparr> in
      case StdinRead env of Inl _ \<Rightarrow> Quits [] | Inr n \<Rightarrow>
      if 32 < n then Fatal ''the passcode is too long''
      else let metrics = (if EnableMonitor config then metric_Enable NewMetric else NewMetric)
      in case StartTssServer env (HomeDir config) (cfg_Tss config) of
        Inl _ \<Rightarrow> Fatal ''fail to start the tss''
      | Inr _ \<Rightarrow>
     (case dialJoltifyBridge env (GrpcAddress (cfg_JoltifyChain config)) (jolt_WsAddress (cfg_JoltifyChain config)) of
        Inl err \<Rightarrow> Fatal (''fail to create the invoice joltify_bridge '' @ err)
      | Inr joltifyBridge \<Rightarrow>
     (case ReadFile env (path_Join [HomeDir config, KeyringAddress config]) of
        Inl _ \<Rightarrow> Fatal ''error in read keyring file''
      | Inr dat \<Rightarrow>
     (case ImportPrivKey env ''operator'' dat ''12345678'' of
        Some _ \<Rightarrow> Quits []
      | None \<Rightarrow>
      let deferred = snd (TerminateBridge env) in
     (case InitValidators e (start_node env) (HTTPAddress (cfg_JoltifyChain config)) joltifyBridge of
        (Some _, _) \<Rightarrow> Quits deferred
      | (None, joltifyBridge1) \<Rightarrow>
          (let tssHTTPServer = NewJoltifyHttpServer (HTTPAddr (cfg_Tss config)) (tssPeerID env);
               (ret, wg1) = http_Start env tssHTTPServer (wg_Add 1 wg)
           in if ret \<noteq> None then Quits deferred
              else case dialChainInstance env (pub_WsAddress (cfg_PubChain config)) (TokenAddress (cfg_PubChain config)) of
                Inl _ \<Rightarrow> Quits deferred
              | Inr ci \<Rightarrow> addEventLoop env (wg_Add 1 wg1) joltifyBridge1 ci metrics))))))"

text \<open>
  After the interrupt the context is cancelled, each parked goroutine calls \<open>wg.Done\<close>, and
  \<open>wg.Wait\<close> returns when the count is zero; then the deferred calls run. \<open>None\<close> is never
  ending.
\<close>

definition wait_returns :: "WaitGroup \<Rightarrow> bool" where
  "wait_returns wg \<longleftrightarrow> wg_count (fold (\<lambda>_. wg_Done) (wg_parked wg) wg) = 0"

fun on_interrupt :: "start_env \<Rightarrow> service \<Rightarrow> stop_call list option" where
  "on_interrupt env (Fatal _) = Some []"
| "on_interrupt env (Quits stopped) = Some stopped"
| "on_interrupt env (Idle wg) = (if wait_returns wg then Some (snd (TerminateBridge env)) else None)"
| "on_interrupt env (Runs _ wg) = (if wait_returns wg then Some (snd (TerminateBridge env)) else None)"

text \<open>\<open>main\<close>: a command line that does not parse ends the program before the service. The bech32
  prefix of the addresses is part of \<open>ext\<close>; the log levels are left out.\<close>

definition main :: "ext \<Rightarrow> start_env \<Rightarrow> (string \<Rightarrow> goerror + string) \<Rightarrow> command_line \<Rightarrow> service" where
  "main e env NewMultiaddr args =
     (case DefaultConfig NewMultiaddr args of Inl _ \<Rightarrow> Quits [] | Inr config \<Rightarrow> NewBridgeService e env config)"

section \<open>The state the loop starts in\<close>

lemma dialJoltifyBridge_Inr: "dialJoltifyBridge env a b = Inr jc \<Longrightarrow> jc = NewJoltifyBridge"
  by (auto simp: dialJoltifyBridge_def split: option.splits)

lemma dialChainInstance_Inr: "dialChainInstance env a addr = Inr pi \<Longrightarrow> pi = NewChainInstance addr"
  by (auto simp: dialChainInstance_def split: option.splits sum.splits)

lemma InitValidators_state:
  assumes "InitValidators e node addr jc = (None, jc')"
  obtains i vs where "jc' = jc\<lparr>myValidatorInfo := i, validatorSet := Some vs\<rparr>"
proof -
  have "jc' = jc\<lparr>myValidatorInfo := myValidatorInfo jc', validatorSet := validatorSet jc'\<rparr>
      \<and> validatorSet jc' \<noteq> None"
    using assms by (auto simp: InitValidators_def doInitValidator_def Let_def
        split: option.splits sum.splits prod.splits)
  then show thesis using that by fastforce
qed

text \<open>
  The loop starts in the initial state of both instances, with the validator set filled in
  and the configured token address.
\<close>

lemma NewBridgeService_Runs:
  assumes "NewBridgeService e env config = Runs s wg"
  obtains i vs metric where "s = initial_bridge (TokenAddress (cfg_PubChain config))
                   (NewJoltifyBridge\<lparr>myValidatorInfo := i, validatorSet := Some vs\<rparr>) metric"
proof -
  let ?addr = "TokenAddress (cfg_PubChain config)"
  from assms obtain jc metric where s: "s = initial_bridge ?addr jc metric"
    and jc: "InitValidators e (start_node env) (HTTPAddress (cfg_JoltifyChain config)) NewJoltifyBridge = (None, jc)"
    by (auto simp: NewBridgeService_def addEventLoop_def initial_bridge_def http_Start_def StartSubscription_def Let_def
      split: option.splits sum.splits if_splits prod.splits dest!: dialJoltifyBridge_Inr dialChainInstance_Inr)
  from jc show thesis by (rule InitValidators_state) (use s that in blast)
qed

lemma main_Runs:
  assumes "main e env NewMultiaddr args = Runs s wg"
  obtains addr i vs metric
  where "s = initial_bridge addr (NewJoltifyBridge\<lparr>myValidatorInfo := i, validatorSet := Some vs\<rparr>) metric"
proof -
  from assms obtain config where "NewBridgeService e env config = Runs s wg" by (auto simp: main_def split: sum.splits)
  then show thesis by (rule NewBridgeService_Runs) (rule that)
qed

section \<open>A start-up for the witnesses\<close>

definition sample_args :: command_line where
  "sample_args = \<lparr>flag_string = (\<lambda>name. if name = ''pub-token-addr'' then Some ''0x07'' else None),
     flag_duration = (\<lambda>_. None), flag_bool = (\<lambda>_. None), flag_int = (\<lambda>_. None), flag_peers = [''/ip4/1.2.3.4'']\<rparr>"

definition sample_priv_key :: CosPrivKey where
  "sample_priv_key = \<lparr>cpk_Address = [], cpk_PubKeyType = [], cpk_PubKeyValue = [], cpk_PrivKeyType = [],
     cpk_PrivKeyValue = base64_EncodeToString [3]\<rparr>"

definition sample_start :: start_env where
  "sample_start = \<lparr>StdinRead = Inr 32, ReadFile = (\<lambda>_. Inr [1]), json_CosPrivKey = (\<lambda>_. Inr sample_priv_key),
     tssNew = (\<lambda>_ _ _ _ _ _ _. None), tssPeerID = ''peer'', grpcDial = (\<lambda>_. None), tmhttpNew = (\<lambda>_ _. None),
     wsStart = None, wsStop = None, ImportPrivKey = (\<lambda>_ _ _. None),
     start_node = \<lparr>GetSyncing = (\<lambda>_. Inr False), poll_time = (\<lambda>_. 0), GetNodeInfo = None, rest_GetRequest = (\<lambda>_. Inr [5]),
        json_info = (\<lambda>_. Inr no_info), UnpackPubKey = Inr,
        ne_grpc = sample_grpc\<lparr>rpc_GetLatestValidatorSet := Inr (0, [])\<rparr>\<rparr>,
     ListenError = None, ethDial = (\<lambda>_. None), HexToAddress = (\<lambda>_. [7]), NewBoundContract = (\<lambda>a _ _ _. sample_contract a), abiJSON = None,
     wsSubscribe = (\<lambda>_. None), SubscribeNewHead = None\<rparr>"

definition sample_started :: JoltifyChainInstance where
  "sample_started = NewJoltifyBridge\<lparr>myValidatorInfo := no_info, validatorSet := Some NewValidator\<rparr>"

definition sample_wg :: WaitGroup where
  "sample_wg = \<lparr>wg_count = 2, wg_parked = [HttpShutdown, HeadUnsubscribe]\<rparr>"

definition sample_metric :: Metric where
  "sample_metric = metric_Enable NewMetric"

lemma sample_init:
  "InitValidators sample_ext (start_node sample_start) addr NewJoltifyBridge = (None, sample_started)"
  by (simp add: InitValidators_def wait_synced_polls in_time_def grpcTimeout_def doInitValidator_def sample_started_def SetupValidatorSet_def
      NewValidator_def sample_start_def QueryTipValidator_def)

lemma sample_main: "main sample_ext sample_start Inr sample_args = Runs (initial_bridge ''0x07'' sample_started sample_metric) sample_wg"
proof -
  obtain config where config: "DefaultConfig Inr sample_args = Inr config"
    and c: "TokenAddress (cfg_PubChain config) = ''0x07''" "EnableMonitor config"
    by (simp add: DefaultConfig_def sample_args_def addrList_Set_def flag_or_def Let_def)
  have "StartTssServer sample_start home tss = Inr sample_priv_key" for home tss
    by (simp add: StartTssServer_def sample_start_def sample_priv_key_def base64.dec_enc Let_def)
  moreover have "dialJoltifyBridge sample_start a b = Inr NewJoltifyBridge"
    "dialChainInstance sample_start a b = Inr (NewChainInstance b)"
    "addEventLoop sample_start wg sample_started (NewChainInstance b) m
       = Runs (initial_bridge b sample_started m) (park HeadUnsubscribe wg)" for a b m wg
    by (simp_all add: dialJoltifyBridge_def dialChainInstance_def sample_NewToken addEventLoop_def AddSubscribe_def
        StartSubscription_def initial_bridge_def sample_start_def park_def wg_Done_def wg_Add_def)
  moreover have "StdinRead sample_start = Inr 32" "ReadFile sample_start p = Inr [1]"
    "ImportPrivKey sample_start u d pass = None" "http_Start sample_start (NewJoltifyHttpServer h i) wg = (None, park HttpShutdown wg)" for p u d pass h i wg
    by (simp_all add: sample_start_def http_Start_def NewJoltifyHttpServer_def)
  ultimately show ?thesis
    using c by (simp add: main_def config NewBridgeService_def sample_init sample_metric_def sample_wg_def park_def wg_Add_def Let_def)
qed

section \<open>The way out\<close>

lemma NewBridgeService_waits:
  assumes "NewBridgeService e env config = Idle wg \<or> NewBridgeService e env config = Runs s wg"
  obtains jc ci metric where "NewBridgeService e env config
    = addEventLoop env \<lparr>wg_count = 2, wg_parked = [HttpShutdown]\<rparr> jc ci metric"
  using assms
  by (auto simp: NewBridgeService_def http_Start_def park_def wg_Add_def Let_def
      split: option.splits sum.splits if_splits prod.splits)

text \<open>
  C20: the end of the program. Once the start-up has come to wait for the interrupt, the interrupt ends the
  process, stopping the clients, unless exactly the last of the four subscriptions failed:
  then the wait group was incremented for a goroutine that was never started, and \<open>wg.Wait\<close>
  does not return. The event loop is in neither case waited for.
\<close>

theorem interrupt_ends_iff:
  assumes "main e env NewMultiaddr args = Idle wg \<or> main e env NewMultiaddr args = Runs s wg"
  shows "on_interrupt env (main e env NewMultiaddr args) =
      (if (\<exists>name \<in> {''ValidatorSetUpdates'', ''NewBlock'', ''Tx''}. wsSubscribe env (tm_event name) \<noteq> None)
         \<or> SubscribeNewHead env = None
       then Some (snd (TerminateBridge env)) else None)"
proof -
  obtain config where c: "main e env NewMultiaddr args = NewBridgeService e env config"
    using assms by (auto simp: main_def split: sum.splits)
  then obtain jc ci metric where "NewBridgeService e env config
      = addEventLoop env \<lparr>wg_count = 2, wg_parked = [HttpShutdown]\<rparr> jc ci metric"
    using NewBridgeService_waits assms by metis
  then show ?thesis
    by (auto simp: c addEventLoop_def AddSubscribe_def StartSubscription_def wait_returns_def park_def wg_Done_def wg_Add_def
        split: option.splits)
qed

theorem interrupt_ends_iff_witness:
  "on_interrupt sample_start (main sample_ext sample_start Inr sample_args) = Some [StopWs, StopTss]"
proof -
  have "wsSubscribe sample_start q = None" "SubscribeNewHead sample_start = None"
    "TerminateBridge sample_start = (None, [StopWs, StopTss])" for q
    by (simp_all add: sample_start_def TerminateBridge_def)
  then show ?thesis
    by (subst interrupt_ends_iff [of sample_ext sample_start Inr sample_args sample_wg]) (simp_all add: sample_main)
qed

end
