(* ===== verification/Bridge_Loop_Correct.thy ===== *)
theory Bridge_Loop_Correct
  imports Bridge_Frames Bridge_Start
begin

text \<open>
  The properties of the event loop: its invariant over every run, that no request is made up
  or doubled by any interleaving, how the pool caches follow the chain, and what the
  retries and checks do.
\<close>

section \<open>Relations every part of a handler respects\<close>

text \<open>
  A relation between the states before and after that each elementary change of the loop
  respects is respected by a change of the validators and by a whole block of the Joltify
  chain, and by the retries and fund moving of a block of the public chain.
\<close>

locale loop_relation =
  fixes e :: ext and R :: "bridge \<Rightarrow> bridge \<Rightarrow> bool"
  assumes refl: "R s s" and trans: "R s t \<Longrightarrow> R t u \<Longrightarrow> R s u"
    and validators: "R s (s\<lparr>br_jc := (br_jc s)\<lparr>validatorSet := Some vs, msgSendCache := c\<rparr>\<rparr>)"
    and submit: "R s (s\<lparr>br_jc := (br_jc s)\<lparr>msgSendCache := c, jolt_CurrentHeight := h\<rparr>, br_joltSent := sent\<rparr>)"
    and jolt_funds: "fund_shrunk (jolt_moveFundReq (br_jc s)) m \<Longrightarrow>
      R s (s\<lparr>br_jc := (br_jc s)\<lparr>jolt_moveFundReq := m\<rparr>, br_joltSent := sent\<rparr>)"
    and pub_funds: "fund_shrunk (pub_moveFundReq (br_pi s)) m \<Longrightarrow>
      R s (s\<lparr>br_pi := (br_pi s)\<lparr>pub_moveFundReq := m\<rparr>, br_pubSent := ptxs\<rparr>)"
    and retried: "length (InboundReqChan (br_pi s)) < reqCacheSize \<Longrightarrow>
      mset (RetryInboundReq (br_pi s)) = add_mset (k, item) (mset rest) \<Longrightarrow>
      R s (s\<lparr>br_pi := (br_pi s)\<lparr>RetryInboundReq := rest,
             InboundReqChan := InboundReqChan (br_pi s) @ [inbound_SetItemHeight h item]\<rparr>\<rparr>)"
    and resent: "length (OutboundReqChan (br_jc s)) < reqCacheSize \<Longrightarrow>
      mset (RetryOutboundReq (br_jc s)) = add_mset (k', oitem) (mset orest) \<Longrightarrow>
      R s (s\<lparr>br_jc := (br_jc s)\<lparr>RetryOutboundReq := orest,
             OutboundReqChan := OutboundReqChan (br_jc s) @ [outbound_SetItemHeight h oitem]\<rparr>\<rparr>)"
    and updated: "R s (upd_both e v s)"
    and gauges: "R s (s\<lparr>br_metric := metric\<rparr>)"
    and retired: "pool_entry e v \<noteq> None \<Longrightarrow> fst (jolt_lastTwoPools (br_jc s)) = Some prev \<Longrightarrow>
      R s (s\<lparr>br_jc := jolt_AddMoveFundItem prev i (br_jc (upd_both e v s)),
             br_pi := pub_AddMoveFundItem prev j (br_pi (upd_both e v s))\<rparr>)"
begin

lemma on_validators_R:
  assumes "on_validators e env updates s = Done s'"
  shows "R s s'"
proof -
  from assms obtain r :: "goerror + i64" where "(case r of Inl _ \<Rightarrow> Done s
      | Inr height \<Rightarrow> exec_bind (HandleUpdateValidators e env updates height (br_jc s)) (\<lambda>(_, jc). Done (s\<lparr>br_jc := jc\<rparr>)))
      = Done s'"
    unfolding on_validators_def exec_bind_eq_Done_iff by blast
  then show ?thesis
    using validators by (cases r) (auto simp: exec_bind_eq_Done_iff refl dest!: HandleUpdateValidators_frame)
qed

lemma retry_inbound_R: "retry_inbound h s = Done s' \<Longrightarrow> R s s'"
  by (erule retry_inbound_frame) (auto intro!: gauges intro: trans [OF gauges] retried [of "_\<lparr>br_metric := _\<rparr>", simplified])

lemma retry_outbound_R: "retry_outbound h s = Done s' \<Longrightarrow> R s s'"
  by (erule retry_outbound_frame) (auto intro!: gauges intro: trans [OF gauges] resent [of "_\<lparr>br_metric := _\<rparr>", simplified])

lemma move_jolt_funds_R: "move_jolt_funds e env h ps s = Done s' \<Longrightarrow> R s s'"
  by (auto dest!: move_jolt_funds_frame intro: jolt_funds)

lemma move_pub_funds_R: "move_pub_funds e senv env h s = Done s' \<Longrightarrow> R s s'"
  by (auto dest!: move_pub_funds_frame intro: pub_funds)

lemma fold_upd_both_R: "R s (fold (upd_both e) vs s)"
  by (induction vs arbitrary: s) (auto intro: refl trans updated)

lemma fill_pools_R: "fill_pools e ps s = Done s' \<Longrightarrow> R s s'"
  by (auto dest!: fill_pools_frame intro: fold_upd_both_R)

lemma refresh_pools_R: "refresh_pools e h ps s = Done s' \<Longrightarrow> R s s'"
  by (erule refresh_pools_frame) (auto intro: refl updated retired)

lemma on_jolt_block_R:
  assumes "on_jolt_block e env h s = Done s'"
  shows "R s s'"
proof -
  from assms obtain c sent s1 where
    s1: "s1 = s\<lparr>br_jc := (br_jc s)\<lparr>msgSendCache := c, jolt_CurrentHeight := h\<rparr>, br_joltSent := sent\<rparr>"
    and rest: "s' = s1 \<or> (\<exists>ps s2. QueryLastPoolAddress (je_grpc env) = Inr ps \<and> retry_inbound h s1 = Done s2
           \<and> (fill_pools e ps s2 = Done s'
              \<or> (\<exists>s3. refresh_pools e h ps s2 = Done s3 \<and> move_jolt_funds e env h ps s3 = Done s')))"
    by (rule on_jolt_block_parts)
  have "R s s1" unfolding s1 by (rule submit)
  with rest show ?thesis
    by (meson trans retry_inbound_R fill_pools_R refresh_pools_R move_jolt_funds_R)
qed

lemma pub_block_tail_R:
  "exec_bind (retry_outbound h s) (move_pub_funds e senv env h) = Done s' \<Longrightarrow> R s s'"
  by (auto simp: exec_bind_eq_Done_iff intro: trans retry_outbound_R move_pub_funds_R)

end

section \<open>The invariant\<close>

definition known_pool :: "ext \<Rightarrow> PoolInfo \<Rightarrow> bool" where
  "known_pool e p \<longleftrightarrow> (\<exists>v. pool_entry e v = Some p)"

text \<open>The pools of one chain instance: the two cached ones, and the retired ones.\<close>

definition pools_ok :: "ext \<Rightarrow> pool_pair \<Rightarrow> (i64, PoolInfo) syncmap \<Rightarrow> bool" where
  "pools_ok e ps m \<longleftrightarrow> sm_wf m \<and> (\<forall>p \<in> set_option (fst ps) \<union> set_option (snd ps) \<union> snd ` set m. known_pool e p)
     \<and> (fst ps \<noteq> None \<longrightarrow> snd ps \<noteq> None)"

definition jolt_queues_ok :: "ext \<Rightarrow> JoltifyChainInstance \<Rightarrow> bool" where
  "jolt_queues_ok e jc \<longleftrightarrow> jolt_retry_ok e jc \<and> length (OutboundReqChan jc) \<le> reqCacheSize
     \<and> (\<forall>r \<in> set (OutboundReqChan jc) \<union> snd ` set (RetryOutboundReq jc). Denom (or_coin r) = OutBoundDenom)"

fun check_ok :: "status_check \<Rightarrow> bool" where
  "check_ok (MintCheck item index) \<longleftrightarrow> Denom (ir_coin item) = InBoundDenom"
| "check_ok (SendCheck item hash) \<longleftrightarrow> Denom (or_coin item) = OutBoundDenom"

text \<open>Something waits, is queued or is being checked.\<close>

definition busy :: "bridge \<Rightarrow> bool" where
  "busy s \<longleftrightarrow> pendingInbounds (br_pi s) \<noteq> [] \<or> InboundReqChan (br_pi s) \<noteq> [] \<or> RetryInboundReq (br_pi s) \<noteq> []
     \<or> OutboundReqChan (br_jc s) \<noteq> [] \<or> RetryOutboundReq (br_jc s) \<noteq> [] \<or> br_checks s \<noteq> []"

definition bridge_inv :: "ext \<Rightarrow> bridge \<Rightarrow> bool" where
  "bridge_inv e s \<longleftrightarrow> pub_inv e (br_pi s) \<and> jolt_queues_ok e (br_jc s) \<and> (\<forall>c \<in> set (br_checks s). check_ok c)
     \<and> jolt_lastTwoPools (br_jc s) = pub_lastTwoPools (br_pi s)
     \<and> pools_ok e (pub_lastTwoPools (br_pi s)) (pub_moveFundReq (br_pi s))
     \<and> pools_ok e (pub_lastTwoPools (br_pi s)) (jolt_moveFundReq (br_jc s))
     \<and> validatorSet (br_jc s) \<noteq> None
     \<and> (busy s \<longrightarrow> snd (pub_lastTwoPools (br_pi s)) \<noteq> None)"

lemma pools_ok_shrunk: "pools_ok e ps m \<Longrightarrow> fund_shrunk m m' \<Longrightarrow> pools_ok e ps m'"
  by (auto simp: pools_ok_def fund_shrunk_def)

text \<open>What an update does to the two caches.\<close>

definition next_pools :: "ext \<Rightarrow> VaultPool \<Rightarrow> pool_pair \<Rightarrow> pool_pair" where
  "next_pools e v ps = (case pool_entry e v of None \<Rightarrow> ps
     | Some p \<Rightarrow> ((case snd ps of None \<Rightarrow> fst ps | Some q \<Rightarrow> Some q), Some p))"

lemma pub_upd_eq: "pub_upd e v pi = pi\<lparr>pub_lastTwoPools := next_pools e v (pub_lastTwoPools pi)\<rparr>"
  using pub_upd_only_pools [of e v pi] pub_cache.get_upd [of e v _ pi] pub_cache.get_upd_refused [of e v pi]
  by (cases "pool_entry e v") (simp_all add: next_pools_def)

lemma jolt_upd_eq: "jolt_upd e v jc = jc\<lparr>jolt_lastTwoPools := next_pools e v (jolt_lastTwoPools jc)\<rparr>"
  using jolt_upd_only_pools [of e v jc] jolt_cache.get_upd [of e v _ jc] jolt_cache.get_upd_refused [of e v jc]
  by (cases "pool_entry e v") (simp_all add: next_pools_def)

lemma pools_ok_next: "pools_ok e ps m \<Longrightarrow> pools_ok e (next_pools e v ps) m"
  by (auto simp: pools_ok_def next_pools_def known_pool_def split: option.splits)

lemma pools_ok_filed:
  "pools_ok e ps m \<Longrightarrow> fst ps = Some p \<Longrightarrow> pools_ok e (next_pools e v ps) (sm_Store h p m)"
  using pools_ok_next [of e ps m v]
  by (auto simp: pools_ok_def set_sm_Store sm.wf_store)

lemma next_pools_snd: "snd ps \<noteq> None \<Longrightarrow> snd (next_pools e v ps) \<noteq> None"
  by (auto simp: next_pools_def split: option.splits)

lemma inbound_key_SetItemHeight [simp]: "inbound_key e (inbound_SetItemHeight h r) = inbound_key e r"
  by (simp add: inbound_key_def inbound_Hash_def inbound_SetItemHeight_def)

lemma pub_inv_retried:
  assumes "pub_inv e pi" and "length (InboundReqChan pi) < reqCacheSize"
    and m: "mset (RetryInboundReq pi) = add_mset (k, item) (mset rest)"
  shows "pub_inv e (pi\<lparr>RetryInboundReq := rest, InboundReqChan := InboundReqChan pi @ [inbound_SetItemHeight h item]\<rparr>)"
proof -
  have "set (RetryInboundReq pi) = insert (k, item) (set rest)"
    using arg_cong [OF m, of set_mset] by simp
  then show ?thesis using assms
    by (auto simp: pub_inv_def queued_ok_def pub_retry_ok_def inbound_SetItemHeight_def)
qed

lemma jolt_queues_resent:
  assumes "jolt_queues_ok e jc" and "length (OutboundReqChan jc) < reqCacheSize"
    and m: "mset (RetryOutboundReq jc) = add_mset (k, item) (mset rest)"
  shows "jolt_queues_ok e (jc\<lparr>RetryOutboundReq := rest, OutboundReqChan := OutboundReqChan jc @ [outbound_SetItemHeight h item]\<rparr>)"
proof -
  have "set (RetryOutboundReq jc) = insert (k, item) (set rest)"
    using arg_cong [OF m, of set_mset] by simp
  then show ?thesis using assms
    by (auto simp: jolt_queues_ok_def jolt_retry_ok_def outbound_SetItemHeight_def)
qed

lemma pub_inv_pools [simp]:
  "pub_inv e (pi\<lparr>pub_lastTwoPools := ps\<rparr>) = pub_inv e pi" "pub_inv e (pi\<lparr>pub_moveFundReq := m\<rparr>) = pub_inv e pi"
  "pub_inv e (pi\<lparr>pub_CurrentHeight := h\<rparr>) = pub_inv e pi"
  by (simp_all add: pub_inv_def queued_ok_def pub_retry_ok_def)

lemma jolt_queues_other [simp]:
  "jolt_queues_ok e (jc\<lparr>jolt_lastTwoPools := ps\<rparr>) = jolt_queues_ok e jc"
  "jolt_queues_ok e (jc\<lparr>jolt_moveFundReq := m\<rparr>) = jolt_queues_ok e jc"
  "jolt_queues_ok e (jc\<lparr>validatorSet := vs\<rparr>) = jolt_queues_ok e jc"
  "jolt_queues_ok e (jc\<lparr>msgSendCache := c\<rparr>) = jolt_queues_ok e jc"
  "jolt_queues_ok e (jc\<lparr>jolt_CurrentHeight := h\<rparr>) = jolt_queues_ok e jc"
  by (simp_all add: jolt_queues_ok_def jolt_retry_ok_def)

interpretation inv: loop_relation e "\<lambda>s s'. bridge_inv e s \<longrightarrow> bridge_inv e s'" for e
proof unfold_locales
  fix s :: bridge and v
  show "bridge_inv e s \<longrightarrow> bridge_inv e (upd_both e v s)"
    by (auto simp: bridge_inv_def upd_both_def pub_upd_eq jolt_upd_eq pools_ok_next next_pools_snd busy_def)
next
  fix s :: bridge and v prev i j
  assume p: "fst (jolt_lastTwoPools (br_jc s)) = Some prev"
  show "bridge_inv e s \<longrightarrow> bridge_inv e (s\<lparr>br_jc := jolt_AddMoveFundItem prev i (br_jc (upd_both e v s)),
             br_pi := pub_AddMoveFundItem prev j (br_pi (upd_both e v s))\<rparr>)"
    using p by (auto simp: bridge_inv_def upd_both_def pub_upd_eq jolt_upd_eq pools_ok_filed next_pools_snd busy_def
        jolt_AddMoveFundItem_def pub_AddMoveFundItem_def)
next
  fix s :: bridge and k and item :: InboundReq and rest h
  assume r: "length (InboundReqChan (br_pi s)) < reqCacheSize"
    "mset (RetryInboundReq (br_pi s)) = add_mset (k, item) (mset rest)"
  have "RetryInboundReq (br_pi s) \<noteq> []" using r(2) by auto
  then show "bridge_inv e s \<longrightarrow> bridge_inv e (s\<lparr>br_pi := (br_pi s)\<lparr>RetryInboundReq := rest,
             InboundReqChan := InboundReqChan (br_pi s) @ [inbound_SetItemHeight h item]\<rparr>\<rparr>)"
    using pub_inv_retried [OF _ r] by (auto simp: bridge_inv_def busy_def)
next
  fix s :: bridge and k and item :: OutBoundReq and rest h
  assume r: "length (OutboundReqChan (br_jc s)) < reqCacheSize"
    "mset (RetryOutboundReq (br_jc s)) = add_mset (k, item) (mset rest)"
  have "RetryOutboundReq (br_jc s) \<noteq> []" using r(2) by auto
  then show "bridge_inv e s \<longrightarrow> bridge_inv e (s\<lparr>br_jc := (br_jc s)\<lparr>RetryOutboundReq := rest,
             OutboundReqChan := OutboundReqChan (br_jc s) @ [outbound_SetItemHeight h item]\<rparr>\<rparr>)"
    using jolt_queues_resent [OF _ r] by (auto simp: bridge_inv_def busy_def)
next
  fix s :: bridge and m sent
  assume "fund_shrunk (jolt_moveFundReq (br_jc s)) m"
  from pools_ok_shrunk [OF _ this, of e "pub_lastTwoPools (br_pi s)"]
  show "bridge_inv e s \<longrightarrow> bridge_inv e (s\<lparr>br_jc := (br_jc s)\<lparr>jolt_moveFundReq := m\<rparr>, br_joltSent := sent\<rparr>)"
    by (simp add: bridge_inv_def busy_def)
next
  fix s :: bridge and m ptxs
  assume "fund_shrunk (pub_moveFundReq (br_pi s)) m"
  from pools_ok_shrunk [OF _ this, of e "pub_lastTwoPools (br_pi s)"]
  show "bridge_inv e s \<longrightarrow> bridge_inv e (s\<lparr>br_pi := (br_pi s)\<lparr>pub_moveFundReq := m\<rparr>, br_pubSent := ptxs\<rparr>)"
    by (simp add: bridge_inv_def busy_def)
next
  fix s :: bridge and vs c
  show "bridge_inv e s \<longrightarrow> bridge_inv e (s\<lparr>br_jc := (br_jc s)\<lparr>validatorSet := Some vs, msgSendCache := c\<rparr>\<rparr>)"
    by (simp add: bridge_inv_def busy_def)
next
  fix s :: bridge and c h sent
  show "bridge_inv e s \<longrightarrow>
      bridge_inv e (s\<lparr>br_jc := (br_jc s)\<lparr>msgSendCache := c, jolt_CurrentHeight := h\<rparr>, br_joltSent := sent\<rparr>)"
    by (simp add: bridge_inv_def busy_def)
next
  fix s :: bridge and metric
  show "bridge_inv e s \<longrightarrow> bridge_inv e (s\<lparr>br_metric := metric\<rparr>)"
    by (simp add: bridge_inv_def busy_def)
qed blast+

lemma jolt_queues_add:
  "jolt_queues_ok e jc \<Longrightarrow> Denom (or_coin r) = OutBoundDenom \<Longrightarrow> jolt_queues_ok e (jolt_AddItem e r jc)"
  by (auto simp: jolt_queues_ok_def jolt_retry_ok_def jolt_AddItem_def)

lemma jolt_fold_add:
  "fold (jolt_AddItem e) rs jc = jc\<lparr>RetryOutboundReq := RetryOutboundReq jc @ map (\<lambda>r. (outbound_key e r, r)) rs\<rparr>"
  by (induction rs arbitrary: jc) (simp_all add: jolt_AddItem_def)

lemma on_jolt_tx_inv:
  assumes "sdk_ok M e" and "bridge_inv e s" and "on_jolt_tx e env code h tx s = Done s'"
  shows "bridge_inv e s'"
proof (cases "code = 0")
  case False
  then show ?thesis using assms(2,3) by (simp add: on_jolt_tx_def)
next
  case True
  let ?rs = "tx_claims e env h tx (br_jc s)"
  from True assms(3) have s': "s' = s\<lparr>br_jc := fold (jolt_AddItem e) ?rs (br_jc s)\<rparr>"
    by (auto simp: on_jolt_tx_def exec_bind_eq_Done_iff dest!: CheckOutBoundTx_claims [OF assms(1)])
  have "?rs \<noteq> [] \<Longrightarrow> snd (jolt_lastTwoPools (br_jc s)) \<noteq> None"
    by (auto simp: tx_claims_def split: prod.splits option.splits)
  moreover have "jolt_queues_ok e (fold (jolt_AddItem e) ?rs (br_jc s))"
    using assms(2) tx_claims_denom [of _ e env h tx "br_jc s"]
    by (auto simp: jolt_fold_add jolt_queues_ok_def jolt_retry_ok_def bridge_inv_def)
  ultimately show ?thesis
    using assms(2) unfolding s' by (auto simp: bridge_inv_def busy_def jolt_fold_add)
qed

lemma pub_inv_expired: "pub_inv e pi \<Longrightarrow> pub_inv e (DeleteExpired h pi)"
  using pending_ok_fold_del by (simp add: pub_inv_def queued_ok_def pub_retry_ok_def DeleteExpired_def Let_def)

lemma DeleteExpired_only:
  "\<exists>a b. DeleteExpired h pi = pi\<lparr>pendingInbounds := a, pendingInboundsBnB := b\<rparr>
     \<and> mset a \<subseteq># mset (pendingInbounds pi)"
proof -
  have sub: "mset (fold sm_Delete ks m) \<subseteq># mset m" for ks and m :: "(string, inboundTx) syncmap"
  proof (induction ks arbitrary: m)
    case (Cons k ks)
    have "mset (sm_Delete k m) \<subseteq># mset m"
      by (simp add: sm_Delete_def AList.delete_eq multiset_filter_subset)
    with Cons [of "sm_Delete k m"] show ?case by (simp add: subset_mset.order_trans)
  qed simp
  show ?thesis
    unfolding DeleteExpired_def Let_def
    using sub by blast
qed

text \<open>What a public block does to the inbound side, before the retries and the fund moving.\<close>

text \<open>The waiting transfers that the clean-up after a public block deletes.\<close>

definition block_expired :: "ext \<Rightarrow> pub_env \<Rightarrow> nat \<Rightarrow> goerror + EthBlock \<Rightarrow> PubChainInstance \<Rightarrow> (acc_address \<times> Coin) multiset" where
  "block_expired e penv n block pi =
     (case ProcessNewBlock e penv block pi of Done (_, pi1) \<Rightarrow> expired_transfers (of_nat n) pi1 | _ \<Rightarrow> {#})"

lemma pub_block_state:
  assumes "sdk_ok M e" and "pub_inv e (br_pi s)" and ok: "event_ok (PubBlock penv senv env n block)"
    and run: "on_pub_block e penv senv env n block s = Done s'"
  obtains pi2 where "exec_bind (retry_outbound (of_nat n) (s\<lparr>br_pi := pi2\<rparr>)) (move_pub_funds e senv env (of_nat n)) = Done s'"
    and "pub_inv e pi2" and "pub_lastTwoPools pi2 = pub_lastTwoPools (br_pi s)"
    and "pub_moveFundReq pi2 = pub_moveFundReq (br_pi s)" and "tokenAddr pi2 = tokenAddr (br_pi s)"
    and "backing pi2 + block_expired e penv n block (br_pi s) \<subseteq># backing (br_pi s) + (case block of Inl _ \<Rightarrow> {#}
           | Inr b \<Rightarrow> mset (List.map_filter (valid_transfer e penv (br_pi s)) (Transactions b)))"
    and "(case block of Inl _ \<Rightarrow> True | Inr b \<Rightarrow> fresh_transfers e penv (br_pi s) (Transactions b)) \<Longrightarrow>
      backing pi2 + block_expired e penv n block (br_pi s) = backing (br_pi s) + (case block of Inl _ \<Rightarrow> {#}
           | Inr b \<Rightarrow> mset (List.map_filter (valid_transfer e penv (br_pi s)) (Transactions b)))"
    and "pub_lastTwoPools (br_pi s) = (None, None) \<longrightarrow> pendingInbounds (br_pi s) = [] \<longrightarrow> pendingInbounds pi2 = []"
    and "pub_lastTwoPools (br_pi s) = (None, None) \<longrightarrow> InboundReqChan pi2 = InboundReqChan (br_pi s)"
    and "pub_lastTwoPools (br_pi s) = (None, None) \<longrightarrow> RetryInboundReq pi2 = RetryInboundReq (br_pi s)"
proof -
  obtain err pi1 where p: "ProcessNewBlock e penv block (br_pi s) = Done (err, pi1)"
    using run by (auto simp: on_pub_block_def exec_bind_eq_Done_iff)
  let ?new = "case block of Inl _ \<Rightarrow> {#}
    | Inr b \<Rightarrow> mset (List.map_filter (valid_transfer e penv (br_pi s)) (Transactions b))"
  have pi1: "pub_inv e pi1 \<and> backing pi1 \<subseteq># backing (br_pi s) + ?new
      \<and> ((case block of Inl _ \<Rightarrow> True | Inr b \<Rightarrow> fresh_transfers e penv (br_pi s) (Transactions b)) \<longrightarrow>
            backing pi1 = backing (br_pi s) + ?new) \<and> tokenAddr pi1 = tokenAddr (br_pi s)
      \<and> pub_lastTwoPools pi1 = pub_lastTwoPools (br_pi s) \<and> pub_moveFundReq pi1 = pub_moveFundReq (br_pi s)
      \<and> (pub_lastTwoPools (br_pi s) = (None, None) \<longrightarrow> pi1 = br_pi s)"
  proof (cases block)
    case (Inl x)
    then show ?thesis using p assms(2) by (simp add: ProcessNewBlock_def)
  next
    case (Inr b)
    then have fold: "exec_fold (process_tx e penv (NumberU64 b)) (Transactions b) (br_pi s) = Done pi1"
      using p by (auto simp: ProcessNewBlock_def processEachBlock_def exec_bind_eq_Done_iff)
    have "pi1 = br_pi s" if "pub_lastTwoPools (br_pi s) = (None, None)"
      using exec_fold_skip [of "Transactions b" "process_tx e penv (NumberU64 b)" "br_pi s"]
        process_tx_no_pool [OF that] fold by simp
    then show ?thesis
      using processEachBlock_run [OF assms(1,2) _ fold] process_txs_exact [OF assms(1,2) _ _ fold] processEachBlock_funds [OF fold] ok Inr
      by simp
  qed
  let ?pi = "pi1\<lparr>pub_CurrentHeight := of_nat n\<rparr>"
  obtain a b where d: "DeleteExpired (of_nat n) ?pi = ?pi\<lparr>pendingInbounds := a, pendingInboundsBnB := b\<rparr>"
    "mset a \<subseteq># mset (pendingInbounds pi1)"
    using DeleteExpired_only [of "of_nat n" ?pi] by auto
  have sub: "backing (DeleteExpired (of_nat n) ?pi) + block_expired e penv n block (br_pi s) = backing pi1"
    using DeleteExpired_backing [of e ?pi "of_nat n"] pi1 p
    by (simp add: block_expired_def expired_transfers_def backing_def pub_retry_bag_def)
  have nil: "pendingInbounds pi1 = [] \<Longrightarrow> a = []" using d(2) by simp
  show thesis
  proof (rule that [of "DeleteExpired (of_nat n) ?pi"])
    show "exec_bind (retry_outbound (of_nat n) (s\<lparr>br_pi := DeleteExpired (of_nat n) ?pi\<rparr>))
        (move_pub_funds e senv env (of_nat n)) = Done s'"
      using run p by (simp add: on_pub_block_def Let_def)
    show "pub_inv e (DeleteExpired (of_nat n) ?pi)" using pi1 by (intro pub_inv_expired) simp
    show "backing (DeleteExpired (of_nat n) ?pi) + block_expired e penv n block (br_pi s) \<subseteq># backing (br_pi s) + ?new"
      using sub pi1 by simp
    show "backing (DeleteExpired (of_nat n) ?pi) + block_expired e penv n block (br_pi s) = backing (br_pi s) + ?new"
      if "case block of Inl _ \<Rightarrow> True | Inr b \<Rightarrow> fresh_transfers e penv (br_pi s) (Transactions b)"
      using sub pi1 that by simp
  qed (use d pi1 nil in auto)
qed

lemma on_pub_block_inv:
  assumes "sdk_ok M e" and inv: "bridge_inv e s" and "event_ok (PubBlock penv senv env n block)"
    and "on_pub_block e penv senv env n block s = Done s'"
  shows "bridge_inv e s'"
proof -
  have "pub_inv e (br_pi s)" using inv by (simp add: bridge_inv_def)
  from assms(1) this assms(3,4) show ?thesis
  proof (rule pub_block_state)
    fix pi2
    assume run: "exec_bind (retry_outbound (of_nat n) (s\<lparr>br_pi := pi2\<rparr>)) (move_pub_funds e senv env (of_nat n)) = Done s'"
      and pi2: "pub_inv e pi2" "pub_lastTwoPools pi2 = pub_lastTwoPools (br_pi s)"
        "pub_moveFundReq pi2 = pub_moveFundReq (br_pi s)"
      and idle: "pub_lastTwoPools (br_pi s) = (None, None) \<longrightarrow> pendingInbounds (br_pi s) = [] \<longrightarrow> pendingInbounds pi2 = []"
        "pub_lastTwoPools (br_pi s) = (None, None) \<longrightarrow> InboundReqChan pi2 = InboundReqChan (br_pi s)"
        "pub_lastTwoPools (br_pi s) = (None, None) \<longrightarrow> RetryInboundReq pi2 = RetryInboundReq (br_pi s)"
    have none: "pub_lastTwoPools (br_pi s) = (None, None)" if "snd (pub_lastTwoPools (br_pi s)) = None"
      using inv that by (cases "pub_lastTwoPools (br_pi s)") (auto simp: bridge_inv_def pools_ok_def)
    have b: "busy (s\<lparr>br_pi := pi2\<rparr>) \<longrightarrow> snd (pub_lastTwoPools (br_pi s)) \<noteq> None"
      using none inv idle unfolding bridge_inv_def busy_def by fastforce
    have "bridge_inv e (s\<lparr>br_pi := pi2\<rparr>)"
      using inv pi2 b by (simp add: bridge_inv_def)
    then show ?thesis using inv.pub_block_tail_R [OF run] by blast
  qed
qed

lemma pub_inv_taken: "pub_inv e pi \<Longrightarrow> InboundReqChan pi = item # c \<Longrightarrow>
    pub_inv e (pi\<lparr>InboundReqChan := c\<rparr>) \<and> Denom (ir_coin item) = InBoundDenom"
  by (auto simp: pub_inv_def queued_ok_def pub_retry_ok_def)

lemma pub_inv_added: "pub_inv e pi \<Longrightarrow> Denom (ir_coin r) = InBoundDenom \<Longrightarrow> pub_inv e (pub_AddItem e r pi)"
  by (auto simp: pub_inv_def queued_ok_def pub_retry_ok_def pub_AddItem_def)

lemma jolt_queues_taken: "jolt_queues_ok e jc \<Longrightarrow> OutboundReqChan jc = item # c \<Longrightarrow>
    jolt_queues_ok e (jc\<lparr>OutboundReqChan := c\<rparr>) \<and> Denom (or_coin item) = OutBoundDenom"
  by (auto simp: jolt_queues_ok_def jolt_retry_ok_def)

text \<open>A request put back into a retry pool, or a check that starts or ends.\<close>

lemma bridge_inv_add_inbound:
  "bridge_inv e s \<Longrightarrow> Denom (ir_coin r) = InBoundDenom \<Longrightarrow> snd (pub_lastTwoPools (br_pi s)) \<noteq> None \<Longrightarrow>
     bridge_inv e (s\<lparr>br_pi := pub_AddItem e r (br_pi s)\<rparr>)"
  using pub_inv_added by (simp add: bridge_inv_def) (simp add: pub_AddItem_def)

lemma bridge_inv_add_outbound:
  "bridge_inv e s \<Longrightarrow> Denom (or_coin r) = OutBoundDenom \<Longrightarrow> snd (pub_lastTwoPools (br_pi s)) \<noteq> None \<Longrightarrow>
     bridge_inv e (s\<lparr>br_jc := jolt_AddItem e r (br_jc s)\<rparr>)"
  using jolt_queues_add by (simp add: bridge_inv_def) (simp add: jolt_AddItem_def)

lemma bridge_inv_checks:
  "bridge_inv e s \<Longrightarrow> \<forall>c \<in> set cs. check_ok c \<Longrightarrow> snd (pub_lastTwoPools (br_pi s)) \<noteq> None \<Longrightarrow>
     bridge_inv e (s\<lparr>br_checks := cs\<rparr>)"
  by (simp add: bridge_inv_def)

lemma on_inbound_inv:
  assumes "bridge_inv e s" and "on_inbound e env s = Done s'"
  shows "bridge_inv e s'"
  using assms(2)
proof (rule on_inbound_frame)
  fix item c s1 sent
  assume c: "InboundReqChan (br_pi s) = item # c"
    and s1: "s1 = s\<lparr>br_pi := (br_pi s)\<lparr>InboundReqChan := c\<rparr>, br_joltSent := sent\<rparr>"
    and s': "if signs env s then s' = s1\<lparr>br_pi := pub_AddItem e item (br_pi s1)\<rparr>
         \<or> (\<exists>index. s' = s1\<lparr>br_checks := br_checks s1 @ [MintCheck item index]\<rparr>)
       else s' = s1"
  have p: "snd (pub_lastTwoPools (br_pi s)) \<noteq> None" using assms(1) c by (simp add: bridge_inv_def busy_def)
  have i: "pub_inv e (br_pi s)" using assms(1) by (simp add: bridge_inv_def)
  have "bridge_inv e s1" using assms(1) p pub_inv_taken [OF i c] unfolding s1 by (simp add: bridge_inv_def)
  moreover have "snd (pub_lastTwoPools (br_pi s1)) \<noteq> None" "\<forall>c \<in> set (br_checks s1). check_ok c"
    using p assms(1) by (simp_all add: s1 bridge_inv_def)
  ultimately show ?thesis
    using s' pub_inv_taken [OF i c] by (auto intro!: bridge_inv_add_inbound bridge_inv_checks split: if_splits)
qed

lemma on_outbound_inv:
  assumes "bridge_inv e s" and "on_outbound e env senv s = Done s'"
  shows "bridge_inv e s'"
  using assms(2)
proof (rule on_outbound_frame)
  fix item c s1 sent
  assume c: "OutboundReqChan (br_jc s) = item # c"
    and s1: "s1 = s\<lparr>br_jc := (br_jc s)\<lparr>OutboundReqChan := c\<rparr>, br_pubSent := sent\<rparr>"
    and s': "if signs env s then s' = s1\<lparr>br_jc := jolt_AddItem e item (br_jc s1)\<rparr>
         \<or> (\<exists>hash. s' = s1\<lparr>br_checks := br_checks s1 @ [SendCheck item hash]\<rparr>)
       else s' = s1"
  have p: "snd (pub_lastTwoPools (br_pi s)) \<noteq> None" using assms(1) c by (simp add: bridge_inv_def busy_def)
  have i: "jolt_queues_ok e (br_jc s)" using assms(1) by (simp add: bridge_inv_def)
  have "bridge_inv e s1" using assms(1) p jolt_queues_taken [OF i c] unfolding s1 by (simp add: bridge_inv_def)
  moreover have "snd (pub_lastTwoPools (br_pi s1)) \<noteq> None" "\<forall>c \<in> set (br_checks s1). check_ok c"
    using p assms(1) by (simp_all add: s1 bridge_inv_def)
  ultimately show ?thesis
    using s' jolt_queues_taken [OF i c] by (auto intro!: bridge_inv_add_outbound bridge_inv_checks split: if_splits)
qed

lemma on_mint_checked_frame:
  assumes "on_mint_checked e n Retry clients s = Done s'"
  obtains item index where "n < length (br_checks s)" and "br_checks s ! n = MintCheck item index"
    and "s' = (if jolt_CheckTxStatus Retry clients index = None then drop_check n s
         else (drop_check n s)\<lparr>br_pi := pub_AddItem e item (br_pi s)\<rparr>)"
proof (cases "n < length (br_checks s)")
  case False
  then show thesis using assms by (simp add: on_mint_checked_def)
next
  case True
  then show thesis
    using assms that by (cases "br_checks s ! n") (auto simp: on_mint_checked_def drop_check_def Let_def split: if_splits)
qed

lemma on_send_checked_frame:
  assumes "on_send_checked e n Retry envs s = Done s'"
  obtains item hash where "n < length (br_checks s)" and "br_checks s ! n = SendCheck item hash"
    and "s' = (if pub_CheckTxStatus e Retry envs hash = Some ''tx failed''
         then (drop_check n s)\<lparr>br_jc := jolt_AddItem e item (br_jc s)\<rparr> else drop_check n s)"
proof (cases "n < length (br_checks s)")
  case False
  then show thesis using assms by (simp add: on_send_checked_def)
next
  case True
  then show thesis
    using assms that
    by (cases "br_checks s ! n")
      (auto simp: on_send_checked_def drop_check_def Let_def split: if_splits option.splits)
qed

lemma drop_check_inv:
  assumes "bridge_inv e s" and "n < length (br_checks s)"
  shows "bridge_inv e (drop_check n s)" and "snd (pub_lastTwoPools (br_pi s)) \<noteq> None" and "check_ok (br_checks s ! n)"
proof -
  show p: "snd (pub_lastTwoPools (br_pi s)) \<noteq> None"
    using assms by (auto simp: bridge_inv_def busy_def)
  have "\<forall>c \<in> set (take n (br_checks s) @ drop (Suc n) (br_checks s)). check_ok c"
    using assms(1) by (auto simp: bridge_inv_def dest: in_set_takeD in_set_dropD)
  then show "bridge_inv e (drop_check n s)"
    unfolding drop_check_def using assms(1) p by (intro bridge_inv_checks)
  show "check_ok (br_checks s ! n)" using assms by (simp add: bridge_inv_def)
qed

lemma on_checked_inv:
  assumes inv: "bridge_inv e s"
    and "on_mint_checked e n Retry clients s = Done s' \<or> on_send_checked e n Retry envs s = Done s'"
  shows "bridge_inv e s'"
  using assms(2)
proof
  assume "on_mint_checked e n Retry clients s = Done s'"
  then show ?thesis
  proof (rule on_mint_checked_frame)
    fix item index
    assume n: "n < length (br_checks s)" "br_checks s ! n = MintCheck item index"
      and s': "s' = (if jolt_CheckTxStatus Retry clients index = None then drop_check n s
         else (drop_check n s)\<lparr>br_pi := pub_AddItem e item (br_pi s)\<rparr>)"
    note d = drop_check_inv [OF inv n(1)]
    show ?thesis using d n(2) bridge_inv_add_inbound [OF d(1), of item]
      by (simp add: s') (simp add: drop_check_def)
  qed
next
  assume "on_send_checked e n Retry envs s = Done s'"
  then show ?thesis
  proof (rule on_send_checked_frame)
    fix item hash
    assume n: "n < length (br_checks s)" "br_checks s ! n = SendCheck item hash"
      and s': "s' = (if pub_CheckTxStatus e Retry envs hash = Some ''tx failed''
         then (drop_check n s)\<lparr>br_jc := jolt_AddItem e item (br_jc s)\<rparr> else drop_check n s)"
    note d = drop_check_inv [OF inv n(1)]
    show ?thesis using d n(2) bridge_inv_add_outbound [OF d(1), of item]
      by (simp add: s') (simp add: drop_check_def)
  qed
qed

lemma handle_inv:
  assumes "sdk_ok M e" and "bridge_inv e s" and "event_ok ev" and "handle e ev s = Done s'"
  shows "bridge_inv e s'"
proof (cases ev)
  case (ValidatorUpdate env updates)
  then show ?thesis using assms(2,4) inv.on_validators_R by simp
next
  case (JoltBlock env height)
  then show ?thesis using assms(2,4) inv.on_jolt_block_R by simp
next
  case (JoltTx env code height tx)
  then show ?thesis using assms(4) on_jolt_tx_inv [OF assms(1,2)] by simp
next
  case (PubBlock penv senv jenv number block)
  then show ?thesis using assms(4) on_pub_block_inv [OF assms(1,2) assms(3) [unfolded PubBlock]] by simp
next
  case (TakeInbound env)
  then show ?thesis using assms(4) on_inbound_inv [OF assms(2)] by simp
next
  case (TakeOutbound env senv)
  then show ?thesis using assms(4) on_outbound_inv [OF assms(2)] by simp
next
  case (MintChecked n Retry clients)
  then have "on_mint_checked e n Retry clients s = Done s'" using assms(4) by simp
  from on_checked_inv [OF assms(2) disjI1 [OF this]] show ?thesis .
next
  case (SendChecked n Retry envs)
  then have "on_send_checked e n Retry envs s = Done s'" using assms(4) by simp
  from on_checked_inv [OF assms(2) disjI2 [OF this]] show ?thesis .
qed

section \<open>Ledgers\<close>

text \<open>
  A multiset of requests in flight. When no step lets more be in flight or leave than was
  there or its event brings in, the same holds of a whole run; and when each step is exact,
  so is the run.
\<close>

locale ledger =
  fixes e :: ext and ok :: "bridge \<Rightarrow> bool" and bag :: "bridge \<Rightarrow> 'b multiset"
    and gain :: "bridge \<Rightarrow> bridge_event \<Rightarrow> 'b multiset" and left :: "bridge \<Rightarrow> bridge_event \<Rightarrow> 'b multiset"
  assumes ok_step: "ok s \<Longrightarrow> event_ok ev \<Longrightarrow> handle e ev s = Done s' \<Longrightarrow> ok s'"
    and bag_step: "ok s \<Longrightarrow> event_ok ev \<Longrightarrow> handle e ev s = Done s' \<Longrightarrow> bag s' + left s ev \<subseteq># bag s + gain s ev"
begin

lemma run_ok: "bridge_run e s tr s' \<Longrightarrow> ok s \<Longrightarrow> ok s'"
  by (induction rule: bridge_run.induct) (auto intro: ok_step)

lemma run_bag:
  "bridge_run e s tr s' \<Longrightarrow> ok s \<Longrightarrow> bag s' + (\<Sum>(t, ev) \<leftarrow> tr. left t ev) \<subseteq># bag s + (\<Sum>(t, ev) \<leftarrow> tr. gain t ev)"
proof (induction rule: bridge_run.induct)
  case (step s tr s1 ev s')
  have "bag s' + left s1 ev \<subseteq># bag s1 + gain s1 ev"
    using bag_step [OF run_ok [OF step.hyps(1) step.prems] step.hyps(2,3)] .
  then have "bag s' + left s1 ev + (\<Sum>(t, ev) \<leftarrow> tr. left t ev) \<subseteq># bag s1 + gain s1 ev + (\<Sum>(t, ev) \<leftarrow> tr. left t ev)"
    by simp
  also have "\<dots> = (bag s1 + (\<Sum>(t, ev) \<leftarrow> tr. left t ev)) + gain s1 ev" by simp
  also have "\<dots> \<subseteq># (bag s + (\<Sum>(t, ev) \<leftarrow> tr. gain t ev)) + gain s1 ev"
    using step.IH [OF step.prems] by simp
  finally show ?case by (simp add: ac_simps)
qed simp

end

text \<open>\<open>fine\<close> are the events whose step is exact.\<close>

locale exact_ledger = ledger +
  fixes fine :: "bridge \<Rightarrow> bridge_event \<Rightarrow> bool"
  assumes bag_exact: "ok s \<Longrightarrow> fine s ev \<Longrightarrow> event_ok ev \<Longrightarrow> handle e ev s = Done s' \<Longrightarrow> bag s' + left s ev = bag s + gain s ev"
begin

lemma run_exact:
  "bridge_run e s tr s' \<Longrightarrow> ok s \<Longrightarrow> \<forall>(t, ev) \<in> set tr. fine t ev
   \<Longrightarrow> bag s' + (\<Sum>(t, ev) \<leftarrow> tr. left t ev) = bag s + (\<Sum>(t, ev) \<leftarrow> tr. gain t ev)"
proof (induction rule: bridge_run.induct)
  case (step s tr s1 ev s')
  have "bag s' + left s1 ev = bag s1 + gain s1 ev"
    using bag_exact [OF run_ok [OF step.hyps(1) step.prems(1)] _ step.hyps(2,3)] step.prems(2) by simp
  then have "bag s' + (\<Sum>(t, ev) \<leftarrow> tr @ [(s1, ev)]. left t ev) = bag s1 + (\<Sum>(t, ev) \<leftarrow> tr. left t ev) + gain s1 ev"
    by (simp add: ac_simps)
  then show ?case using step.IH [OF step.prems(1)] step.prems(2) by (simp add: ac_simps)
qed simp

end

definition in_id :: "InboundReq \<Rightarrow> acc_address \<times> Coin" where
  "in_id r = (ir_address r, ir_coin r)"

fun mint_of :: "status_check \<Rightarrow> (acc_address \<times> Coin) option" where
  "mint_of (MintCheck item index) = Some (in_id item)"
| "mint_of (SendCheck item hash) = None"

definition inbound_flight :: "bridge \<Rightarrow> (acc_address \<times> Coin) multiset" where
  "inbound_flight s = backing (br_pi s) + mset (List.map_filter mint_of (br_checks s))"

fun inbound_gain :: "ext \<Rightarrow> bridge \<Rightarrow> bridge_event \<Rightarrow> (acc_address \<times> Coin) multiset" where
  "inbound_gain e s (PubBlock penv senv env n (Inr b)) =
     mset (List.map_filter (valid_transfer e penv (br_pi s)) (Transactions b))"
| "inbound_gain e s _ = {#}"

text \<open>
  A mint request that was taken has left when this node does not sign for the latest pool, or
  the lookup of its key failed, or when the mint was found on the chain. A waiting transfer
  leaves when it expires.
\<close>

fun inbound_left :: "ext \<Rightarrow> bridge \<Rightarrow> bridge_event \<Rightarrow> (acc_address \<times> Coin) multiset" where
  "inbound_left e s (TakeInbound env) = (if signs env s then {#} else mset (map in_id (take 1 (InboundReqChan (br_pi s)))))"
| "inbound_left e s (MintChecked n Retry clients) =
     (case br_checks s ! n of
        MintCheck item index \<Rightarrow> if jolt_CheckTxStatus Retry clients index = None then {#in_id item#} else {#}
      | SendCheck item hash \<Rightarrow> {#})"
| "inbound_left e s (PubBlock penv senv env n block) = block_expired e penv n block (br_pi s)"
| "inbound_left e s _ = {#}"

text \<open>The transfers of a public block are new, and different from each other.\<close>

fun fresh_event :: "ext \<Rightarrow> bridge \<Rightarrow> bridge_event \<Rightarrow> bool" where
  "fresh_event e s (PubBlock penv senv env n (Inr b)) \<longleftrightarrow> fresh_transfers e penv (br_pi s) (Transactions b)"
| "fresh_event e s _ \<longleftrightarrow> True"

definition out_id :: "OutBoundReq \<Rightarrow> string \<times> eth_address \<times> Coin" where
  "out_id r = (or_txID r, or_outReceiverAddress r, or_coin r)"

fun send_of :: "status_check \<Rightarrow> (string \<times> eth_address \<times> Coin) option" where
  "send_of (MintCheck item index) = None"
| "send_of (SendCheck item hash) = Some (out_id item)"

definition outbound_flight :: "bridge \<Rightarrow> (string \<times> eth_address \<times> Coin) multiset" where
  "outbound_flight s = image_mset out_id (mset (OutboundReqChan (br_jc s)) + jolt_retry_bag (br_jc s))
     + mset (List.map_filter send_of (br_checks s))"

fun outbound_gain :: "ext \<Rightarrow> bridge \<Rightarrow> bridge_event \<Rightarrow> (string \<times> eth_address \<times> Coin) multiset" where
  "outbound_gain e s (JoltTx env code h tx) =
     (if code = 0 then image_mset out_id (mset (tx_claims e env h tx (br_jc s))) else {#})"
| "outbound_gain e s _ = {#}"

text \<open>
  A payout has left when this node does not sign or its key lookup failed, or when the polling
  of its transaction ended in anything but \<open>tx failed\<close>: it was paid, or no receipt was had.
\<close>

fun outbound_left :: "ext \<Rightarrow> bridge \<Rightarrow> bridge_event \<Rightarrow> (string \<times> eth_address \<times> Coin) multiset" where
  "outbound_left e s (TakeOutbound env senv) =
     (if signs env s then {#} else mset (map out_id (take 1 (OutboundReqChan (br_jc s)))))"
| "outbound_left e s (SendChecked n Retry envs) =
     (case br_checks s ! n of
        SendCheck item hash \<Rightarrow> if pub_CheckTxStatus e Retry envs hash = Some ''tx failed'' then {#} else {#out_id item#}
      | MintCheck item index \<Rightarrow> {#})"
| "outbound_left e s _ = {#}"

lemma backing_other [simp]:
  "backing (pi\<lparr>pub_lastTwoPools := ps\<rparr>) = backing pi" "backing (pi\<lparr>pub_moveFundReq := m\<rparr>) = backing pi"
  by (simp_all add: backing_def pub_retry_bag_def)

interpretation in_rel: loop_relation e "\<lambda>s s'. inbound_flight s' = inbound_flight s" for e
proof unfold_locales
  fix s :: bridge and k and item :: InboundReq and rest h
  assume "mset (RetryInboundReq (br_pi s)) = add_mset (k, item) (mset rest)"
  then show "inbound_flight (s\<lparr>br_pi := (br_pi s)\<lparr>RetryInboundReq := rest,
             InboundReqChan := InboundReqChan (br_pi s) @ [inbound_SetItemHeight h item]\<rparr>\<rparr>) = inbound_flight s"
    by (simp add: inbound_flight_def backing_def pub_retry_bag_def inbound_SetItemHeight_def)
qed (auto simp: inbound_flight_def upd_both_def pub_upd_eq pub_AddMoveFundItem_def)

interpretation out_rel: loop_relation e "\<lambda>s s'. outbound_flight s' = outbound_flight s" for e
proof unfold_locales
  fix s :: bridge and k and item :: OutBoundReq and rest h
  assume "mset (RetryOutboundReq (br_jc s)) = add_mset (k, item) (mset rest)"
  then show "outbound_flight (s\<lparr>br_jc := (br_jc s)\<lparr>RetryOutboundReq := rest,
             OutboundReqChan := OutboundReqChan (br_jc s) @ [outbound_SetItemHeight h item]\<rparr>\<rparr>) = outbound_flight s"
    by (simp add: outbound_flight_def jolt_retry_bag_def outbound_SetItemHeight_def out_id_def)
qed (auto simp: outbound_flight_def upd_both_def jolt_upd_eq jolt_AddMoveFundItem_def jolt_retry_bag_def)

lemma map_filter_snoc:
  "mset (List.map_filter f (xs @ [y])) = mset (List.map_filter f xs) + (case f y of None \<Rightarrow> {#} | Some z \<Rightarrow> {#z#})"
  by (induction xs) (auto simp: map_filter_simps split: option.splits)

lemma map_filter_drop:
  "n < length xs \<Longrightarrow> mset (List.map_filter f xs) =
     mset (List.map_filter f (take n xs @ drop (Suc n) xs)) + (case f (xs ! n) of None \<Rightarrow> {#} | Some z \<Rightarrow> {#z#})"
proof (induction xs arbitrary: n)
  case (Cons x xs)
  then show ?case by (cases n) (auto simp: map_filter_simps split: option.splits)
qed simp

lemma inbound_flight_other [simp]:
  "inbound_flight (s\<lparr>br_jc := jc\<rparr>) = inbound_flight s" "inbound_flight (s\<lparr>br_joltSent := x\<rparr>) = inbound_flight s"
  "inbound_flight (s\<lparr>br_pubSent := y\<rparr>) = inbound_flight s"
  by (simp_all add: inbound_flight_def)

lemma outbound_flight_other [simp]:
  "outbound_flight (s\<lparr>br_pi := pi\<rparr>) = outbound_flight s" "outbound_flight (s\<lparr>br_joltSent := x\<rparr>) = outbound_flight s"
  "outbound_flight (s\<lparr>br_pubSent := y\<rparr>) = outbound_flight s"
  by (simp_all add: outbound_flight_def)

lemma inbound_flight_taken:
  assumes "on_inbound e env s = Done s'"
  shows "inbound_flight s' + inbound_left e s (TakeInbound env) = inbound_flight s \<and> outbound_flight s' = outbound_flight s"
  using assms
proof (rule on_inbound_frame)
  fix item c s1 sent
  assume c: "InboundReqChan (br_pi s) = item # c"
    and s1: "s1 = s\<lparr>br_pi := (br_pi s)\<lparr>InboundReqChan := c\<rparr>, br_joltSent := sent\<rparr>"
    and s': "if signs env s then s' = s1\<lparr>br_pi := pub_AddItem e item (br_pi s1)\<rparr>
         \<or> (\<exists>index. s' = s1\<lparr>br_checks := br_checks s1 @ [MintCheck item index]\<rparr>)
       else s' = s1"
  have "inbound_flight s = inbound_flight s1 + {#in_id item#}" "outbound_flight s1 = outbound_flight s"
    using c by (simp_all add: s1 inbound_flight_def outbound_flight_def backing_def pub_retry_bag_def in_id_def)
  moreover have "inbound_flight (s1\<lparr>br_pi := pub_AddItem e item (br_pi s1)\<rparr>) = inbound_flight s1 + {#in_id item#}"
    by (simp add: inbound_flight_def backing_def pub_AddItem_def pub_retry_bag_def in_id_def)
  moreover have "inbound_flight (s1\<lparr>br_checks := br_checks s1 @ [MintCheck item index]\<rparr>) = inbound_flight s1 + {#in_id item#}"
    "outbound_flight (s1\<lparr>br_checks := br_checks s1 @ [MintCheck item index]\<rparr>) = outbound_flight s1" for index
    by (simp_all add: inbound_flight_def outbound_flight_def map_filter_snoc)
  ultimately show ?thesis using s' c by (auto split: if_splits)
qed

lemma outbound_flight_taken:
  assumes "on_outbound e env senv s = Done s'"
  shows "outbound_flight s' + outbound_left e s (TakeOutbound env senv) = outbound_flight s \<and> inbound_flight s' = inbound_flight s"
  using assms
proof (rule on_outbound_frame)
  fix item c s1 sent
  assume c: "OutboundReqChan (br_jc s) = item # c"
    and s1: "s1 = s\<lparr>br_jc := (br_jc s)\<lparr>OutboundReqChan := c\<rparr>, br_pubSent := sent\<rparr>"
    and s': "if signs env s then s' = s1\<lparr>br_jc := jolt_AddItem e item (br_jc s1)\<rparr>
         \<or> (\<exists>hash. s' = s1\<lparr>br_checks := br_checks s1 @ [SendCheck item hash]\<rparr>)
       else s' = s1"
  have "outbound_flight s = outbound_flight s1 + {#out_id item#}" "inbound_flight s1 = inbound_flight s"
    using c by (simp_all add: s1 inbound_flight_def outbound_flight_def jolt_retry_bag_def)
  moreover have "outbound_flight (s1\<lparr>br_jc := jolt_AddItem e item (br_jc s1)\<rparr>) = outbound_flight s1 + {#out_id item#}"
    by (simp add: outbound_flight_def jolt_AddItem_def jolt_retry_bag_def)
  moreover have "outbound_flight (s1\<lparr>br_checks := br_checks s1 @ [SendCheck item hash]\<rparr>) = outbound_flight s1 + {#out_id item#}"
    "inbound_flight (s1\<lparr>br_checks := br_checks s1 @ [SendCheck item hash]\<rparr>) = inbound_flight s1" for hash
    by (simp_all add: inbound_flight_def outbound_flight_def map_filter_snoc)
  ultimately show ?thesis using s' c by (auto split: if_splits)
qed

lemma flight_mint_checked:
  assumes "on_mint_checked e n Retry clients s = Done s'"
  shows "inbound_flight s' + inbound_left e s (MintChecked n Retry clients) = inbound_flight s \<and> outbound_flight s' = outbound_flight s"
  using assms
proof (rule on_mint_checked_frame)
  fix item index
  assume n: "n < length (br_checks s)" "br_checks s ! n = MintCheck item index"
    and s': "s' = (if jolt_CheckTxStatus Retry clients index = None then drop_check n s
         else (drop_check n s)\<lparr>br_pi := pub_AddItem e item (br_pi s)\<rparr>)"
  show ?thesis
    using map_filter_drop [OF n(1), of mint_of] map_filter_drop [OF n(1), of send_of] n(2)
    by (simp add: s' inbound_flight_def outbound_flight_def backing_def pub_retry_bag_def pub_AddItem_def drop_check_def in_id_def)
qed

lemma flight_send_checked:
  assumes "on_send_checked e n Retry envs s = Done s'"
  shows "inbound_flight s' = inbound_flight s \<and> outbound_flight s' + outbound_left e s (SendChecked n Retry envs) = outbound_flight s"
  using assms
proof (rule on_send_checked_frame)
  fix item hash
  assume n: "n < length (br_checks s)" "br_checks s ! n = SendCheck item hash"
    and s': "s' = (if pub_CheckTxStatus e Retry envs hash = Some ''tx failed''
         then (drop_check n s)\<lparr>br_jc := jolt_AddItem e item (br_jc s)\<rparr> else drop_check n s)"
  show ?thesis
    using map_filter_drop [OF n(1), of mint_of] map_filter_drop [OF n(1), of send_of] n(2)
    by (simp add: s' inbound_flight_def outbound_flight_def jolt_retry_bag_def jolt_AddItem_def drop_check_def)
qed

lemma outbound_flight_tx:
  assumes "sdk_ok M e" and "on_jolt_tx e env code h tx s = Done s'"
  shows "outbound_flight s' = outbound_flight s + outbound_gain e s (JoltTx env code h tx) \<and> inbound_flight s' = inbound_flight s"
proof (cases "code = 0")
  case False
  then show ?thesis using assms(2) by (simp add: on_jolt_tx_def)
next
  case True
  then have "s' = s\<lparr>br_jc := fold (jolt_AddItem e) (tx_claims e env h tx (br_jc s)) (br_jc s)\<rparr>"
    using assms(2) by (auto simp: on_jolt_tx_def exec_bind_eq_Done_iff dest!: CheckOutBoundTx_claims [OF assms(1)])
  then show ?thesis using True
    by (simp add: outbound_flight_def jolt_retry_bag_def jolt_fold_add multiset.map_comp o_def ac_simps)
qed

lemma flight_pub_block:
  assumes "sdk_ok M e" and inv: "bridge_inv e s" and ok: "event_ok (PubBlock penv senv env n block)"
    and run: "on_pub_block e penv senv env n block s = Done s'"
  defines "ev \<equiv> PubBlock penv senv env n block"
  shows "inbound_flight s' + inbound_left e s ev \<subseteq># inbound_flight s + inbound_gain e s ev
    \<and> (fresh_event e s ev \<longrightarrow> inbound_flight s' + inbound_left e s ev = inbound_flight s + inbound_gain e s ev)
    \<and> outbound_flight s' = outbound_flight s"
proof -
  let ?gain = "case block of Inl _ \<Rightarrow> {#} | Inr b \<Rightarrow> mset (List.map_filter (valid_transfer e penv (br_pi s)) (Transactions b))"
  have g: "inbound_gain e s ev = ?gain" "inbound_left e s ev = block_expired e penv n block (br_pi s)"
    "fresh_event e s ev \<longleftrightarrow> (case block of Inl _ \<Rightarrow> True | Inr b \<Rightarrow> fresh_transfers e penv (br_pi s) (Transactions b))"
    by (cases block; simp add: ev_def)+
  have "pub_inv e (br_pi s)" using inv by (simp add: bridge_inv_def)
  from assms(1) this ok run show ?thesis
  proof (rule pub_block_state)
    fix pi2
    assume tail: "exec_bind (retry_outbound (of_nat n) (s\<lparr>br_pi := pi2\<rparr>)) (move_pub_funds e senv env (of_nat n)) = Done s'"
      and b: "backing pi2 + block_expired e penv n block (br_pi s) \<subseteq># backing (br_pi s) + ?gain"
      and x: "(case block of Inl _ \<Rightarrow> True | Inr b \<Rightarrow> fresh_transfers e penv (br_pi s) (Transactions b)) \<Longrightarrow>
        backing pi2 + block_expired e penv n block (br_pi s) = backing (br_pi s) + ?gain"
    have f: "inbound_flight (s\<lparr>br_pi := pi2\<rparr>) = backing pi2 + mset (List.map_filter mint_of (br_checks s))"
      by (simp add: inbound_flight_def)
    have "inbound_flight (s\<lparr>br_pi := pi2\<rparr>) + inbound_left e s ev \<subseteq># inbound_flight s + inbound_gain e s ev"
      using b unfolding f g inbound_flight_def by (simp add: ac_simps)
    moreover have "inbound_flight (s\<lparr>br_pi := pi2\<rparr>) + inbound_left e s ev = inbound_flight s + inbound_gain e s ev"
      if "fresh_event e s ev"
      using x that unfolding f g inbound_flight_def by (simp add: ac_simps)
    ultimately show ?thesis
      using in_rel.pub_block_tail_R [OF tail] out_rel.pub_block_tail_R [OF tail] by simp
  qed
qed

definition ledger_ok :: "ext \<Rightarrow> bridge \<Rightarrow> bool" where
  "ledger_ok e s \<longleftrightarrow> (\<exists>M. sdk_ok M e) \<and> bridge_inv e s"

text \<open>What one step does to both ledgers.\<close>

lemma flight_exact:
  assumes "ledger_ok e s" and "event_ok ev" and "handle e ev s = Done s'"
  shows "inbound_flight s' + inbound_left e s ev \<subseteq># inbound_flight s + inbound_gain e s ev
    \<and> (fresh_event e s ev \<longrightarrow> inbound_flight s' + inbound_left e s ev = inbound_flight s + inbound_gain e s ev)
    \<and> outbound_flight s' + outbound_left e s ev = outbound_flight s + outbound_gain e s ev"
proof -
  obtain M where ok: "sdk_ok M e" "bridge_inv e s" using assms(1) by (auto simp: ledger_ok_def)
  show ?thesis
  proof (cases ev)
    case (ValidatorUpdate env updates)
    then have run: "on_validators e env updates s = Done s'" using assms(3) by simp
    show ?thesis using in_rel.on_validators_R [OF run] out_rel.on_validators_R [OF run] by (simp add: ValidatorUpdate)
  next
    case (JoltBlock env height)
    then have run: "on_jolt_block e env height s = Done s'" using assms(3) by simp
    show ?thesis using in_rel.on_jolt_block_R [OF run] out_rel.on_jolt_block_R [OF run] by (simp add: JoltBlock)
  next
    case (JoltTx env code height tx)
    then have run: "on_jolt_tx e env code height tx s = Done s'" using assms(3) by simp
    show ?thesis using outbound_flight_tx [OF ok(1) run] by (simp add: JoltTx)
  next
    case (PubBlock penv senv jenv number block)
    then have run: "on_pub_block e penv senv jenv number block s = Done s'" using assms(3) by simp
    show ?thesis using flight_pub_block [OF ok assms(2) [unfolded PubBlock] run] by (simp add: PubBlock)
  next
    case (TakeInbound env)
    then have run: "on_inbound e env s = Done s'" using assms(3) by simp
    show ?thesis using inbound_flight_taken [OF run] by (simp add: TakeInbound)
  next
    case (TakeOutbound env senv)
    then have run: "on_outbound e env senv s = Done s'" using assms(3) by simp
    show ?thesis using outbound_flight_taken [OF run] by (simp add: TakeOutbound)
  next
    case (MintChecked n Retry clients)
    then have run: "on_mint_checked e n Retry clients s = Done s'" using assms(3) by simp
    show ?thesis using flight_mint_checked [OF run] by (simp add: MintChecked)
  next
    case (SendChecked n Retry envs)
    then have run: "on_send_checked e n Retry envs s = Done s'" using assms(3) by simp
    show ?thesis using flight_send_checked [OF run] by (simp add: SendChecked)
  qed
qed

lemma ledger_ok_step: "ledger_ok e s \<Longrightarrow> event_ok ev \<Longrightarrow> handle e ev s = Done s' \<Longrightarrow> ledger_ok e s'"
  using handle_inv by (auto simp: ledger_ok_def)

interpretation in_ledger: exact_ledger e "ledger_ok e" inbound_flight "inbound_gain e" "inbound_left e" "fresh_event e" for e
  using flight_exact ledger_ok_step by unfold_locales blast+

interpretation out_ledger: exact_ledger e "ledger_ok e" outbound_flight "outbound_gain e" "outbound_left e" "\<lambda>_ _. True" for e
proof unfold_locales
  fix s ev s'
  assume a: "ledger_ok e s" "event_ok ev" "handle e ev s = Done s'"
  show "outbound_flight s' + outbound_left e s ev = outbound_flight s + outbound_gain e s ev"
    using flight_exact [OF a] by blast
  then show "outbound_flight s' + outbound_left e s ev \<subseteq># outbound_flight s + outbound_gain e s ev" by simp
qed (rule ledger_ok_step)

lemma initial_bridge_inv:
  assumes "main e env NewMultiaddr args = Runs s wg"
  shows "bridge_inv e s" and "inbound_flight s = {#}" and "outbound_flight s = {#}"
proof -
  from assms obtain addr i vs metric where
    s: "s = initial_bridge addr (NewJoltifyBridge\<lparr>myValidatorInfo := i, validatorSet := Some vs\<rparr>) metric"
    by (rule main_Runs)
  show "bridge_inv e s"
    by (simp add: s bridge_inv_def initial_bridge_def NewChainInstance_def NewJoltifyBridge_def pub_inv_def pending_ok_def
        queued_ok_def pub_retry_ok_def jolt_queues_ok_def jolt_retry_ok_def pools_ok_def busy_def)
  show "inbound_flight s = {#}" "outbound_flight s = {#}"
    by (simp_all add: s initial_bridge_def NewChainInstance_def NewJoltifyBridge_def inbound_flight_def
        outbound_flight_def backing_def pub_retry_bag_def jolt_retry_bag_def map_filter_simps)
qed

section \<open>Every run of the bridge\<close>

lemma pool_entryE:
  assumes "pool_entry e v = Some p"
  obtains cp where "CreatePool v = Some cp" and "PoolPubKeyToJoltAddress e (PoolPubKey cp) = Inr (JoltifyAddress p)"
    and "PoolPubKeyToEthAddress e (PoolPubKey cp) = Inr (EthAddress p)" and "Pk p = PoolPubKey cp" and "VaultInfo p = Some v"
proof (cases "CreatePool v")
  case None
  then show thesis using assms by (simp add: pool_entry_def)
next
  case (Some cp)
  then show thesis using assms that
    by (cases "PoolPubKeyToJoltAddress e (PoolPubKey cp)"; cases "PoolPubKeyToEthAddress e (PoolPubKey cp)")
      (auto simp: pool_entry_def)
qed

lemma known_pool_signer:
  assumes "known_pool e p"
  shows "\<exists>r. CheckWhetherSigner env (VaultInfo p) = Done r"
proof -
  from assms obtain v where "pool_entry e v = Some p" by (auto simp: known_pool_def)
  then obtain cp where "CreatePool v = Some cp" "VaultInfo p = Some v" by (rule pool_entryE)
  then show ?thesis by (cases "KeyringKey env") (simp_all add: CheckWhetherSigner_def)
qed

text \<open>
  C4: the invariant of the event loop. In every state that a run of the loop reaches once \<open>main\<close> has started it, under
  any order of events and any answers of the chains: both chains' pool caches hold the same
  pools; the pending transfers, the retry pools and the channels are well-formed and carry
  the right denominations; every pool cached or waiting to be emptied is one the chain
  named, under its own key's addresses; and while a request is queued the latest pool is
  known, so finding out whether this node signs for it does not dereference nil.
\<close>

theorem bridge_run_inv:
  assumes "sdk_ok M e" and "main e env NewMultiaddr args = Runs s0 wg" and "bridge_run e s0 tr s"
  shows "bridge_inv e s
    \<and> (InboundReqChan (br_pi s) \<noteq> [] \<or> OutboundReqChan (br_jc s) \<noteq> [] \<longrightarrow>
        (\<exists>p. snd (jolt_lastTwoPools (br_jc s)) = Some p \<and> (\<forall>env. \<exists>r. CheckWhetherSigner env (VaultInfo p) = Done r)))"
proof -
  have "ledger_ok e s0"
    using assms(1) initial_bridge_inv(1) [OF assms(2)] by (auto simp: ledger_ok_def)
  then have inv: "bridge_inv e s" using in_ledger.run_ok [OF assms(3)] by (simp add: ledger_ok_def)
  moreover have "\<exists>p. snd (jolt_lastTwoPools (br_jc s)) = Some p \<and> known_pool e p" if "busy s"
    using inv that by (auto simp: bridge_inv_def pools_ok_def)
  ultimately show ?thesis using known_pool_signer by (metis busy_def)
qed

text \<open>
  C1: over a whole run no mint is invented, doubled or lost. From any good state, whatever
  order blocks, retries, mints and status checks come in, the requests that wait, are
  queued, are to be retried or are being checked, together with all that have left, are at
  most those of the beginning and one for each call of the token contract in the handled
  public blocks that passes for a transfer to a pool (\<open>valid_transfer\<close>). They are exactly
  those when the transfers of each block are new and differ from each other. A request
  leaves only when it expires without a fee, when it is taken by a node that does not sign
  or cannot look up its key, or when its mint is found.
\<close>

theorem bridge_no_mint:
  assumes "sdk_ok M e" and "bridge_inv e s" and "bridge_run e s tr s'"
  shows "inbound_flight s' + (\<Sum>(t, ev) \<leftarrow> tr. inbound_left e t ev)
      \<subseteq># inbound_flight s + (\<Sum>(t, ev) \<leftarrow> tr. inbound_gain e t ev)
    \<and> ((\<forall>(t, ev) \<in> set tr. fresh_event e t ev) \<longrightarrow>
      inbound_flight s' + (\<Sum>(t, ev) \<leftarrow> tr. inbound_left e t ev)
      = inbound_flight s + (\<Sum>(t, ev) \<leftarrow> tr. inbound_gain e t ev))"
  using in_ledger.run_bag [OF assms(3)] in_ledger.run_exact [OF assms(3)] assms(1,2) by (auto simp: ledger_ok_def)

text \<open>
  C5: over a whole run no payout is invented, doubled or lost. The outbound requests in flight
  at the end and those that have left are exactly those of the beginning and one for each
  payable message of the successful Joltify transactions that were handled, with its own
  receiver and amount. A payout leaves only when it is taken by a node that does not sign
  or cannot look up its key, or when the polling of its transaction ends in anything but
  \<open>tx failed\<close>.
\<close>

theorem bridge_no_payout:
  assumes "sdk_ok M e" and "bridge_inv e s" and "bridge_run e s tr s'"
  shows "outbound_flight s' + (\<Sum>(t, ev) \<leftarrow> tr. outbound_left e t ev)
    = outbound_flight s + (\<Sum>(t, ev) \<leftarrow> tr. outbound_gain e t ev)"
  using out_ledger.run_exact [OF assms(3)] assms(1,2) by (auto simp: ledger_ok_def)

section \<open>A run for the witnesses\<close>

definition sample_vault :: "string \<Rightarrow> VaultPool" where
  "sample_vault pk = \<lparr>vp_BlockHeight = ''1'', CreatePool = Some \<lparr>PoolPubKey = pk, PoolAddr = [1], Nodes = [[1]]\<rparr>\<rparr>"

definition sample_cached :: "string \<Rightarrow> PoolInfo" where
  "sample_cached pk = \<lparr>Pk = pk, JoltifyAddress = map of_char pk, EthAddress = map of_char pk,
     VaultInfo = Some (sample_vault pk)\<rparr>"

lemma sample_entry: "pk \<noteq> [] \<Longrightarrow> pool_entry sample_ext (sample_vault pk) = Some (sample_cached pk)"
  by (simp del: hex_EncodeToString.simps hex_DecodeString.simps
      add: pool_entry_def sample_vault_def sample_cached_def PoolPubKeyToJoltAddress_def PoolPubKeyToEthAddress_def
        sample_ext_def hex.dec_enc)

definition sample_jenv_pools :: "VaultPool option list \<Rightarrow> jolt_env" where
  "sample_jenv_pools ps = sample_jenv\<lparr>je_grpc := sample_grpc\<lparr>rpc_GetLastPool := Inr ps\<rparr>\<rparr>"

lemma sample_pools_answer: "QueryLastPoolAddress (je_grpc (sample_jenv_pools ps)) = Inr ps"
  by (simp add: sample_jenv_pools_def QueryLastPoolAddress_def queryLastValidatorSet_def)

definition sample_fill :: bridge_event where
  "sample_fill = JoltBlock (sample_jenv_pools [Some (sample_vault ''k''), Some (sample_vault ''j'')]) 1"

definition sample_filled :: bridge where
  "sample_filled = upd_both sample_ext (sample_vault ''j'') (upd_both sample_ext (sample_vault ''k'')
     ((initial_bridge ''0x07'' sample_started sample_metric)\<lparr>br_jc := sample_started\<lparr>jolt_CurrentHeight := 1\<rparr>\<rparr>))"

lemma upd_both_run:
  assumes "CreatePool v \<noteq> None"
  shows "exec_bind (pub_UpdatePool e (Some v) (br_pi s)) (\<lambda>(_, pi1).
       exec_bind (jolt_UpdatePool e (Some v) (br_jc s)) (\<lambda>(_, jc1). Done (s\<lparr>br_pi := pi1, br_jc := jc1\<rparr>))) = Done (upd_both e v s)"
  using pub_UpdatePool_done [OF assms, of e "br_pi s"] jolt_UpdatePool_done [OF assms, of e "br_jc s"]
  by (auto simp: upd_both_def)

lemma fill_pools_run:
  "\<forall>v \<in> set vs. CreatePool v \<noteq> None \<Longrightarrow> fill_pools e (map Some vs) s = Done (fold (upd_both e) vs s)"
proof (induction vs arbitrary: s)
  case (Cons v vs)
  then have v: "CreatePool v \<noteq> None" by simp
  have "fill_pools e (map Some (v # vs)) s = exec_bind (exec_bind (pub_UpdatePool e (Some v) (br_pi s)) (\<lambda>(_, pi1).
       exec_bind (jolt_UpdatePool e (Some v) (br_jc s)) (\<lambda>(_, jc1). Done (s\<lparr>br_pi := pi1, br_jc := jc1\<rparr>))))
       (fill_pools e (map Some vs))"
    by (simp add: fill_pools_def)
  then show ?case using Cons by (simp only: upd_both_run [OF v]) simp
qed (simp add: fill_pools_def)

lemma sample_fill_run: "handle sample_ext sample_fill (initial_bridge ''0x07'' sample_started sample_metric) = Done sample_filled"
proof -
  let ?s = "(initial_bridge ''0x07'' sample_started sample_metric)\<lparr>br_jc := sample_started\<lparr>jolt_CurrentHeight := 1\<rparr>\<rparr>"
  have up: "CheckAndUpdatePool sample_ext env 1 sample_started [] = Done ((False, []), sample_started, [])" for env
    by (simp add: CheckAndUpdatePool_def sample_started_def NewJoltifyBridge_def)
  have re: "retry_inbound 1 ?s = Done ?s"
    by (simp add: retry_inbound_def pub_PopItem_def initial_bridge_def NewChainInstance_def scan_max_def
        UpdateInboundTxNum_def pub_Size_def sample_metric_def NewMetric_def metric_Enable_def)
  have "fill_pools sample_ext (map Some [sample_vault ''k'', sample_vault ''j'']) ?s = Done sample_filled"
    by (subst fill_pools_run) (simp_all add: sample_filled_def sample_vault_def)
  moreover have "pub_GetPool (br_pi ?s) ! 0 = None"
    by (simp add: initial_bridge_def NewChainInstance_def pub_GetPool_def)
  ultimately show ?thesis
    using up re by (simp add: sample_fill_def on_jolt_block_def initial_bridge_def sample_pools_answer)
qed

lemma sample_run: "bridge_run sample_ext (initial_bridge ''0x07'' sample_started sample_metric)
    [(initial_bridge ''0x07'' sample_started sample_metric, sample_fill)] sample_filled"
  using bridge_run.step [OF bridge_run.start _ sample_fill_run] by (simp add: sample_fill_def)

theorem bridge_run_inv_witness: "bridge_inv sample_ext sample_filled"
  using bridge_run_inv [OF sample_ext_ok sample_main sample_run] by blast

text \<open>One request in each queue, and a keyring that cannot be read.\<close>

definition sample_payout :: OutBoundReq where
  "sample_payout = \<lparr>or_txID = ''x'', or_outReceiverAddress = [1], or_fromPoolAddr = [2],
     or_coin = \<lparr>Denom = ''JUSD'', Amount = 7\<rparr>, or_blockHeight = 3\<rparr>"

definition sample_queue :: bridge where
  "sample_queue = sample_filled\<lparr>br_pi := (br_pi sample_filled)\<lparr>InboundReqChan := [sample_mint]\<rparr>,
     br_jc := (br_jc sample_filled)\<lparr>OutboundReqChan := [sample_payout]\<rparr>\<rparr>"

definition sample_locked :: jolt_env where
  "sample_locked = sample_jenv\<lparr>KeyringKey := Inl ''locked''\<rparr>"

lemma sample_filled_latest: "snd (pub_lastTwoPools (br_pi sample_filled)) = Some (sample_cached ''j'')"
  by (simp add: sample_filled_def upd_both_def pub_upd_eq next_pools_def sample_entry)

lemma sample_filled_inv: "bridge_inv sample_ext sample_filled"
  using handle_inv [OF sample_ext_ok initial_bridge_inv(1) [OF sample_main] _ sample_fill_run] by (simp add: sample_fill_def)

lemma sample_queue_inv: "bridge_inv sample_ext sample_queue"
  using sample_filled_inv
  by (simp add: bridge_inv_def sample_queue_def sample_filled_latest pub_inv_def queued_ok_def pub_retry_ok_def
      jolt_queues_ok_def jolt_retry_ok_def sample_mint_def sample_payout_def InBoundDenom_def OutBoundDenom_def reqCacheSize_def)

lemma sample_queue_latest:
  "jolt_GetPool (br_jc sample_queue) ! Suc 0 = Some (sample_cached ''j'')" "\<not> signs sample_locked sample_queue"
proof -
  have "snd (jolt_lastTwoPools (br_jc sample_queue)) = Some (sample_cached ''j'')"
    using sample_filled_inv sample_filled_latest by (simp add: bridge_inv_def sample_queue_def)
  then show "jolt_GetPool (br_jc sample_queue) ! Suc 0 = Some (sample_cached ''j'')" "\<not> signs sample_locked sample_queue"
    by (simp_all add: jolt_GetPool_def signs_def CheckWhetherSigner_def sample_locked_def)
qed

lemma sample_take:
  obtains s' where "bridge_run sample_ext sample_queue [(sample_queue, TakeInbound sample_locked)] s'"
proof -
  obtain s' where s': "handle sample_ext (TakeInbound sample_locked) sample_queue = Done s'"
    using sample_queue_latest(1)
    by (auto simp: on_inbound_def sample_queue_def CheckWhetherSigner_def sample_locked_def)
  from bridge_run.step [OF bridge_run.start _ this] that show thesis by simp
qed

lemma sample_pay:
  obtains s' where "bridge_run sample_ext sample_queue [(sample_queue, TakeOutbound sample_locked sample_node)] s'"
proof -
  obtain s' where s': "handle sample_ext (TakeOutbound sample_locked sample_node) sample_queue = Done s'"
    using sample_queue_latest(1)
    by (auto simp: on_outbound_def sample_queue_def CheckWhetherSigner_def sample_locked_def jolt_GetPool_def)
  from bridge_run.step [OF bridge_run.start _ this] that show thesis by simp
qed

theorem bridge_no_mint_witness:
  "\<exists>s'. bridge_run sample_ext sample_queue [(sample_queue, TakeInbound sample_locked)] s'
    \<and> inbound_flight s' + {#in_id sample_mint#} = inbound_flight sample_queue"
proof -
  obtain s' where r: "bridge_run sample_ext sample_queue [(sample_queue, TakeInbound sample_locked)] s'" by (rule sample_take)
  from bridge_no_mint [OF sample_ext_ok sample_queue_inv r] r sample_queue_latest(2) show ?thesis
    by (auto simp: sample_queue_def)
qed

theorem bridge_no_payout_witness:
  "\<exists>s'. bridge_run sample_ext sample_queue [(sample_queue, TakeOutbound sample_locked sample_node)] s'
    \<and> outbound_flight s' + {#out_id sample_payout#} = outbound_flight sample_queue"
proof -
  obtain s' where r: "bridge_run sample_ext sample_queue [(sample_queue, TakeOutbound sample_locked sample_node)] s'"
    by (rule sample_pay)
  from bridge_no_payout [OF sample_ext_ok sample_queue_inv r] r sample_queue_latest(2) show ?thesis
    by (auto simp: sample_queue_def)
qed

end
