(* ===== verification/Bridge_Agreement.thy ===== *)
theory Bridge_Agreement
  imports Pub_Book Bridge_Loop_Correct
begin

text \<open>
  The event loop against the book of the public chain. What a node has read of both chains,
  block by block, decides what waits at it, which pools it knows and what it has come to owe
  (\<open>bridge_refines_book\<close>), so two nodes that read the same in the same order agree
  (\<open>nodes_agree\<close>). The order between a change of the pools and a public block matters
  (\<open>rotation_race\<close>).
\<close>

section \<open>What a node reads\<close>

text \<open>
  Of an event of the public chain a node reads the block, if it got it, and the receipts; of
  a block of the Joltify chain the two pools, if it was told them. The other events tell it
  nothing about either.
\<close>

datatype reading = ReadBlock pub_env nat "EthBlock option" | ReadPools "VaultPool option list"

fun reading_of :: "bridge_event \<Rightarrow> reading option" where
  "reading_of (PubBlock penv senv env n block) = Some (ReadBlock penv n (case block of Inl _ \<Rightarrow> None | Inr b \<Rightarrow> Some b))"
| "reading_of (JoltBlock env h) = (case QueryLastPoolAddress (je_grpc env) of Inl _ \<Rightarrow> None | Inr vs \<Rightarrow> Some (ReadPools vs))"
| "reading_of _ = None"

definition readings :: "(bridge \<times> bridge_event) list \<Rightarrow> reading list" where
  "readings tr = List.map_filter (\<lambda>(s, ev). reading_of ev) tr"

section \<open>The abstract node\<close>

text \<open>An abstract node is a book and the two pools.\<close>

type_synonym view = "book \<times> pool_pair"

definition next_pool_answer :: "ext \<Rightarrow> VaultPool option \<Rightarrow> pool_pair \<Rightarrow> pool_pair" where
  "next_pool_answer e v ps = (case v of None \<Rightarrow> ps | Some w \<Rightarrow> next_pools e w ps)"

definition pools_after :: "ext \<Rightarrow> VaultPool option list \<Rightarrow> pool_pair \<Rightarrow> pool_pair" where
  "pools_after e vs ps =
     (if length vs \<noteq> 2 then ps
      else if fst ps = None then fold (next_pool_answer e) vs ps
      else if NeedUpdate e vs [fst ps, snd ps] then next_pool_answer e (vs ! 0) ps
      else ps)"

definition node_of :: "string \<Rightarrow> pool_pair \<Rightarrow> PubChainInstance" where
  "node_of token ps = (NewChainInstance token)\<lparr>pub_lastTwoPools := ps\<rparr>"

fun view_step :: "ext \<Rightarrow> string \<Rightarrow> reading \<Rightarrow> view \<Rightarrow> view" where
  "view_step e token (ReadBlock penv n block) (b, ps) =
     (book_expire (of_nat n) (case block of None \<Rightarrow> b
        | Some blk \<Rightarrow> book_steps (NumberU64 blk) (block_actions e penv (node_of token ps) blk) b), ps)"
| "view_step e token (ReadPools vs) (b, ps) = (b, pools_after e vs ps)"

text \<open>How a node of the code is an abstract one; what it owes already is not counted.\<close>

definition view_of :: "bridge \<Rightarrow> view" where
  "view_of s = ((book_of (br_pi s))\<lparr>owed := {#}\<rparr>, pub_lastTwoPools (br_pi s))"

lemma view_step_owing:
  "view_step e token x (owing m b, ps) = (owing m (fst (view_step e token x (b, ps))), snd (view_step e token x (b, ps)))"
  by (cases x) (auto simp: book_steps_owing book_expire_owing split: option.splits)

lemma view_steps_owing:
  "fold (view_step e token) xs (owing m b, ps) =
    (owing m (fst (fold (view_step e token) xs (b, ps))), snd (fold (view_step e token) xs (b, ps)))"
proof (induction xs arbitrary: b ps)
  case (Cons x xs)
  obtain b1 ps1 where "view_step e token x (b, ps) = (b1, ps1)" by (cases "view_step e token x (b, ps)")
  then show ?case using Cons [of b1 ps1] by (simp add: view_step_owing)
qed simp

section \<open>The mint requests in flight\<close>

fun mint_check :: "status_check \<Rightarrow> (acc_address \<times> int \<times> bytes) option" where
  "mint_check (MintCheck item index) = Some (mint_id item)"
| "mint_check (SendCheck item hash) = None"

definition mint_flight :: "bridge \<Rightarrow> (acc_address \<times> int \<times> bytes) multiset" where
  "mint_flight s = queued (br_pi s) + mset (List.map_filter mint_check (br_checks s))"

fun mint_left :: "bridge \<Rightarrow> bridge_event \<Rightarrow> (acc_address \<times> int \<times> bytes) multiset" where
  "mint_left s (TakeInbound env) = (if signs env s then {#} else mset (map mint_id (take 1 (InboundReqChan (br_pi s)))))"
| "mint_left s (MintChecked n Retry clients) =
     (case br_checks s ! n of
        MintCheck item index \<Rightarrow> if jolt_CheckTxStatus Retry clients index = None then {#mint_id item#} else {#}
      | SendCheck item hash \<Rightarrow> {#})"
| "mint_left s _ = {#}"

text \<open>What the parts of the handlers that do not read a public block leave alone.\<close>

definition same_book :: "bridge \<Rightarrow> bridge \<Rightarrow> bool" where
  "same_book s s' \<longleftrightarrow> pendingInbounds (br_pi s') = pendingInbounds (br_pi s)
     \<and> pendingInboundsBnB (br_pi s') = pendingInboundsBnB (br_pi s)
     \<and> tokenAddr (br_pi s') = tokenAddr (br_pi s)"

lemma same_bookD:
  "same_book s s' \<Longrightarrow> (book_of (br_pi s'))\<lparr>owed := m\<rparr> = (book_of (br_pi s))\<lparr>owed := m\<rparr>"
  by (simp add: same_book_def book_of_def)

lemma queued_other [simp]:
  "queued (pi\<lparr>pub_lastTwoPools := ps\<rparr>) = queued pi" "queued (pi\<lparr>pub_moveFundReq := m\<rparr>) = queued pi"
  by (simp_all add: queued_def pub_retry_bag_def)

interpretation book_rel: loop_relation e "\<lambda>s s'. same_book s s' \<and> mint_flight s' = mint_flight s" for e
proof unfold_locales
  fix s :: bridge and k and item :: InboundReq and rest h
  assume "mset (RetryInboundReq (br_pi s)) = add_mset (k, item) (mset rest)"
  then show "same_book s (s\<lparr>br_pi := (br_pi s)\<lparr>RetryInboundReq := rest,
             InboundReqChan := InboundReqChan (br_pi s) @ [inbound_SetItemHeight h item]\<rparr>\<rparr>)
    \<and> mint_flight (s\<lparr>br_pi := (br_pi s)\<lparr>RetryInboundReq := rest,
             InboundReqChan := InboundReqChan (br_pi s) @ [inbound_SetItemHeight h item]\<rparr>\<rparr>) = mint_flight s"
    by (simp add: same_book_def mint_flight_def queued_def pub_retry_bag_def mint_id_def inbound_SetItemHeight_def)
qed (auto simp: same_book_def mint_flight_def upd_both_def pub_upd_eq pub_AddMoveFundItem_def)

lemma mint_flight_taken:
  assumes "on_inbound e env s = Done s'"
  shows "mint_flight s' + mint_left s (TakeInbound env) = mint_flight s \<and> same_book s s'
    \<and> pub_lastTwoPools (br_pi s') = pub_lastTwoPools (br_pi s)"
  using assms
proof (rule on_inbound_frame)
  fix item c s1 sent
  assume c: "InboundReqChan (br_pi s) = item # c"
    and s1: "s1 = s\<lparr>br_pi := (br_pi s)\<lparr>InboundReqChan := c\<rparr>, br_joltSent := sent\<rparr>"
    and s': "if signs env s then s' = s1\<lparr>br_pi := pub_AddItem e item (br_pi s1)\<rparr>
         \<or> (\<exists>index. s' = s1\<lparr>br_checks := br_checks s1 @ [MintCheck item index]\<rparr>)
       else s' = s1"
  have "mint_flight s = add_mset (mint_id item) (mint_flight s1)"
    using c by (simp add: s1 mint_flight_def queued_def pub_retry_bag_def)
  moreover have "mint_flight (s1\<lparr>br_pi := pub_AddItem e item (br_pi s1)\<rparr>) = add_mset (mint_id item) (mint_flight s1)"
    by (simp add: mint_flight_def)
  moreover have "mint_flight (s1\<lparr>br_checks := br_checks s1 @ [MintCheck item index]\<rparr>) = add_mset (mint_id item) (mint_flight s1)" for index
    by (simp add: mint_flight_def map_filter_snoc)
  ultimately have f: "mint_flight s' + mint_left s (TakeInbound env) = mint_flight s"
    using s' c by (auto split: if_splits)
  show ?thesis using f s' by (auto simp: s1 same_book_def pub_AddItem_def split: if_splits)
qed

lemma mint_flight_checked:
  assumes "on_mint_checked e n Retry clients s = Done s'"
  shows "mint_flight s' + mint_left s (MintChecked n Retry clients) = mint_flight s \<and> same_book s s'
    \<and> pub_lastTwoPools (br_pi s') = pub_lastTwoPools (br_pi s)"
  using assms
proof (rule on_mint_checked_frame)
  fix item index
  assume n: "n < length (br_checks s)" "br_checks s ! n = MintCheck item index"
    and s': "s' = (if jolt_CheckTxStatus Retry clients index = None then drop_check n s
         else (drop_check n s)\<lparr>br_pi := pub_AddItem e item (br_pi s)\<rparr>)"
  have f: "mint_flight s' + mint_left s (MintChecked n Retry clients) = mint_flight s"
    using map_filter_drop [OF n(1), of mint_check] n(2) by (simp add: s' mint_flight_def drop_check_def)
  show ?thesis using f by (simp add: s' same_book_def pub_AddItem_def drop_check_def)
qed

text \<open>The handlers of the outbound side.\<close>

lemma outbound_same:
  "on_jolt_tx e penv code h tx s = Done s' \<Longrightarrow> br_pi s' = br_pi s \<and> br_checks s' = br_checks s"
  "on_outbound e env senv s = Done s' \<Longrightarrow> br_pi s' = br_pi s \<and> mset (List.map_filter mint_check (br_checks s')) = mset (List.map_filter mint_check (br_checks s))"
  "on_send_checked e n Retry envs s = Done s' \<Longrightarrow> br_pi s' = br_pi s \<and> mset (List.map_filter mint_check (br_checks s')) = mset (List.map_filter mint_check (br_checks s))"
proof -
  show "on_jolt_tx e penv code h tx s = Done s' \<Longrightarrow> br_pi s' = br_pi s \<and> br_checks s' = br_checks s"
    by (auto simp: on_jolt_tx_def exec_bind_eq_Done_iff split: if_splits)
  show "on_outbound e env senv s = Done s' \<Longrightarrow> br_pi s' = br_pi s \<and> mset (List.map_filter mint_check (br_checks s')) = mset (List.map_filter mint_check (br_checks s))"
    by (erule on_outbound_frame) (auto simp: map_filter_snoc split: if_splits)
  show "on_send_checked e n Retry envs s = Done s' \<Longrightarrow> br_pi s' = br_pi s \<and> mset (List.map_filter mint_check (br_checks s')) = mset (List.map_filter mint_check (br_checks s))"
    by (erule on_send_checked_frame) (use map_filter_drop [of n "br_checks s" mint_check] in \<open>auto simp: drop_check_def\<close>)
qed

lemma outbound_same_view:
  "br_pi s' = br_pi s \<and> mset (List.map_filter mint_check (br_checks s')) = mset (List.map_filter mint_check (br_checks s))
   \<Longrightarrow> mint_flight s' = mint_flight s \<and> same_book s s' \<and> pub_lastTwoPools (br_pi s') = pub_lastTwoPools (br_pi s)"
  by (simp add: mint_flight_def same_book_def)

section \<open>One event\<close>

text \<open>The pools after a block of the Joltify chain.\<close>

lemma fold_upd_both_pools:
  "pub_lastTwoPools (br_pi (fold (upd_both e) vs s)) = fold (next_pool_answer e) (map Some vs) (pub_lastTwoPools (br_pi s))"
  by (induction vs arbitrary: s) (simp_all add: upd_both_def pub_upd_eq next_pool_answer_def)

lemma retry_inbound_pools: "retry_inbound h s = Done s' \<Longrightarrow> pub_lastTwoPools (br_pi s') = pub_lastTwoPools (br_pi s)"
  by (erule retry_inbound_frame) simp_all

lemma refresh_pools_pools:
  assumes "refresh_pools e h ps s = Done s'"
  shows "pub_lastTwoPools (br_pi s') =
    (if NeedUpdate e ps (pub_GetPool (br_pi s)) then next_pool_answer e (ps ! 0) (pub_lastTwoPools (br_pi s))
     else pub_lastTwoPools (br_pi s))"
proof (cases "NeedUpdate e ps (pub_GetPool (br_pi s))")
  case False
  then show ?thesis using assms by (simp add: refresh_pools_def)
next
  case True
  let ?f = "\<lambda>prev pi1 jc1. exec_bind (or_panic ''nil pointer dereference'' prev) (\<lambda>previousPool.
          if Pk previousPool \<noteq> GetPoolPubKey (ps ! 0) then
            Done (s\<lparr>br_jc := jolt_AddMoveFundItem previousPool (h - MINCHECKBLOCKGAP + 5) jc1,
                    br_pi := pub_AddMoveFundItem previousPool (pub_CurrentHeight pi1 - MINCHECKBLOCKGAP + 5) pi1\<rparr>)
          else Done (s\<lparr>br_jc := jc1, br_pi := pi1\<rparr>))"
  from assms True have "exec_bind (pub_UpdatePool e (ps ! 0) (br_pi s)) (\<lambda>(_, pi1).
       exec_bind (jolt_UpdatePool e (ps ! 0) (br_jc s)) (\<lambda>(prev, jc1). ?f prev pi1 jc1)) = Done s'"
    by (simp add: refresh_pools_def)
  then obtain v cp where v: "ps ! 0 = Some v"
    and run: "?f (if pool_entry e v = None then None else fst (jolt_lastTwoPools (br_jc s)))
           (pub_upd e v (br_pi s)) (jolt_upd e v (br_jc s)) = Done s'"
    by (rule update_both_Done)
  from run have "pub_lastTwoPools (br_pi s') = pub_lastTwoPools (pub_upd e v (br_pi s))"
    by (auto simp: exec_bind_eq_Done_iff pub_AddMoveFundItem_def split: if_splits)
  then show ?thesis using True v by (simp add: next_pool_answer_def pub_upd_eq)
qed

lemma move_jolt_funds_pools: "move_jolt_funds e env h ps s = Done s' \<Longrightarrow> br_pi s' = br_pi s"
  by (auto dest!: move_jolt_funds_frame)

lemma jolt_block_pools:
  assumes "on_jolt_block e env h s = Done s'"
  shows "pub_lastTwoPools (br_pi s') = (case QueryLastPoolAddress (je_grpc env) of Inl _ \<Rightarrow> pub_lastTwoPools (br_pi s)
    | Inr vs \<Rightarrow> pools_after e vs (pub_lastTwoPools (br_pi s)))"
proof -
  obtain r jc1 sent1 where cp: "CheckAndUpdatePool e env h (br_jc s) (br_joltSent s) = Done (r, jc1, sent1)"
    using assms by (auto simp: on_jolt_block_def exec_bind_eq_Done_iff)
  let ?s1 = "s\<lparr>br_jc := jc1\<lparr>jolt_CurrentHeight := h\<rparr>, br_joltSent := sent1\<rparr>"
  show ?thesis
  proof (cases "QueryLastPoolAddress (je_grpc env)")
    case (Inl err)
    then show ?thesis using assms cp by (auto simp: on_jolt_block_def)
  next
    case (Inr vs)
    show ?thesis
    proof (cases "length vs = 2")
      case False
      then show ?thesis using assms cp Inr by (auto simp: on_jolt_block_def pools_after_def)
    next
      case True
      then obtain s2 where s2: "retry_inbound h ?s1 = Done s2"
        and rest: "(if pub_GetPool (br_pi s2) ! 0 = None then fill_pools e vs s2
             else exec_bind (refresh_pools e h vs s2) (move_jolt_funds e env h vs)) = Done s'"
        using assms cp Inr by (auto simp: on_jolt_block_def exec_bind_eq_Done_iff)
      have p2: "pub_lastTwoPools (br_pi s2) = pub_lastTwoPools (br_pi s)"
        using retry_inbound_pools [OF s2] by simp
      show ?thesis
      proof (cases "fst (pub_lastTwoPools (br_pi s)) = None")
        case none: True
        then have "fill_pools e vs s2 = Done s'" using rest p2 by (simp add: pub_GetPool_def)
        from fill_pools_frame [OF this] obtain ws where "vs = map Some ws" "s' = fold (upd_both e) ws s2" by blast
        then show ?thesis using Inr none True p2 by (simp add: pools_after_def fold_upd_both_pools)
      next
        case False
        then obtain s3 where s3: "refresh_pools e h vs s2 = Done s3" and m: "move_jolt_funds e env h vs s3 = Done s'"
          using rest p2 by (auto simp: pub_GetPool_def exec_bind_eq_Done_iff)
        show ?thesis
          using refresh_pools_pools [OF s3] move_jolt_funds_pools [OF m] p2 Inr True False
          by (auto simp: pools_after_def pub_GetPool_def)
      qed
    qed
  qed
qed

text \<open>A public block: the transactions, the clean-up, then parts that leave the book alone.\<close>

lemma block_actions_cong:
  assumes "tokenAddr pi1 = tokenAddr pi" and "pub_lastTwoPools pi1 = pub_lastTwoPools pi"
  shows "block_actions e env pi1 = block_actions e env pi"
  by (rule ext) (simp only: block_actions_def tx_actions_cong [OF assms])

lemma node_block_actions: "block_actions e env (node_of (tokenAddr pi) (pub_lastTwoPools pi)) = block_actions e env pi"
  by (rule block_actions_cong) (simp_all add: node_of_def NewChainInstance_def)

lemma pub_block_book:
  assumes "sdk_ok M e" and "hash_ok e" and "pub_inv e (br_pi s)" and "token_not_pool e (br_pi s)"
    and "event_ok (PubBlock penv senv env n block)" and run: "on_pub_block e penv senv env n block s = Done s'"
  shows "\<exists>pi2. exec_bind (retry_outbound (of_nat n) (s\<lparr>br_pi := pi2\<rparr>)) (move_pub_funds e senv env (of_nat n)) = Done s'
    \<and> tokenAddr pi2 = tokenAddr (br_pi s) \<and> pub_lastTwoPools pi2 = pub_lastTwoPools (br_pi s)
    \<and> book_of pi2 = book_expire (of_nat n) (case block of Inl _ \<Rightarrow> book_of (br_pi s)
        | Inr b \<Rightarrow> book_steps (NumberU64 b) (block_actions e penv (br_pi s) b) (book_of (br_pi s)))"
proof -
  obtain err pi1 where p: "ProcessNewBlock e penv block (br_pi s) = Done (err, pi1)"
    using run by (auto simp: on_pub_block_def exec_bind_eq_Done_iff)
  let ?book = "case block of Inl _ \<Rightarrow> book_of (br_pi s)
        | Inr b \<Rightarrow> book_steps (NumberU64 b) (block_actions e penv (br_pi s) b) (book_of (br_pi s))"
  have pi1: "pub_inv e pi1 \<and> book_of pi1 = ?book
      \<and> tokenAddr pi1 = tokenAddr (br_pi s) \<and> pub_lastTwoPools pi1 = pub_lastTwoPools (br_pi s)"
  proof (cases block)
    case (Inl x)
    then show ?thesis using p assms(3) by (simp add: ProcessNewBlock_def)
  next
    case (Inr b)
    then have b: "processEachBlock e penv b (br_pi s) = Done pi1"
      using p by (auto simp: ProcessNewBlock_def exec_bind_eq_Done_iff)
    then have fold: "exec_fold (process_tx e penv (NumberU64 b)) (Transactions b) (br_pi s) = Done pi1"
      by (simp add: processEachBlock_def)
    have v: "\<forall>tx \<in> set (Transactions b). 0 \<le> tx_Value tx" using assms(5) Inr by simp
    show ?thesis
      using processEachBlock_book [OF assms(1-4) v b] processEachBlock_run [OF assms(1,3) v fold] Inr by simp
  qed
  let ?pi = "pi1\<lparr>pub_CurrentHeight := of_nat n\<rparr>"
  let ?pi2 = "DeleteExpired (of_nat n) ?pi"
  have "exec_bind (retry_outbound (of_nat n) (s\<lparr>br_pi := ?pi2\<rparr>)) (move_pub_funds e senv env (of_nat n)) = Done s'"
    using run p by (simp add: on_pub_block_def Let_def)
  moreover have "book_of ?pi2 = book_expire (of_nat n) ?book"
    using pi1 by (subst DeleteExpired_book [of e]) (simp_all add: book_of_def queued_def pub_retry_bag_def)
  moreover have "tokenAddr ?pi2 = tokenAddr (br_pi s)" "pub_lastTwoPools ?pi2 = pub_lastTwoPools (br_pi s)"
    using pi1 by (simp_all add: DeleteExpired_def Let_def)
  ultimately show ?thesis by blast
qed

lemma pub_tail_pools:
  assumes "exec_bind (retry_outbound h s) (move_pub_funds e senv env h) = Done s'"
  shows "pub_lastTwoPools (br_pi s') = pub_lastTwoPools (br_pi s)"
proof -
  obtain s1 where r: "retry_outbound h s = Done s1" and m: "move_pub_funds e senv env h s1 = Done s'"
    using assms by (auto simp: exec_bind_eq_Done_iff)
  have "br_pi s1 = br_pi s" by (rule retry_outbound_frame [OF r]) simp_all
  moreover have "pub_lastTwoPools (br_pi s') = pub_lastTwoPools (br_pi s1)"
    using move_pub_funds_frame [OF m] by auto
  ultimately show ?thesis by simp
qed

text \<open>
  What one event does to the view, and how much more is owed: \<open>follows\<close> says that the node
  reaches the abstract node's state and has come to owe what the abstract book says.
\<close>

definition follows :: "bridge \<Rightarrow> (acc_address \<times> int \<times> bytes) multiset \<Rightarrow> view \<Rightarrow> bridge \<Rightarrow> bool" where
  "follows s gone v s' \<longleftrightarrow> tokenAddr (br_pi s') = tokenAddr (br_pi s) \<and> pub_lastTwoPools (br_pi s') = snd v
     \<and> (book_of (br_pi s'))\<lparr>owed := {#}\<rparr> = (fst v)\<lparr>owed := {#}\<rparr>
     \<and> mint_flight s' + gone = mint_flight s + owed (fst v)"

lemma follows_same:
  assumes "same_book s s'" and "mint_flight s' + gone = mint_flight s" and "pub_lastTwoPools (br_pi s') = ps"
  shows "follows s gone (fst (view_of s), ps) s'"
  using assms same_bookD [OF assms(1), of "{#}"] by (simp add: follows_def view_of_def same_book_def)

lemma pub_block_follows:
  assumes "sdk_ok M e" and "hash_ok e" and "pub_inv e (br_pi s)" and "token_not_pool e (br_pi s)"
    and "event_ok (PubBlock penv senv env n block)" and run: "on_pub_block e penv senv env n block s = Done s'"
  shows "follows s {#} (view_step e (tokenAddr (br_pi s)) (ReadBlock penv n (case block of Inl _ \<Rightarrow> None | Inr b \<Rightarrow> Some b)) (view_of s)) s'"
proof -
  obtain pi2 where tail: "exec_bind (retry_outbound (of_nat n) (s\<lparr>br_pi := pi2\<rparr>)) (move_pub_funds e senv env (of_nat n)) = Done s'"
    and pi2: "tokenAddr pi2 = tokenAddr (br_pi s)" "pub_lastTwoPools pi2 = pub_lastTwoPools (br_pi s)"
    and bk: "book_of pi2 = book_expire (of_nat n) (case block of Inl _ \<Rightarrow> book_of (br_pi s)
        | Inr b \<Rightarrow> book_steps (NumberU64 b) (block_actions e penv (br_pi s) b) (book_of (br_pi s)))"
    using pub_block_book [OF assms] by blast
  let ?s = "s\<lparr>br_pi := pi2\<rparr>" and ?token = "tokenAddr (br_pi s)" and ?ps = "pub_lastTwoPools (br_pi s)"
  let ?x = "ReadBlock penv n (case block of Inl _ \<Rightarrow> None | Inr b \<Rightarrow> Some b)"
  have own: "book_of (br_pi s) = owing (queued (br_pi s)) (fst (view_of s))"
    by (simp add: view_of_def owing_def book_of_def)
  have "(book_of pi2, ?ps) = view_step e ?token ?x (book_of (br_pi s), ?ps)"
    by (cases block) (simp_all add: bk node_block_actions)
  also have "\<dots> = (owing (queued (br_pi s)) (fst (view_step e ?token ?x (view_of s))), snd (view_step e ?token ?x (view_of s)))"
    unfolding own view_step_owing by (simp add: view_of_def)
  finally have v: "book_of pi2 = owing (queued (br_pi s)) (fst (view_step e ?token ?x (view_of s)))"
    "snd (view_step e ?token ?x (view_of s)) = ?ps" by simp_all
  note R = book_rel.pub_block_tail_R [OF tail]
  have "queued pi2 = owed (book_of pi2)" by (simp add: book_of_def)
  then have "mint_flight s' = mint_flight s + owed (fst (view_step e ?token ?x (view_of s)))"
    using R v(1) by (simp add: mint_flight_def owing_def ac_simps)
  moreover have "(book_of (br_pi s'))\<lparr>owed := {#}\<rparr> = (fst (view_step e ?token ?x (view_of s)))\<lparr>owed := {#}\<rparr>"
    using same_bookD [OF R [THEN conjunct1], of "{#}"] v(1) by (simp add: owing_def)
  ultimately show ?thesis
    using R pub_tail_pools [OF tail] pi2 v(2) by (simp add: follows_def same_book_def)
qed

lemma handle_follows:
  assumes "sdk_ok M e" and "hash_ok e" and "bridge_inv e s" and "token_not_pool e (br_pi s)"
    and "event_ok ev" and run: "handle e ev s = Done s'"
  shows "follows s (mint_left s ev) (case reading_of ev of None \<Rightarrow> view_of s
    | Some x \<Rightarrow> view_step e (tokenAddr (br_pi s)) x (view_of s)) s'"
proof (cases ev)
  case (ValidatorUpdate env updates)
  then have r: "on_validators e env updates s = Done s'" using run by simp
  have "yields (\<lambda>s'. br_pi s' = br_pi s) (on_validators e env updates s)"
    unfolding on_validators_def by (auto split: sum.splits)
  then have p: "br_pi s' = br_pi s" using r by (rule yieldsD)
  show ?thesis
    using follows_same [of s s' "{#}" "snd (view_of s)"] book_rel.on_validators_R [OF r] p
    by (simp add: ValidatorUpdate view_of_def)
next
  case (JoltBlock env h)
  then have r: "on_jolt_block e env h s = Done s'" using run by simp
  show ?thesis
    using follows_same [OF _ _ jolt_block_pools [OF r], where s = s and gone = "{#}"] book_rel.on_jolt_block_R [OF r]
    by (auto simp: JoltBlock view_of_def split: sum.splits)
next
  case (PubBlock penv senv jenv n block)
  then have r: "on_pub_block e penv senv jenv n block s = Done s'" using run by simp
  have i: "pub_inv e (br_pi s)" using assms(3) by (simp add: bridge_inv_def)
  show ?thesis using pub_block_follows [OF assms(1,2) i assms(4) assms(5) [unfolded PubBlock] r] by (simp add: PubBlock)
next
  case (TakeInbound env)
  then have r: "on_inbound e env s = Done s'" using run by simp
  show ?thesis
    using mint_flight_taken [OF r] follows_same [of s s' "mint_left s ev" "snd (view_of s)"] by (simp add: TakeInbound view_of_def)
next
  case (MintChecked n Retry clients)
  then have r: "on_mint_checked e n Retry clients s = Done s'" using run by simp
  show ?thesis
    using mint_flight_checked [OF r] follows_same [of s s' "mint_left s ev" "snd (view_of s)"] by (simp add: MintChecked view_of_def)
next
  case (JoltTx env code h tx)
  then have r: "on_jolt_tx e env code h tx s = Done s'" using run by simp
  show ?thesis
    using outbound_same_view [of s' s] outbound_same(1) [OF r] follows_same [of s s' "{#}" "snd (view_of s)"]
    by (simp add: JoltTx view_of_def)
next
  case (TakeOutbound env senv)
  then have r: "on_outbound e env senv s = Done s'" using run by simp
  show ?thesis
    using outbound_same_view [OF outbound_same(2) [OF r]] follows_same [of s s' "{#}" "snd (view_of s)"]
    by (simp add: TakeOutbound view_of_def)
next
  case (SendChecked n Retry envs)
  then have r: "on_send_checked e n Retry envs s = Done s'" using run by simp
  show ?thesis
    using outbound_same_view [OF outbound_same(3) [OF r]] follows_same [of s s' "{#}" "snd (view_of s)"]
    by (simp add: SendChecked view_of_def)
qed

section \<open>Runs\<close>

lemma follows_trans:
  assumes "follows s gone v s1" and "follows s1 gone' v' s'"
    and "v' = (case x of None \<Rightarrow> view_of s1 | Some r \<Rightarrow> view_step e (tokenAddr (br_pi s1)) r (view_of s1))"
  shows "follows s (gone + gone') (case x of None \<Rightarrow> v | Some r \<Rightarrow> view_step e (tokenAddr (br_pi s)) r v) s'"
proof -
  obtain b ps where v: "v = (b, ps)" by (cases v)
  let ?b = "b\<lparr>owed := {#}\<rparr>"
  have own: "b = owing (owed b) ?b" by (simp add: owing_def)
  have s1: "view_of s1 = (?b, ps)" "tokenAddr (br_pi s1) = tokenAddr (br_pi s)"
    using assms(1) v by (simp_all add: follows_def view_of_def)
  let ?w = "case x of None \<Rightarrow> v | Some r \<Rightarrow> view_step e (tokenAddr (br_pi s)) r v"
  have w: "?w = (owing (owed b) (fst v'), snd v')"
  proof (cases x)
    case None
    then show ?thesis using assms(3) s1 v own by simp
  next
    case (Some r)
    have "?w = view_step e (tokenAddr (br_pi s)) r (owing (owed b) ?b, ps)" using Some v own by simp
    then show ?thesis unfolding view_step_owing using assms(3) Some s1 by simp
  qed
  have "mint_flight s' + (gone + gone') = mint_flight s1 + gone + owed (fst v')"
    using assms(2) by (simp add: follows_def ac_simps)
  also have "\<dots> = mint_flight s + owed (owing (owed b) (fst v'))"
    using assms(1) v by (simp add: follows_def owing_def ac_simps)
  finally show ?thesis
    using assms(1,2) unfolding w by (simp add: follows_def owing_def)
qed

lemma readings_snoc:
  "readings (tr @ [(s, ev)]) = readings tr @ (case reading_of ev of None \<Rightarrow> [] | Some x \<Rightarrow> [x])"
  by (induction tr) (auto simp: readings_def map_filter_simps split: option.splits)

lemma run_follows:
  assumes "bridge_run e s tr s'" and "sdk_ok M e" and "hash_ok e" and "bridge_inv e s"
    and "\<forall>(t, ev) \<in> set tr. token_not_pool e (br_pi t)"
  shows "bridge_inv e s' \<and> follows s (\<Sum>(t, ev) \<leftarrow> tr. mint_left t ev)
    (fold (view_step e (tokenAddr (br_pi s))) (readings tr) (view_of s)) s'"
  using assms
proof (induction rule: bridge_run.induct)
  case (start s)
  then show ?case by (simp add: readings_def map_filter_simps follows_def view_of_def)
next
  case (step s tr s1 ev s')
  then have i: "bridge_inv e s1" and f: "follows s (\<Sum>(t, ev) \<leftarrow> tr. mint_left t ev)
      (fold (view_step e (tokenAddr (br_pi s))) (readings tr) (view_of s)) s1" by auto
  have t: "token_not_pool e (br_pi s1)" using step.prems(4) by simp
  note h = handle_follows [OF step.prems(1,2) i t step.hyps(2,3)]
  have "fold (view_step e (tokenAddr (br_pi s))) (readings (tr @ [(s1, ev)])) (view_of s) =
    (case reading_of ev of None \<Rightarrow> fold (view_step e (tokenAddr (br_pi s))) (readings tr) (view_of s)
     | Some r \<Rightarrow> view_step e (tokenAddr (br_pi s)) r (fold (view_step e (tokenAddr (br_pi s))) (readings tr) (view_of s)))"
    by (cases "reading_of ev") (simp_all add: readings_snoc)
  then show ?case
    using follows_trans [OF f h refl] handle_inv [OF step.prems(1) i step.hyps(2,3)] by simp
qed

text \<open>
  C2: the event loop implements the book. Over any run, whatever order the events come in,
  what waits for a fee, what fees were paid ahead and which pools are known at the end is
  what the abstract node gets from the blocks and pool answers the run has read, in their
  order; and the mint requests that are in flight at the end or have left are exactly
  those in flight at the beginning and those the book says became owed, each with its
  sender, amount and transaction.
\<close>

theorem bridge_refines_book:
  assumes "sdk_ok M e" and "hash_ok e" and "bridge_inv e s" and "bridge_run e s tr s'"
    and "\<forall>(t, ev) \<in> set tr. token_not_pool e (br_pi t)"
  shows "let (book, pools) = fold (view_step e (tokenAddr (br_pi s))) (readings tr) (view_of s)
    in view_of s' = (book\<lparr>owed := {#}\<rparr>, pools)
      \<and> mint_flight s' + (\<Sum>(t, ev) \<leftarrow> tr. mint_left t ev) = mint_flight s + owed book"
  using run_follows [OF assms(4,1-3,5)] by (simp add: follows_def view_of_def case_prod_beta)

text \<open>
  Answers that leave the pools as they are do not matter, and a node asks for the pools at
  every block of the Joltify chain: what matters is where the changes of the pools stand
  between the public blocks.
\<close>

fun essential :: "ext \<Rightarrow> pool_pair \<Rightarrow> reading list \<Rightarrow> reading list" where
  "essential e ps [] = []"
| "essential e ps (ReadBlock penv n b # xs) = ReadBlock penv n b # essential e ps xs"
| "essential e ps (ReadPools vs # xs) =
     (if pools_after e vs ps = ps then essential e ps xs else ReadPools vs # essential e (pools_after e vs ps) xs)"

lemma fold_essential: "fold (view_step e token) (essential e ps xs) (b, ps) = fold (view_step e token) xs (b, ps)"
  by (induction e ps xs arbitrary: b rule: essential.induct) simp_all

text \<open>
  C7: nodes agree. Two nodes that start with the same waiting transfers, early fees and pools
  and then read the same public blocks and the same changes of the pools, in the same order,
  hold the same waiting transfers, early fees and pools afterwards, and the same mint
  requests have become owed at both: whatever else their runs do, in whatever order they
  take requests, whether they sign, how often their retries fail, and how often and when
  they are told pools they know already.
\<close>

theorem nodes_agree:
  assumes "sdk_ok M e" and "hash_ok e" and "bridge_inv e s1" and "bridge_inv e s2"
    and "tokenAddr (br_pi s1) = tokenAddr (br_pi s2)" and "view_of s1 = view_of s2"
    and "bridge_run e s1 tr1 s1'" and "bridge_run e s2 tr2 s2'"
    and "\<forall>(t, ev) \<in> set tr1 \<union> set tr2. token_not_pool e (br_pi t)"
    and "essential e (pub_lastTwoPools (br_pi s1)) (readings tr1) = essential e (pub_lastTwoPools (br_pi s1)) (readings tr2)"
  shows "view_of s1' = view_of s2'
    \<and> (\<exists>owe. mint_flight s1' + (\<Sum>(t, ev) \<leftarrow> tr1. mint_left t ev) = mint_flight s1 + owe
          \<and> mint_flight s2' + (\<Sum>(t, ev) \<leftarrow> tr2. mint_left t ev) = mint_flight s2 + owe)"
proof -
  have p: "view_of s1 = (fst (view_of s1), pub_lastTwoPools (br_pi s1))" by (simp add: view_of_def)
  have "fold (view_step e (tokenAddr (br_pi s1))) (readings tr1) (view_of s1)
      = fold (view_step e (tokenAddr (br_pi s1))) (readings tr2) (view_of s1)"
    using assms(10) fold_essential [of e "tokenAddr (br_pi s1)" "pub_lastTwoPools (br_pi s1)" _ "fst (view_of s1)"] p
    by metis
  then show ?thesis
    using run_follows [OF assms(7,1-3)] run_follows [OF assms(8,1,2,4)] assms(5,6,9)
    by (auto simp: follows_def view_of_def)
qed

section \<open>Runs for the witnesses\<close>

text \<open>A block with a transfer of 100 to the latest pool and the fee for it.\<close>

definition sample_penv :: pub_env where
  "sample_penv = sample_env\<lparr>transfer_Unpack := Some (\<lambda>_. Inr [AbiAddress [106], AbiInt 100])\<rparr>"

definition sample_paid :: EthBlock where
  "sample_paid = \<lparr>Transactions = [transfer_tx, fee_tx\<lparr>tx_To := Some [106]\<rparr>], NumberU64 = 100\<rparr>"

definition sample_reads :: bridge_event where
  "sample_reads = PubBlock sample_penv sample_node sample_jenv 100 (Inr sample_paid)"

lemma sample_paid_range: "\<forall>tx \<in> set (Transactions sample_paid). tx_in_range 255 sample_penv tx"
  by (auto simp: tx_in_range_def sample_paid_def transfer_tx_def fee_tx_def checkErc20_def sample_penv_def sample_env_def)

lemma sample_reads_run:
  assumes "bridge_inv sample_ext s" and "RetryOutboundReq (br_jc s) = []" and "pub_moveFundReq (br_pi s) = []"
    and "InboundReqChan (br_pi s) = []"
  obtains s' where "handle sample_ext sample_reads s = Done s'" and "br_jc s' = br_jc s"
proof -
  have "pub_inv sample_ext (br_pi s)" using assms(1) by (simp add: bridge_inv_def)
  from processEachBlock_total [OF sample_ext_ok this sample_paid_range] assms(4)
  obtain pi1 where p: "processEachBlock sample_ext sample_penv sample_paid (br_pi s) = Done pi1"
    by (auto simp: sample_paid_def reqCacheSize_def)
  then have m: "pub_moveFundReq pi1 = []"
    using processEachBlock_funds [of sample_ext sample_penv "NumberU64 sample_paid" "Transactions sample_paid" "br_pi s" pi1] assms(3)
    by (simp add: processEachBlock_def)
  have "\<exists>s'. handle sample_ext sample_reads s = Done s' \<and> br_jc s' = br_jc s"
    by (simp add: sample_reads_def on_pub_block_def ProcessNewBlock_def p retry_outbound_def jolt_PopItem_def assms(2)
        scan_max_def move_pub_funds_def pub_PopMoveFundItemAfterBlock_def DeleteExpired_def Let_def m scan_min_def)
  then show thesis using that by blast
qed

lemma sample_filled_state:
  "tokenAddr (br_pi sample_filled) = ''0x07''" "RetryOutboundReq (br_jc sample_filled) = []"
  "pub_moveFundReq (br_pi sample_filled) = []" "InboundReqChan (br_pi sample_filled) = []"
  "RetryInboundReq (br_pi sample_filled) = []" "br_checks sample_filled = []"
  "pendingInbounds (br_pi sample_filled) = []" "pendingInboundsBnB (br_pi sample_filled) = []"
  "pub_lastTwoPools (br_pi sample_filled) = (Some (sample_cached ''k''), Some (sample_cached ''j''))"
  by (simp_all add: sample_filled_def upd_both_def pub_upd_eq jolt_upd_eq next_pools_def sample_entry initial_bridge_def
      NewChainInstance_def sample_started_def NewJoltifyBridge_def)

lemma sample_pool_address:
  "checkToBridge sample_ext d pi \<longleftrightarrow> d = [107] \<or> d = [106]"
  if "pub_lastTwoPools pi = (Some (sample_cached ''k''), Some (sample_cached ''j''))"
proof -
  have "EthAddress (sample_cached ''k'') = [107]" "EthAddress (sample_cached ''j'') = [106]"
    by (simp_all add: sample_cached_def)
  then show ?thesis
    by (simp add: checkToBridge_def pub_GetPool_def that sample_ext_def del: hex_EncodeToString.simps)
qed

lemma sample_hash_ok: "hash_ok sample_ext"
  by (simp add: hash_ok_def sample_ext_def del: hex_EncodeToString.simps)

lemma sample_token:
  assumes "\<not> checkToBridge sample_ext [7] pi" and "tokenAddr pi = ''0x07''"
  shows "token_not_pool sample_ext pi"
proof -
  have "''0x07'' = ''0x'' @ hex_EncodeToString [7]" by (simp only: hex_samples append.simps)
  moreover have "EthHex sample_ext to = ''0x'' @ hex_EncodeToString to" for to by (simp add: sample_ext_def)
  ultimately have "EthHex sample_ext to = ''0x07'' \<longleftrightarrow> to = [7]" for to
    by (simp del: hex_EncodeToString.simps hex_samples)
  then show ?thesis using assms by (simp add: token_not_pool_def)
qed

lemma sample_view:
  "view_of sample_filled = (\<lparr>awaiting = \<lambda>_. None, prepaid = \<lambda>_. None, owed = {#}\<rparr>,
     (Some (sample_cached ''k''), Some (sample_cached ''j'')))"
  by (simp add: view_of_def book_of_def sample_filled_state)

lemma sample_actions:
  assumes "pub_lastTwoPools pi = (Some (sample_cached ''k''), Some (sample_cached ''j''))" and "tokenAddr pi = ''0x07''"
  shows "block_actions sample_ext sample_penv pi sample_paid = [Transfer [5] [0] 100, Payment [5] 20]"
proof -
  have to: "tx_To transfer_tx = Some [7]" "tx_Data transfer_tx = Some [1, 2, 3, 4]" "tx_Hash transfer_tx = [5]"
    by (simp_all add: transfer_tx_def)
  have "EthHex sample_ext [7] = ''0x07''" by (simp add: sample_ext_def del: hex_EncodeToString.simps)
  then have v: "valid_transfer sample_ext sample_penv pi transfer_tx = Some ([0], \<lparr>Denom = InBoundDenom, Amount = 100\<rparr>)"
    using to assms(2)
    by (simp add: valid_transfer_def sample_sender checkErc20_def sample_penv_def sample_env_def
        sample_pool_address [OF assms(1)] del: hex_EncodeToString.simps)
  have n: "valid_transfer sample_ext sample_penv pi (fee_tx\<lparr>tx_To := t\<rparr>) = None" for t
    by (simp add: valid_transfer_def fee_tx_def checkErc20_def sample_penv_def sample_env_def split: option.splits)
  have "fee_payment sample_ext sample_penv pi (fee_tx\<lparr>tx_To := Some [106]\<rparr>) = Some ([5], 20)"
    by (simp add: fee_payment_def fee_tx_def checkErc20_def sample_penv_def sample_env_def sample_pool_address [OF assms(1)])
  then show ?thesis
    by (simp add: block_actions_def sample_paid_def tx_actions_def v n to)
qed

lemma sample_view_step:
  "view_step sample_ext ''0x07'' (ReadBlock sample_penv 100 (Some sample_paid)) (view_of sample_filled)
    = (\<lparr>awaiting = \<lambda>_. None, prepaid = \<lambda>_. None, owed = {#([0], 100, [5])#}\<rparr>,
       (Some (sample_cached ''k''), Some (sample_cached ''j'')))"
proof -
  have "block_actions sample_ext sample_penv (node_of ''0x07'' (Some (sample_cached ''k''), Some (sample_cached ''j''))) sample_paid
    = [Transfer [5] [0] 100, Payment [5] 20]"
    by (rule sample_actions) (simp_all add: node_of_def NewChainInstance_def)
  then show ?thesis
    by (simp add: sample_view book_steps_def book_expire_def sample_paid_def fun_upd_def fun_eq_iff)
qed

lemma sample_reading: "reading_of sample_reads = Some (ReadBlock sample_penv 100 (Some sample_paid))"
  "mint_left s sample_reads = {#}" "event_ok sample_reads"
  by (simp_all add: sample_reads_def sample_paid_def transfer_tx_def fee_tx_def)

lemma sample_filled_token: "token_not_pool sample_ext (br_pi sample_filled)"
  by (rule sample_token) (simp_all add: sample_filled_state sample_pool_address)

lemma sample_reads_filled:
  obtains s' where "bridge_run sample_ext sample_filled [(sample_filled, sample_reads)] s'"
proof -
  obtain s' where "handle sample_ext sample_reads sample_filled = Done s'"
    using sample_reads_run [OF sample_filled_inv] sample_filled_state by blast
  from bridge_run.step [OF bridge_run.start sample_reading(3) this] that show thesis by simp
qed

theorem bridge_refines_book_witness:
  "\<exists>s'. bridge_run sample_ext sample_filled [(sample_filled, sample_reads)] s'
     \<and> sm_Load ''05'' (pendingInbounds (br_pi s')) = None \<and> mint_flight s' = {#([0], 100, [5])#}"
proof -
  obtain s' where r: "bridge_run sample_ext sample_filled [(sample_filled, sample_reads)] s'" by (rule sample_reads_filled)
  have "readings [(sample_filled, sample_reads)] = [ReadBlock sample_penv 100 (Some sample_paid)]"
    by (simp add: readings_def map_filter_simps sample_reading)
  moreover have "mint_flight sample_filled = {#}"
    by (simp add: mint_flight_def queued_def pub_retry_bag_def sample_filled_state map_filter_simps)
  ultimately have "mint_flight s' = {#([0], 100, [5])#}" and "view_of s' = (\<lparr>awaiting = \<lambda>_. None, prepaid = \<lambda>_. None, owed = {#}\<rparr>,
       (Some (sample_cached ''k''), Some (sample_cached ''j'')))"
    using bridge_refines_book [OF sample_ext_ok sample_hash_ok sample_filled_inv r] sample_filled_token
    by (simp_all add: sample_filled_state sample_view_step sample_reading)
  moreover from this(2) have "map_option entry_of (sm_Load (hex_EncodeToString [5]) (pendingInbounds (br_pi s'))) = None"
    by (simp add: view_of_def book_of_def fun_eq_iff del: hex_EncodeToString.simps hex_samples)
  ultimately show ?thesis using r hex_samples(1) by auto
qed

lemma sample_queue_taken:
  "handle sample_ext (TakeInbound sample_locked) sample_queue
    = Done (sample_queue\<lparr>br_pi := (br_pi sample_queue)\<lparr>InboundReqChan := []\<rparr>\<rparr>)"
  using sample_queue_latest(1)
  by (simp add: on_inbound_def sample_queue_def CheckWhetherSigner_def sample_locked_def jolt_GetPool_def)

theorem nodes_agree_witness:
  "\<exists>s s1' s2'. bridge_run sample_ext sample_filled [(sample_filled, sample_reads)] s1'
     \<and> bridge_run sample_ext sample_queue [(sample_queue, TakeInbound sample_locked), (s, sample_reads)] s2'
     \<and> view_of s1' = view_of s2'"
proof -
  let ?s = "sample_queue\<lparr>br_pi := (br_pi sample_queue)\<lparr>InboundReqChan := []\<rparr>\<rparr>"
  obtain s1' where r1: "bridge_run sample_ext sample_filled [(sample_filled, sample_reads)] s1'" by (rule sample_reads_filled)
  have i: "bridge_inv sample_ext ?s"
    using handle_inv [OF sample_ext_ok sample_queue_inv _ sample_queue_taken] by simp
  have q: "br_pi ?s = br_pi sample_filled" "RetryOutboundReq (br_jc ?s) = []"
    "pub_lastTwoPools (br_pi sample_queue) = pub_lastTwoPools (br_pi sample_filled)" "tokenAddr (br_pi sample_queue) = ''0x07''"
    "view_of sample_queue = view_of sample_filled"
    by (simp_all add: sample_queue_def sample_filled_state view_of_def book_of_def)
  obtain s2' where "handle sample_ext sample_reads ?s = Done s2'"
    using sample_reads_run [OF i] q sample_filled_state by metis
  with bridge_run.step [OF bridge_run.step [OF bridge_run.start _ sample_queue_taken] sample_reading(3)]
  have r2: "bridge_run sample_ext sample_queue [(sample_queue, TakeInbound sample_locked), (?s, sample_reads)] s2'" by simp
  have "token_not_pool sample_ext (br_pi sample_queue)" "token_not_pool sample_ext (br_pi ?s)"
    using q by (auto intro!: sample_token simp: sample_filled_state sample_pool_address)
  then have t: "\<forall>(t, ev) \<in> set [(sample_filled, sample_reads)] \<union> set [(sample_queue, TakeInbound sample_locked), (?s, sample_reads)].
      token_not_pool sample_ext (br_pi t)"
    using sample_filled_token by simp
  have "readings [(sample_filled, sample_reads)] = readings [(sample_queue, TakeInbound sample_locked), (?s, sample_reads)]"
    by (simp add: readings_def map_filter_simps)
  then have "view_of s1' = view_of s2'"
    using nodes_agree [OF sample_ext_ok sample_hash_ok sample_filled_inv sample_queue_inv _ _ r1 r2 t] q
    by (simp add: sample_filled_state)
  then show ?thesis using r1 r2 by blast
qed

section \<open>The race between a rotation and a public block\<close>

text \<open>
  C22: a rotation races with the public blocks. A transfer to the new pool is dropped, and
  nothing of it is kept, by a node that handles its public block before the Joltify block
  that announces the pool; a node that handles them the other way round files it, to be
  minted once its fee is there. Afterwards both know the same pools. Nothing orders the
  blocks of the two chains, so the nodes of one committee can disagree about the transfer.
\<close>

theorem rotation_race:
  assumes "sdk_ok M e" and "tx_To tx = Some to" and "EthHex e to = tokenAddr pi" and "Receipt penv (tx_Hash tx) = Inr 1"
    and "checkErc20 penv (case tx_Data tx of None \<Rightarrow> [] | Some d \<Rightarrow> d) = Inr (dest, amount)"
    and "transfer_sender e tx = Done (Inr sender)" and "\<bar>amount\<bar> < 2 ^ M"
    and "pool_entry e v = Some p" and "EthHex e dest = EthHex e (EthAddress p)" and "\<not> checkToBridge e dest pi"
    and "token_not_pool e (pub_upd e v pi)"
    and "sm_Load (tx_key e tx) (pendingInbounds pi) = None" and "sm_Load (tx_key e tx) (pendingInboundsBnB pi) = None"
  shows "\<exists>before after.
      exec_bind (processEachBlock e penv \<lparr>Transactions = [tx], NumberU64 = n\<rparr> pi) (pub_UpdatePool e (Some v)) = Done (None, before)
    \<and> exec_bind (pub_UpdatePool e (Some v) pi) (\<lambda>(_, pi1). processEachBlock e penv \<lparr>Transactions = [tx], NumberU64 = n\<rparr> pi1) = Done after
    \<and> pub_lastTwoPools before = pub_lastTwoPools after
    \<and> before = pub_upd e v pi
    \<and> sm_Load (tx_key e tx) (pendingInbounds after) = Some \<lparr>itx_address = sender, pubBlockHeight = n,
        itx_token = \<lparr>Denom = InBoundDenom, Amount = amount\<rparr>, itx_fee = \<lparr>Denom = InBoundDenomFee, Amount = 0\<rparr>\<rparr>"
proof -
  obtain cp where "CreatePool v = Some cp" using assms(8) by (rule pool_entryE)
  with pub_UpdatePool_done [of v e pi] assms(8) have u: "pub_UpdatePool e (Some v) pi = Done (None, pub_upd e v pi)" by auto
  have "process_tx e penv n tx pi = Done pi"
    using assms(2-5,10) by (simp add: process_tx_def checkEachTx_def)
  then have first: "processEachBlock e penv \<lparr>Transactions = [tx], NumberU64 = n\<rparr> pi = Done pi" by (simp add: processEachBlock_def)
  have s: "tokenAddr (pub_upd e v pi) = tokenAddr pi" "pendingInbounds (pub_upd e v pi) = pendingInbounds pi"
    "pendingInboundsBnB (pub_upd e v pi) = pendingInboundsBnB pi" "checkToBridge e dest (pub_upd e v pi)"
    using assms(8,9) by (simp_all add: pub_upd_eq next_pools_def checkToBridge_def pub_GetPool_def)
  obtain a where "process_tx e penv n tx (pub_upd e v pi) = Done a" and "pub_lastTwoPools a = pub_lastTwoPools (pub_upd e v pi)"
    and "sm_Load (tx_key e tx) (pendingInbounds a) = Some \<lparr>itx_address = sender, pubBlockHeight = n,
        itx_token = \<lparr>Denom = InBoundDenom, Amount = amount\<rparr>, itx_fee = \<lparr>Denom = InBoundDenomFee, Amount = 0\<rparr>\<rparr>"
    using process_tx_first [OF assms(1,2) _ assms(4-7) s(4) assms(11), of n] assms(3,12,13) s by (simp add: sm.load_store)
  then show ?thesis
    using first u by (simp add: processEachBlock_def)
qed

definition sample_race :: pub_env where
  "sample_race = sample_env\<lparr>transfer_Unpack := Some (\<lambda>_. Inr [AbiAddress [97], AbiInt 100])\<rparr>"

theorem rotation_race_witness:
  "\<exists>before after. exec_bind (processEachBlock sample_ext sample_race \<lparr>Transactions = [transfer_tx], NumberU64 = 100\<rparr> (br_pi sample_filled))
      (pub_UpdatePool sample_ext (Some (sample_vault ''a''))) = Done (None, before)
    \<and> exec_bind (pub_UpdatePool sample_ext (Some (sample_vault ''a'')) (br_pi sample_filled))
        (\<lambda>(_, pi1). processEachBlock sample_ext sample_race \<lparr>Transactions = [transfer_tx], NumberU64 = 100\<rparr> pi1) = Done after
    \<and> sm_Load ''05'' (pendingInbounds before) = None \<and> sm_Load ''05'' (pendingInbounds after) \<noteq> None"
proof -
  let ?v = "sample_vault ''a''" and ?pi = "br_pi sample_filled"
  have addr: "EthAddress (sample_cached ''a'') = [97]" "EthAddress (sample_cached ''j'') = [106]"
    by (simp_all add: sample_cached_def)
  have ps: "pub_lastTwoPools (pub_upd sample_ext ?v ?pi) = (Some (sample_cached ''j''), Some (sample_cached ''a''))"
    by (simp add: pub_upd_eq next_pools_def sample_entry sample_filled_state)
  have tok: "token_not_pool sample_ext (pub_upd sample_ext ?v ?pi)"
  proof (rule sample_token)
    show "\<not> checkToBridge sample_ext [7] (pub_upd sample_ext ?v ?pi)"
      by (simp add: checkToBridge_def pub_GetPool_def ps addr del: hex_EncodeToString.simps hex_samples)
  qed (simp add: pub_upd_eq sample_filled_state)
  have key: "tx_key sample_ext transfer_tx = ''05''"
    by (simp del: hex_EncodeToString.simps add: tx_key_def transfer_tx_def)
  have tx: "tx_To transfer_tx = Some [7]" "EthHex sample_ext [7] = tokenAddr ?pi" "Receipt sample_race (tx_Hash transfer_tx) = Inr 1"
    "checkErc20 sample_race (case tx_Data transfer_tx of None \<Rightarrow> [] | Some d \<Rightarrow> d) = Inr ([97], 100)"
    by (simp_all del: hex_EncodeToString.simps
      add: transfer_tx_def sample_filled_state checkErc20_def sample_race_def sample_env_def)
  have same: "sm_Load k (pendingInbounds (pub_upd sample_ext ?v ?pi)) = None" for k by (simp add: pub_upd_eq sample_filled_state)
  show ?thesis
    using rotation_race [OF sample_ext_ok tx sample_sender _ sample_entry, of "''a''" 100] tok same
    by (auto simp: sample_filled_state key addr sample_pool_address simp del: hex_EncodeToString.simps)
qed

end
