(* ===== verification/Bridge_Pools.thy ===== *)
theory Bridge_Pools
  imports Bridge_Loop_Correct
begin

text \<open>
  How the pool caches follow the chain (\<open>NeedUpdate\<close> and the pool part of the block handler
  in \<open>bridge/\<close>): the first filling, a rotation, and what two changes at one height file.
\<close>

section \<open>The decision to update\<close>

lemma query_pool_entry:
  assumes "pool_entry e v = Some p"
  shows "query_pool e (Some v) = Inr (p\<lparr>VaultInfo := None\<rparr>)"
  using assms
proof (rule pool_entryE)
  fix cp
  assume "CreatePool v = Some cp" "PoolPubKeyToJoltAddress e (PoolPubKey cp) = Inr (JoltifyAddress p)"
    "PoolPubKeyToEthAddress e (PoolPubKey cp) = Inr (EthAddress p)" "Pk p = PoolPubKey cp" "VaultInfo p = Some v"
  then show ?thesis by (auto simp: query_pool_def GetPoolPubKey_def intro!: PoolInfo.equality)
qed

lemma entry_key: "pool_entry e v = Some p \<Longrightarrow> GetPoolPubKey (Some v) = Pk p"
  by (erule pool_entryE) (simp add: GetPoolPubKey_def)

lemma NeedUpdate_entries:
  assumes "pool_entry e v0 = Some q0" and "pool_entry e v1 = Some q1"
  shows "NeedUpdate e [Some v0, Some v1] [Some c0, Some c1] \<longleftrightarrow>
     \<not> (JoltifyAddress q0 = JoltifyAddress c1 \<and> JoltifyAddress q1 = JoltifyAddress c0)"
  by (simp add: NeedUpdate_def query_pool_entry [OF assms(1)] query_pool_entry [OF assms(2)])

lemma NeedUpdate_cached:
  assumes "pool_entry e v0 = Some q0" and "pool_entry e v1 = Some q1" and "pub_lastTwoPools pi = (Some c0, Some c1)"
  shows "NeedUpdate e [Some v0, Some v1] (pub_GetPool pi) \<longleftrightarrow>
     \<not> (JoltifyAddress q0 = JoltifyAddress c1 \<and> JoltifyAddress q1 = JoltifyAddress c0)"
  using NeedUpdate_entries [OF assms(1,2)] assms(3) by (simp add: pub_GetPool_def)

text \<open>What one refresh does when an update is due.\<close>

lemma refresh_due:
  assumes "NeedUpdate e (Some v # ps) (pub_GetPool (br_pi s))" and "pool_entry e v = Some q"
    and "pub_lastTwoPools (br_pi s) = (Some a, Some b)" and "jolt_lastTwoPools (br_jc s) = (Some a, Some b)"
  shows "refresh_pools e h (Some v # ps) s = Done (let pi = (br_pi s)\<lparr>pub_lastTwoPools := (Some b, Some q)\<rparr>;
       jc = (br_jc s)\<lparr>jolt_lastTwoPools := (Some b, Some q)\<rparr>
     in if Pk a \<noteq> Pk q then s\<lparr>br_jc := jolt_AddMoveFundItem a (h - 1) jc, br_pi := pub_AddMoveFundItem a (pub_CurrentHeight (br_pi s) - 1) pi\<rparr>
        else s\<lparr>br_jc := jc, br_pi := pi\<rparr>)"
proof -
  have cp: "CreatePool v \<noteq> None" using assms(2) by (elim pool_entryE) simp
  have g: "h - MINCHECKBLOCKGAP + 5 = h - 1" for h by (simp add: MINCHECKBLOCKGAP_def)
  obtain err where "pub_UpdatePool e (Some v) (br_pi s) = Done (err, pub_upd e v (br_pi s))"
    using pub_UpdatePool_done [OF cp] by blast
  then show ?thesis
    using assms(1) jolt_UpdatePool_done [OF cp, of e "br_jc s"]
    by (simp add: refresh_pools_def assms(2-4) pub_upd_eq jolt_upd_eq next_pools_def entry_key [OF assms(2)] Let_def g)
qed

lemma refresh_steady:
  "\<not> NeedUpdate e ps (pub_GetPool (br_pi s)) \<Longrightarrow> refresh_pools e h ps s = Done s"
  by (simp add: refresh_pools_def)

section \<open>Properties\<close>

text \<open>
  C21: a rotation. When the chain names a new pool c over the pool b the caches hold as the
  latest, one refresh makes (b, c) the cached pair on both chains, files the pool a that
  falls out for emptying on both, one block below the current heights, and then nothing
  more is due: refreshing again with the same answer changes nothing.
\<close>

theorem rotation_retires:
  assumes "pool_entry e vc = Some c" and "pool_entry e vb = Some b'" and "JoltifyAddress b' = JoltifyAddress b"
    and "JoltifyAddress c \<noteq> JoltifyAddress b" and "Pk a \<noteq> Pk c"
    and "pub_lastTwoPools (br_pi s) = (Some a, Some b)" and "jolt_lastTwoPools (br_jc s) = (Some a, Some b)"
  shows "\<exists>s'. refresh_pools e h [Some vc, Some vb] s = Done s'
    \<and> pub_lastTwoPools (br_pi s') = (Some b, Some c) \<and> jolt_lastTwoPools (br_jc s') = (Some b, Some c)
    \<and> jolt_moveFundReq (br_jc s') = sm_Store (h - 1) a (jolt_moveFundReq (br_jc s))
    \<and> pub_moveFundReq (br_pi s') = sm_Store (pub_CurrentHeight (br_pi s) - 1) a (pub_moveFundReq (br_pi s))
    \<and> (\<forall>k. refresh_pools e k [Some vc, Some vb] s' = Done s')"
proof -
  have g: "pub_GetPool (br_pi s) = [Some a, Some b]" by (simp add: pub_GetPool_def assms(6))
  have due: "NeedUpdate e [Some vc, Some vb] (pub_GetPool (br_pi s))"
    unfolding g NeedUpdate_entries [OF assms(1,2)] using assms(4) by simp
  let ?s' = "s\<lparr>br_jc := jolt_AddMoveFundItem a (h - 1) ((br_jc s)\<lparr>jolt_lastTwoPools := (Some b, Some c)\<rparr>),
     br_pi := pub_AddMoveFundItem a (pub_CurrentHeight (br_pi s) - 1) ((br_pi s)\<lparr>pub_lastTwoPools := (Some b, Some c)\<rparr>)\<rparr>"
  have "refresh_pools e h [Some vc, Some vb] s = Done ?s'"
    using refresh_due [OF due assms(1,6,7), of h] assms(5) by simp
  moreover have "\<not> NeedUpdate e [Some vc, Some vb] (pub_GetPool (br_pi ?s'))"
    using assms(3) by (simp add: pub_GetPool_def pub_AddMoveFundItem_def NeedUpdate_entries [OF assms(1,2)])
  ultimately show ?thesis
    by (intro exI [of _ ?s'])
      (simp add: refresh_steady, simp add: pub_AddMoveFundItem_def jolt_AddMoveFundItem_def)
qed

text \<open>
  C34: the first filling. The chain answers with the newest pool first and \<open>fill_pools\<close> keeps
  that order, so after it the slot that is read as the latest pool holds the older one,
  until the refresh of the next block puts the two in order, filing no pool for emptying.
\<close>

theorem first_fill_reversed:
  assumes "pool_entry e vn = Some pn" and "pool_entry e vo = Some po" and "JoltifyAddress pn \<noteq> JoltifyAddress po"
    and "pub_lastTwoPools (br_pi s) = (None, None)" and "jolt_lastTwoPools (br_jc s) = (None, None)"
  shows "\<exists>s1 s2. fill_pools e [Some vn, Some vo] s = Done s1
    \<and> pub_lastTwoPools (br_pi s1) = (Some pn, Some po) \<and> jolt_lastTwoPools (br_jc s1) = (Some pn, Some po)
    \<and> refresh_pools e h [Some vn, Some vo] s1 = Done s2
    \<and> pub_lastTwoPools (br_pi s2) = (Some po, Some pn) \<and> jolt_lastTwoPools (br_jc s2) = (Some po, Some pn)
    \<and> pub_moveFundReq (br_pi s2) = pub_moveFundReq (br_pi s) \<and> jolt_moveFundReq (br_jc s2) = jolt_moveFundReq (br_jc s)"
proof -
  let ?s1 = "upd_both e vo (upd_both e vn s)"
  have cp: "CreatePool vn \<noteq> None" "CreatePool vo \<noteq> None" using assms(1,2) by (auto elim: pool_entryE)
  have fill: "fill_pools e [Some vn, Some vo] s = Done ?s1"
    using fill_pools_run [of "[vn, vo]" e s] cp by simp
  have p: "pub_lastTwoPools (br_pi ?s1) = (Some pn, Some po)" "jolt_lastTwoPools (br_jc ?s1) = (Some pn, Some po)"
    "pub_moveFundReq (br_pi ?s1) = pub_moveFundReq (br_pi s)" "jolt_moveFundReq (br_jc ?s1) = jolt_moveFundReq (br_jc s)"
    by (simp_all add: upd_both_def pub_upd_eq jolt_upd_eq next_pools_def assms)
  have due: "NeedUpdate e [Some vn, Some vo] (pub_GetPool (br_pi ?s1))"
    using assms(3) by (simp add: pub_GetPool_def p NeedUpdate_entries [OF assms(1,2)])
  let ?s2 = "?s1\<lparr>br_jc := (br_jc ?s1)\<lparr>jolt_lastTwoPools := (Some po, Some pn)\<rparr>,
     br_pi := (br_pi ?s1)\<lparr>pub_lastTwoPools := (Some po, Some pn)\<rparr>\<rparr>"
  have "refresh_pools e h [Some vn, Some vo] ?s1 = Done ?s2"
    using refresh_due [OF due assms(1) p(1,2), of h] by simp
  with fill p show ?thesis by (intro exI [of _ ?s1] exI [of _ ?s2]) simp
qed

text \<open>
  After a rotation that was missed, an update is due at two blocks in a row. The retired pools are filed on
  the public chain under a key of its height; when that did not move in between, the second is
  filed over the first, which is lost there.
\<close>

lemma refresh_twice_overwrites:
  assumes "pool_entry e vd = Some d" and "pool_entry e vc = Some c"
    and "JoltifyAddress c \<noteq> JoltifyAddress b" and "JoltifyAddress d \<noteq> JoltifyAddress b" and "Pk a \<noteq> Pk d" and "Pk b \<noteq> Pk d"
    and "pub_lastTwoPools (br_pi s) = (Some a, Some b)" and "jolt_lastTwoPools (br_jc s) = (Some a, Some b)"
  shows "\<exists>s'. exec_bind (refresh_pools e h1 [Some vd, Some vc] s) (refresh_pools e h2 [Some vd, Some vc]) = Done s'
    \<and> pub_lastTwoPools (br_pi s') = (Some d, Some d)
    \<and> jolt_moveFundReq (br_jc s') = sm_Store (h2 - 1) b (sm_Store (h1 - 1) a (jolt_moveFundReq (br_jc s)))
    \<and> (\<forall>k. sm_Load k (pub_moveFundReq (br_pi s'))
         = (if k = pub_CurrentHeight (br_pi s) - 1 then Some b else sm_Load k (pub_moveFundReq (br_pi s))))"
proof -
  let ?k = "pub_CurrentHeight (br_pi s) - 1"
  let ?s1 = "s\<lparr>br_jc := jolt_AddMoveFundItem a (h1 - 1) ((br_jc s)\<lparr>jolt_lastTwoPools := (Some b, Some d)\<rparr>),
     br_pi := pub_AddMoveFundItem a ?k ((br_pi s)\<lparr>pub_lastTwoPools := (Some b, Some d)\<rparr>)\<rparr>"
  have due: "NeedUpdate e [Some vd, Some vc] (pub_GetPool (br_pi s))"
    using assms(4) by (simp add: pub_GetPool_def assms(7) NeedUpdate_entries [OF assms(1,2)])
  have r1: "refresh_pools e h1 [Some vd, Some vc] s = Done ?s1"
    using refresh_due [OF due assms(1,7,8), of h1] assms(5) by simp
  have p1: "pub_lastTwoPools (br_pi ?s1) = (Some b, Some d)" "jolt_lastTwoPools (br_jc ?s1) = (Some b, Some d)"
    "pub_CurrentHeight (br_pi ?s1) = pub_CurrentHeight (br_pi s)"
    by (simp_all add: pub_AddMoveFundItem_def jolt_AddMoveFundItem_def)
  let ?s2 = "?s1\<lparr>br_jc := jolt_AddMoveFundItem b (h2 - 1) ((br_jc ?s1)\<lparr>jolt_lastTwoPools := (Some d, Some d)\<rparr>),
     br_pi := pub_AddMoveFundItem b ?k ((br_pi ?s1)\<lparr>pub_lastTwoPools := (Some d, Some d)\<rparr>)\<rparr>"
  have due1: "NeedUpdate e [Some vd, Some vc] (pub_GetPool (br_pi ?s1))"
    using assms(3) NeedUpdate_cached [OF assms(1,2) p1(1)] by blast
  have r2: "refresh_pools e h2 [Some vd, Some vc] ?s1 = Done ?s2"
    using refresh_due [OF due1 assms(1) p1(1,2), of h2] assms(6) unfolding p1(3) by simp
  show ?thesis
    using r1 r2 by (intro exI [of _ ?s2]) (simp add: pub_AddMoveFundItem_def jolt_AddMoveFundItem_def sm.load_store)
qed

section \<open>Witnesses\<close>

definition sample_pair :: "pool_pair \<Rightarrow> bridge" where
  "sample_pair ps = (initial_bridge ''0x07'' sample_started sample_metric)\<lparr>
     br_pi := (NewChainInstance ''0x07'')\<lparr>pub_lastTwoPools := ps\<rparr>,
     br_jc := sample_started\<lparr>jolt_lastTwoPools := ps\<rparr>\<rparr>"

lemma sample_pair_pools:
  "pub_lastTwoPools (br_pi (sample_pair ps)) = ps" "jolt_lastTwoPools (br_jc (sample_pair ps)) = ps"
  by (simp_all add: sample_pair_def)

lemma sample_letters: "(of_char CHR ''a'' :: byte) = 97" "(of_char CHR ''b'' :: byte) = 98"
  "(of_char CHR ''c'' :: byte) = 99" "(of_char CHR ''d'' :: byte) = 100"
  by simp_all

lemma sample_cached_simps:
  "JoltifyAddress (sample_cached pk) = map of_char pk" "Pk (sample_cached pk) = pk"
  by (simp_all add: sample_cached_def)

theorem rotation_retires_witness:
  "\<exists>s'. refresh_pools sample_ext 9 [Some (sample_vault ''c''), Some (sample_vault ''b'')]
          (sample_pair (Some (sample_cached ''a''), Some (sample_cached ''b''))) = Done s'
      \<and> pub_lastTwoPools (br_pi s') = (Some (sample_cached ''b''), Some (sample_cached ''c''))"
  using rotation_retires [OF sample_entry sample_entry _ _ _ sample_pair_pools, of "''c''" "''b''" "sample_cached ''b''"
      "sample_cached ''a''" 9]
  by (auto simp: sample_cached_simps)

theorem first_fill_reversed_witness:
  "\<exists>s1. fill_pools sample_ext [Some (sample_vault ''c''), Some (sample_vault ''b'')] (sample_pair (None, None)) = Done s1
      \<and> jolt_lastTwoPools (br_jc s1) = (Some (sample_cached ''c''), Some (sample_cached ''b''))"
  using first_fill_reversed [OF sample_entry sample_entry _ sample_pair_pools, of "''c''" "''b''" 9]
  by (auto simp: sample_cached_simps)

end
