(* ===== verification/Bridge_Delivery.thy ===== *)
theory Bridge_Delivery
  imports Bridge_Agreement Bridge_Pools
begin

text \<open>
  From a paid transfer to its mint: a transfer that a public block makes due is broadcast as
  a mint, signed by the latest pool, after the next block of the Joltify chain, when the
  services answer (\<open>paid_transfer_minted\<close>).
\<close>

section \<open>Services that answer\<close>

text \<open>
  The builder, the codec, the keyring, the node and the signature service answer without
  error, the gas of a transaction is in range, and the service signs for the pool \<open>pk\<close> with
  one signature that serialises.
\<close>

definition healthy :: "ext \<Rightarrow> jolt_env \<Rightarrow> string \<Rightarrow> bool" where
  "healthy e env pk \<longleftrightarrow>
     (\<forall>ms b. \<exists>b'. SetMsgs env ms b = Inr b') \<and> (\<exists>key. KeyringKey env = Inr key) \<and> (\<exists>k. UnmarshalPubKey e pk = Inr k)
   \<and> (\<forall>s b. sv_PubKey s \<noteq> None \<longrightarrow> (\<exists>b'. SetSignatures env s b = Inr b')) \<and> (\<forall>tx. \<exists>bs. TxEncoder env tx = Inr bs)
   \<and> (\<exists>ratio. NewDecFromStr e GASFEERATIO = Inr ratio \<and> (\<forall>bs. \<exists>g d w. Simulate env bs = Inr g
        \<and> DecMul e (DecFromUint64 e g) ratio = Some d \<and> DecRoundInt64 e d = Some w))
   \<and> (\<forall>sd tx. \<exists>sb. GetSignBytes env sd tx = Inr sb)
   \<and> (\<forall>msgs h. \<exists>resp sg s. KeySign (je_keysign env) pk msgs h [] TssVersion = Inr resp \<and> ks_Success resp
        \<and> Signatures resp = [sg] \<and> SerializeSig e sg False = Done (Inr s))
   \<and> (\<forall>bs. \<exists>resp. RpcBroadcast env bs = Inr resp \<and> tr_Code resp = 0)
   \<and> (\<forall>a. \<exists>acc. queryAccount a (je_grpc env) = Inr acc)
   \<and> (\<forall>c i n u. \<exists>msg. NewMsgCreateIssueToken env c i n u = Inr msg)"

lemma healthyD:
  assumes "healthy e env pk"
  shows "\<exists>b'. SetMsgs env ms b = Inr b'" and "\<exists>key. KeyringKey env = Inr key" and "\<exists>k. UnmarshalPubKey e pk = Inr k"
    and "sv_PubKey s \<noteq> None \<Longrightarrow> \<exists>b'. SetSignatures env s b = Inr b'" and "\<exists>bs. TxEncoder env tx = Inr bs"
    and "\<exists>ratio. NewDecFromStr e GASFEERATIO = Inr ratio \<and> (\<forall>bs. \<exists>g d w. Simulate env bs = Inr g
        \<and> DecMul e (DecFromUint64 e g) ratio = Some d \<and> DecRoundInt64 e d = Some w)"
    and "\<exists>sb. GetSignBytes env sd tx = Inr sb"
    and "\<exists>resp sg s. KeySign (je_keysign env) pk msgs h [] TssVersion = Inr resp \<and> ks_Success resp
        \<and> Signatures resp = [sg] \<and> SerializeSig e sg False = Done (Inr s)"
    and "\<exists>resp. RpcBroadcast env bs = Inr resp \<and> tr_Code resp = 0" and "\<exists>acc. queryAccount a (je_grpc env) = Inr acc"
    and "\<exists>msg. NewMsgCreateIssueToken env c i n u = Inr msg"
  using assms unfolding healthy_def by blast+

lemma GasEstimation_healthy:
  assumes "healthy e env pk"
  shows "\<exists>g. GasEstimation e env ms accSeq (Some (pool_signMsg pk h)) = Done (Inr g)"
proof -
  obtain b0 where b0: "SetMsgs env ms (NewTxBuilder env) = Inr b0" using healthyD(1) [OF assms] by blast
  obtain key where key: "KeyringKey env = Inr key" using healthyD(2) [OF assms] by blast
  obtain k where k: "UnmarshalPubKey e pk = Inr k" using healthyD(3) [OF assms] by blast
  obtain b2 where b2: "SetSignatures env \<lparr>sv_PubKey = Some k, sv_Data = Some None, sv_Sequence = accSeq\<rparr> (SetGasLimit env 200000 b0) = Inr b2"
    using healthyD(4) [OF assms] by (metis SignatureV2.select_convs(1) option.simps(3))
  obtain bs where bs: "TxEncoder env b2 = Inr bs" using healthyD(5) [OF assms] by blast
  obtain ratio g d w where "NewDecFromStr e GASFEERATIO = Inr ratio" "Simulate env bs = Inr g"
    "DecMul e (DecFromUint64 e g) ratio = Some d" "DecRoundInt64 e d = Some w" using healthyD(6) [OF assms] by blast
  then show ?thesis by (simp add: GasEstimation_def SimBroadcastTx_def pool_signMsg_def b0 key k b2 bs)
qed

lemma signTx_healthy:
  assumes "healthy e env pk"
  shows "\<exists>sv. signTx e env tx sd (Some (pool_signMsg pk h)) = Done (Inr sv) \<and> sv_PubKey sv \<noteq> None"
proof -
  obtain sb where sb: "GetSignBytes env sd tx = Inr sb" using healthyD(7) [OF assms] by blast
  obtain k where k: "UnmarshalPubKey e pk = Inr k" using healthyD(3) [OF assms] by blast
  obtain resp sg s where "KeySign (je_keysign env) pk [base64_EncodeToString (Sha256 env sb)] h [] TssVersion = Inr resp"
    "ks_Success resp" "Signatures resp = [sg]" "SerializeSig e sg False = Done (Inr s)" using healthyD(8) [OF assms] by blast
  then show ?thesis by (simp add: signTx_def doTssSign_def pool_signMsg_def sb k)
qed

lemma genSendTx_healthy:
  assumes "healthy e env pk"
  shows "\<exists>tx. genSendTx e env ms accSeq accNum gas (Some (pool_signMsg pk h)) = Done (Inr tx)"
proof -
  obtain b0 where b0: "SetMsgs env ms (NewTxBuilder env) = Inr b0" using healthyD(1) [OF assms] by blast
  obtain key where key: "KeyringKey env = Inr key" using healthyD(2) [OF assms] by blast
  obtain k where k: "UnmarshalPubKey e (sm_Pk (pool_signMsg pk h)) = Inr k" using healthyD(3) [OF assms] by (auto simp: pool_signMsg_def)
  obtain b2 where b2: "SetSignatures env \<lparr>sv_PubKey = Some k, sv_Data = Some None, sv_Sequence = accSeq\<rparr> (SetGasLimit env gas b0) = Inr b2"
    using healthyD(4) [OF assms] by (metis SignatureV2.select_convs(1) option.simps(3))
  obtain sv where sv: "signTx e env b2 \<lparr>sd_ChainID = chainID, sd_AccountNumber = accNum, sd_Sequence = accSeq\<rparr>
      (Some (pool_signMsg pk h)) = Done (Inr sv)" "sv_PubKey sv \<noteq> None" using signTx_healthy [OF assms] by blast
  then obtain b3 where "SetSignatures env sv b2 = Inr b3" using healthyD(4) [OF assms] by blast
  with sv show ?thesis by (simp add: genSendTx_def b0 key k b2)
qed

lemma composeAndSend_healthy:
  assumes "healthy e env pk"
  shows "\<exists>hash sent'. composeAndSend e env msg accSeq accNum (Some (pool_signMsg pk h)) sent = Done ((True, hash, None), sent')"
proof -
  obtain g where g: "GasEstimation e env [msg] accSeq (Some (pool_signMsg pk h)) = Done (Inr g)"
    using GasEstimation_healthy [OF assms] by blast
  obtain tx where tx: "genSendTx e env [msg] accSeq accNum g (Some (pool_signMsg pk h)) = Done (Inr tx)"
    using genSendTx_healthy [OF assms] by blast
  obtain bs where bs: "TxEncoder env tx = Inr bs" using healthyD(5) [OF assms] by blast
  obtain resp where "RpcBroadcast env bs = Inr resp" "tr_Code resp = 0" using healthyD(9) [OF assms] by blast
  then show ?thesis by (simp add: composeAndSend_def g tx bs BroadcastTx_def)
qed

text \<open>Then a request that the chain does not have yet is minted.\<close>

lemma ProcessInBound_healthy:
  assumes "builder_ok env" and "healthy e env (Pk pool)" and "jolt_lastTwoPools jc = (Some old, Some pool)"
    and "PoolPubKeyToJoltAddress e (Pk pool) = Inr creator"
    and "\<not> CheckWhetherAlreadyExist (je_grpc env) (HashHex e (inbound_Hash e item))"
  shows "\<exists>msg tx txBytes hash. ProcessInBound e env item jc sent
      = Done ((hash, HashHex e (inbound_Hash e item), None), sent @ [txBytes])
    \<and> TxEncoder env tx = Inr txBytes \<and> ct_Msgs tx = [msg]
    \<and> NewMsgCreateIssueToken env (AccString e creator) (HashHex e (inbound_Hash e item)) (CoinString env (ir_coin item))
        (AccString e (ir_address item)) = Inr msg
    \<and> tss_signed e env (pool_signMsg (Pk pool) (ir_blockHeight item)) tx"
proof -
  let ?idx = "HashHex e (inbound_Hash e item)"
  obtain acc where acc: "queryAccount (AccString e (JoltifyAddress pool)) (je_grpc env) = Inr acc"
    using healthyD(10) [OF assms(2)] by blast
  obtain msg where msg: "NewMsgCreateIssueToken env (AccString e creator) ?idx (CoinString env (ir_coin item))
      (AccString e (ir_address item)) = Inr msg" using healthyD(11) [OF assms(2)] by blast
  obtain hash sent' where c: "composeAndSend e env msg (acc_Sequence acc) (acc_AccountNumber acc)
      (Some (pool_signMsg (Pk pool) (ir_blockHeight item))) sent = Done ((True, hash, None), sent')"
    using composeAndSend_healthy [OF assms(2)] by blast
  have run: "ProcessInBound e env item jc sent = Done ((hash, ?idx, None), sent')"
    using assms(3-5) acc msg c
    by (simp add: ProcessInBound_def jolt_GetPool_def prepareIssueTokenRequest_def GetInboundReqInfo_def Let_def
        pool_signMsg_def)
  from assms(1) c show ?thesis
  proof (cases rule: composeAndSend_cases)
    case (one tx txBytes)
    then show ?thesis using run msg by auto
  qed simp
qed

section \<open>The way of one request\<close>

lemma fold_upd_both_queues:
  "InboundReqChan (br_pi (fold (upd_both e) vs s)) = InboundReqChan (br_pi s)
   \<and> RetryInboundReq (br_pi (fold (upd_both e) vs s)) = RetryInboundReq (br_pi s)"
  by (induction vs arbitrary: s) (simp_all add: upd_both_def pub_upd_eq)

text \<open>A block of the Joltify chain that names two pools changes the queues by one retry.\<close>

lemma jolt_block_queues:
  assumes "on_jolt_block e env h s = Done s'" and "QueryLastPoolAddress (je_grpc env) = Inr vs" and "length vs = 2"
  shows "\<exists>s1 s2. br_pi s1 = br_pi s \<and> retry_inbound h s1 = Done s2
    \<and> InboundReqChan (br_pi s') = InboundReqChan (br_pi s2) \<and> RetryInboundReq (br_pi s') = RetryInboundReq (br_pi s2)"
proof -
  obtain r jc1 sent1 where cp: "CheckAndUpdatePool e env h (br_jc s) (br_joltSent s) = Done (r, jc1, sent1)"
    using assms by (auto simp: on_jolt_block_def exec_bind_eq_Done_iff)
  let ?s1 = "s\<lparr>br_jc := jc1\<lparr>jolt_CurrentHeight := h\<rparr>, br_joltSent := sent1\<rparr>"
  obtain s2 where s2: "retry_inbound h ?s1 = Done s2"
    and rest: "(if pub_GetPool (br_pi s2) ! 0 = None then fill_pools e vs s2
         else exec_bind (refresh_pools e h vs s2) (move_jolt_funds e env h vs)) = Done s'"
    using assms cp by (auto simp: on_jolt_block_def exec_bind_eq_Done_iff)
  have "InboundReqChan (br_pi s') = InboundReqChan (br_pi s2) \<and> RetryInboundReq (br_pi s') = RetryInboundReq (br_pi s2)"
  proof (cases "pub_GetPool (br_pi s2) ! 0 = None")
    case True
    then have "fill_pools e vs s2 = Done s'" using rest by simp
    from fill_pools_frame [OF this] show ?thesis using fold_upd_both_queues by blast
  next
    case False
    then obtain s3 where s3: "refresh_pools e h vs s2 = Done s3" and m: "move_jolt_funds e env h vs s3 = Done s'"
      using rest by (auto simp: exec_bind_eq_Done_iff)
    from s3 show ?thesis
      by (cases rule: refresh_pools_frame)
        (simp_all add: move_jolt_funds_pools [OF m] upd_both_def pub_upd_eq pub_AddMoveFundItem_def)
  qed
  then show ?thesis using s2 by (intro exI [of _ ?s1] exI [of _ s2]) simp
qed

lemma retry_inbound_single:
  assumes "RetryInboundReq (br_pi s) = [(k, r)]" and "0 < k" and "InboundReqChan (br_pi s) = []"
    and "retry_inbound h s = Done s'"
  shows "InboundReqChan (br_pi s') = [inbound_SetItemHeight h r]"
  using assms
  by (auto simp: retry_inbound_def pub_PopItem_def scan_max_def exec_bind_eq_Done_iff chan_send_Done_iff Let_def split: if_splits)

lemma retry_inbound_empty:
  assumes "RetryInboundReq (br_pi s) = []" and "retry_inbound h s = Done s'"
  shows "InboundReqChan (br_pi s') = InboundReqChan (br_pi s)"
  using assms by (auto simp: retry_inbound_def pub_PopItem_def scan_max_def)

text \<open>A single request that is queued anywhere is in the channel after the next such block.\<close>

lemma single_to_channel:
  assumes "pub_inv e (br_pi s)" and "queued (br_pi s) = {#(sender, amount, i)#}"
    and "0 < HashBig e (Keccak256Hash e [sender, i])"
    and "on_jolt_block e env h s = Done s'" and "QueryLastPoolAddress (je_grpc env) = Inr vs" and "length vs = 2"
  shows "\<exists>r. InboundReqChan (br_pi s') = [r] \<and> mint_id r = (sender, amount, i) \<and> Denom (ir_coin r) = InBoundDenom"
proof -
  obtain s1 s2 where s1: "br_pi s1 = br_pi s" and s2: "retry_inbound h s1 = Done s2"
    and q: "InboundReqChan (br_pi s') = InboundReqChan (br_pi s2)"
    using jolt_block_queues [OF assms(4-6)] by blast
  let ?all = "mset (InboundReqChan (br_pi s) @ map snd (RetryInboundReq (br_pi s)))"
  have all: "image_mset mint_id ?all = {#(sender, amount, i)#}" using assms(2) by (simp add: queued_def pub_retry_bag_def)
  then have "size ?all = 1" by (metis size_image_mset size_single)
  then obtain r where m: "?all = {#r#}" using size_1_singleton_mset by blast
  then have r: "mint_id r = (sender, amount, i)" using all unfolding m by simp
  have ok: "pub_retry_ok e (br_pi s)" "\<forall>r \<in> set (InboundReqChan (br_pi s)) \<union> snd ` set (RetryInboundReq (br_pi s)). Denom (ir_coin r) = InBoundDenom"
    using assms(1) by (simp_all add: pub_inv_def queued_ok_def)
  have key: "inbound_key e r = HashBig e (Keccak256Hash e [sender, i])"
    using r by (simp add: inbound_key_def inbound_Hash_def mint_id_def)
  consider (chan) "InboundReqChan (br_pi s) = [r]" "RetryInboundReq (br_pi s) = []"
    | (retry) k where "InboundReqChan (br_pi s) = []" "RetryInboundReq (br_pi s) = [(k, r)]"
    using m by (auto simp only: mset_single_iff append_eq_Cons_conv map_eq_Cons_conv Nil_is_map_conv append_is_Nil_conv)
      (auto simp: map_eq_Cons_conv)
  then show ?thesis
  proof cases
    case chan
    then show ?thesis using retry_inbound_empty [OF _ s2] s1 q r ok(2) by auto
  next
    case retry
    then have "k = inbound_key e r" using ok(1) by (simp add: pub_retry_ok_def)
    then show ?thesis
      using retry retry_inbound_single [OF _ _ _ s2] s1 q r ok(2) key assms(3)
      by (auto simp: mint_id_def inbound_SetItemHeight_def)
  qed
qed

section \<open>The mint of a paid transfer\<close>

text \<open>A public block starts no check.\<close>

lemma pub_block_checks: "on_pub_block e penv senv env n block s = Done s' \<Longrightarrow> br_checks s' = br_checks s"
proof -
  assume "on_pub_block e penv senv env n block s = Done s'"
  then obtain pi2 s1 where r: "retry_outbound (of_nat n) (s\<lparr>br_pi := pi2\<rparr>) = Done s1"
    and m: "move_pub_funds e senv env (of_nat n) s1 = Done s'"
    by (auto simp: on_pub_block_def exec_bind_eq_Done_iff Let_def)
  have "br_checks s1 = br_checks s" by (rule retry_outbound_frame [OF r]) simp_all
  then show ?thesis using move_pub_funds_frame [OF m] by auto
qed

lemma take_and_mint:
  assumes "builder_ok env" and "bridge_inv e s" and "InboundReqChan (br_pi s) = [r]"
    and "jolt_lastTwoPools (br_jc s) = (Some old, Some pool)" and "signs env s" and "healthy e env (Pk pool)"
    and "\<not> CheckWhetherAlreadyExist (je_grpc env) (HashHex e (inbound_Hash e r))"
  shows "\<exists>s' creator msg tx txBytes. on_inbound e env s = Done s'
    \<and> PoolPubKeyToJoltAddress e (Pk pool) = Inr creator
    \<and> br_joltSent s' = br_joltSent s @ [txBytes] \<and> TxEncoder env tx = Inr txBytes \<and> ct_Msgs tx = [msg]
    \<and> NewMsgCreateIssueToken env (AccString e creator) (HashHex e (inbound_Hash e r)) (CoinString env (ir_coin r))
        (AccString e (ir_address r)) = Inr msg
    \<and> tss_signed e env (pool_signMsg (Pk pool) (ir_blockHeight r)) tx
    \<and> br_checks s' = br_checks s @ [MintCheck r (HashHex e (inbound_Hash e r))]"
proof -
  have "pools_ok e (jolt_lastTwoPools (br_jc s)) (jolt_moveFundReq (br_jc s))" using assms(2) by (simp add: bridge_inv_def)
  then have "known_pool e pool" using assms(4) by (simp add: pools_ok_def)
  then obtain v where "pool_entry e v = Some pool" by (auto simp: known_pool_def)
  then obtain creator where c: "PoolPubKeyToJoltAddress e (Pk pool) = Inr creator" by (elim pool_entryE) simp
  have w: "CheckWhetherSigner env (VaultInfo pool) = Done (Inr True)" using assms(4,5) by (simp add: signs_def)
  obtain msg tx txBytes hash where p: "ProcessInBound e env r (br_jc s) (br_joltSent s)
      = Done ((hash, HashHex e (inbound_Hash e r), None), br_joltSent s @ [txBytes])"
    and rest: "TxEncoder env tx = Inr txBytes" "ct_Msgs tx = [msg]"
      "NewMsgCreateIssueToken env (AccString e creator) (HashHex e (inbound_Hash e r)) (CoinString env (ir_coin r))
        (AccString e (ir_address r)) = Inr msg"
      "tss_signed e env (pool_signMsg (Pk pool) (ir_blockHeight r)) tx"
    using ProcessInBound_healthy [OF assms(1,6,4) c assms(7)] by blast
  have "\<exists>s'. on_inbound e env s = Done s' \<and> br_joltSent s' = br_joltSent s @ [txBytes]
      \<and> br_checks s' = br_checks s @ [MintCheck r (HashHex e (inbound_Hash e r))]"
    using assms(3,4) w p by (simp add: on_inbound_def jolt_GetPool_def Let_def)
  then show ?thesis using c rest by blast
qed

text \<open>
  C3: a paid transfer is minted. When nothing else is in flight and a public block makes one
  transfer due (by the book: the transfer and enough fee, in either order, now or before),
  then whatever path the request takes, over the channel or the retry pool, the next block
  of the Joltify chain that names two pools leaves it alone in the channel, and a node that
  signs for the latest pool broadcasts exactly one transaction for it: the mint of the
  transfer's own amount for its own sender, under the hash of sender and transaction, signed
  with the latest pool's key; then it checks for that hash and the request is still in
  flight. This needs services that answer, a hash that is not 0 and no such mint yet.
\<close>

theorem paid_transfer_minted:
  assumes "sdk_ok M e" and "hash_ok e" and "builder_ok env" and "bridge_inv e s" and "token_not_pool e (br_pi s)"
    and "event_ok (PubBlock penv senv jenv n block)" and "handle e (PubBlock penv senv jenv n block) s = Done s1"
    and "mint_flight s = {#}"
    and "reading_of (PubBlock penv senv jenv n block) = Some x"
    and "owed (fst (view_step e (tokenAddr (br_pi s)) x (view_of s))) = {#(sender, amount, i)#}"
    and "handle e (JoltBlock jenv' h) s1 = Done s2" and "QueryLastPoolAddress (je_grpc jenv') = Inr vs" and "length vs = 2"
    and "jolt_lastTwoPools (br_jc s2) = (Some old, Some pool)" and "signs env s2" and "healthy e env (Pk pool)"
    and "0 < HashBig e (Keccak256Hash e [sender, i])"
    and "idx = HashHex e (Keccak256Hash e [sender, i])" and "\<not> CheckWhetherAlreadyExist (je_grpc env) idx"
  shows "\<exists>s3 r creator msg tx txBytes. handle e (TakeInbound env) s2 = Done s3
    \<and> mint_id r = (sender, amount, i) \<and> PoolPubKeyToJoltAddress e (Pk pool) = Inr creator
    \<and> br_joltSent s3 = br_joltSent s2 @ [txBytes] \<and> TxEncoder env tx = Inr txBytes \<and> ct_Msgs tx = [msg]
    \<and> NewMsgCreateIssueToken env (AccString e creator) idx (CoinString env \<lparr>Denom = InBoundDenom, Amount = amount\<rparr>)
        (AccString e sender) = Inr msg
    \<and> tss_signed e env (pool_signMsg (Pk pool) (ir_blockHeight r)) tx
    \<and> br_checks s3 = br_checks s2 @ [MintCheck r idx] \<and> mint_flight s3 = {#(sender, amount, i)#}"
proof -
  have i1: "bridge_inv e s1" by (rule handle_inv [OF assms(1,4,6,7)])
  have i2: "bridge_inv e s2" using handle_inv [OF assms(1) i1 _ assms(11)] by simp
  have "mint_flight s1 = {#(sender, amount, i)#}"
    using handle_follows [OF assms(1,2,4,5,6,7)] assms(8-10) by (simp add: follows_def)
  moreover have "br_checks s1 = br_checks s" using pub_block_checks assms(7) by simp
  ultimately have q: "queued (br_pi s1) = {#(sender, amount, i)#}" and f1: "mint_flight s1 = {#(sender, amount, i)#}"
    using assms(8) by (simp_all add: mint_flight_def)
  have "pub_inv e (br_pi s1)" using i1 by (simp add: bridge_inv_def)
  from single_to_channel [OF this q assms(17) _ assms(12,13)] assms(11) obtain r where
    r: "InboundReqChan (br_pi s2) = [r]" "mint_id r = (sender, amount, i)" "Denom (ir_coin r) = InBoundDenom" by auto
  have f2: "mint_flight s2 = {#(sender, amount, i)#}" using book_rel.on_jolt_block_R [of e jenv' h s1 s2] assms(11) f1 by simp
  have id: "ir_address r = sender" "HashHex e (inbound_Hash e r) = idx" "ir_coin r = \<lparr>Denom = InBoundDenom, Amount = amount\<rparr>"
    using r(2,3) assms(18) by (auto simp: mint_id_def inbound_Hash_def)
  obtain s3 creator msg tx txBytes where t: "on_inbound e env s2 = Done s3" and rest: "PoolPubKeyToJoltAddress e (Pk pool) = Inr creator"
    "br_joltSent s3 = br_joltSent s2 @ [txBytes]" "TxEncoder env tx = Inr txBytes" "ct_Msgs tx = [msg]"
    "NewMsgCreateIssueToken env (AccString e creator) idx (CoinString env \<lparr>Denom = InBoundDenom, Amount = amount\<rparr>)
        (AccString e sender) = Inr msg"
    "tss_signed e env (pool_signMsg (Pk pool) (ir_blockHeight r)) tx" "br_checks s3 = br_checks s2 @ [MintCheck r idx]"
    using take_and_mint [OF assms(3) i2 r(1) assms(14-16)] assms(19) unfolding id by blast
  have "mint_flight s3 = {#(sender, amount, i)#}" using mint_flight_taken [OF t] assms(15) f2 by simp
  with t rest r(2) show ?thesis
    by (intro exI [of _ s3] exI [of _ r] exI [of _ creator] exI [of _ msg] exI [of _ tx] exI [of _ txBytes]) simp
qed

section \<open>A run for the witness\<close>

lemma retry_inbound_done:
  assumes "pub_retry_ok e (br_pi s)" and "length (InboundReqChan (br_pi s)) < reqCacheSize"
  obtains s' where "retry_inbound h s = Done s'" and "br_jc s' = br_jc s"
proof -
  obtain r pi1 where p: "pub_PopItem (br_pi s) = Done (r, pi1)" using pub_retry.pop_total [OF assms(1)] by blast
  have "InboundReqChan pi1 = InboundReqChan (br_pi s)" using p by (cases rule: pub_PopItem_frame) simp_all
  then have "\<exists>s'. retry_inbound h s = Done s' \<and> br_jc s' = br_jc s"
    using assms(2) p by (cases r) (simp_all add: retry_inbound_def chan_send_def Let_def)
  then show thesis using that by blast
qed

text \<open>A quiet block of the Joltify chain: nothing to submit, no new pool, no funds to move.\<close>

lemma quiet_jolt_block:
  assumes "pub_retry_ok e (br_pi s)" and "length (InboundReqChan (br_pi s)) < reqCacheSize"
    and "msgSendCache (br_jc s) = []" and "jolt_moveFundReq (br_jc s) = []" and "QueryLastPoolAddress (je_grpc env) = Inr vs"
    and "length vs = 2" and "fst (pub_lastTwoPools (br_pi s)) \<noteq> None" and "\<not> NeedUpdate e vs (pub_GetPool (br_pi s))"
  obtains s' where "on_jolt_block e env h s = Done s'"
proof -
  let ?s1 = "s\<lparr>br_jc := (br_jc s)\<lparr>jolt_CurrentHeight := h\<rparr>\<rparr>"
  have up: "CheckAndUpdatePool e env h (br_jc s) (br_joltSent s) = Done ((False, []), br_jc s, br_joltSent s)"
    using assms(3) by (simp add: CheckAndUpdatePool_def)
  obtain s2 where s2: "retry_inbound h ?s1 = Done s2" "br_jc s2 = br_jc ?s1"
    using retry_inbound_done [of e ?s1 h] assms(1,2) by auto
  have p: "pub_GetPool (br_pi s2) = pub_GetPool (br_pi s)" using retry_inbound_pools [OF s2(1)] by (simp add: pub_GetPool_def)
  have "refresh_pools e h vs s2 = Done s2" using refresh_steady assms(8) p by simp
  moreover have "\<exists>s'. move_jolt_funds e env h vs s2 = Done s'"
    using s2(2) assms(4) by (simp add: move_jolt_funds_def jolt_PopMoveFundItemAfterBlock_def scan_min_def Let_def)
  moreover have "pub_GetPool (br_pi s2) ! 0 \<noteq> None" using p assms(7) by (simp add: pub_GetPool_def)
  ultimately show thesis using that up s2 assms(5,6) by (auto simp: on_jolt_block_def)
qed

lemma sample_healthy: "healthy sample_ext sample_jenv ''j''"
proof -
  have "UnmarshalPubKey sample_ext ''j'' = Inr [106]" by (simp add: sample_ext_def)
  moreover have "NewDecFromStr sample_ext GASFEERATIO = Inr (15 * 10 ^ 17)" by (rule sample_sdk)
  ultimately show ?thesis
    by (simp add: healthy_def sample_jenv_def sample_service_def KeySign_def sample_sig_serialised sample_queries_run sample_sdk
        split: option.splits)
qed

lemma sample_named:
  "\<not> NeedUpdate sample_ext [Some (sample_vault ''j''), Some (sample_vault ''k'')] [Some (sample_cached ''k''), Some (sample_cached ''j'')]"
  using NeedUpdate_entries [OF sample_entry sample_entry, of "''j''" "''k''" "sample_cached ''k''" "sample_cached ''j''"] by simp

theorem paid_transfer_minted_witness:
  "\<exists>s1 s2 s3 txBytes. handle sample_ext sample_reads sample_filled = Done s1
    \<and> handle sample_ext (JoltBlock (sample_jenv_pools [Some (sample_vault ''j''), Some (sample_vault ''k'')]) 2) s1 = Done s2
    \<and> handle sample_ext (TakeInbound sample_jenv) s2 = Done s3 \<and> br_joltSent s3 = br_joltSent s2 @ [txBytes]
    \<and> mint_flight s3 = {#([0], 100, [5])#}"
proof -
  let ?vs = "[Some (sample_vault ''j''), Some (sample_vault ''k'')]" and ?ps = "(Some (sample_cached ''k''), Some (sample_cached ''j''))"
  obtain s1 where s1: "handle sample_ext sample_reads sample_filled = Done s1" "br_jc s1 = br_jc sample_filled"
    using sample_reads_run [OF sample_filled_inv] sample_filled_state by blast
  note ok = sample_reading(3) [unfolded sample_reads_def] and h1 = s1(1) [unfolded sample_reads_def]
    and rd = sample_reading(1) [unfolded sample_reads_def]
  have f0: "mint_flight sample_filled = {#}"
    by (simp add: mint_flight_def queued_def pub_retry_bag_def sample_filled_state map_filter_simps)
  have owed: "owed (fst (view_step sample_ext (tokenAddr (br_pi sample_filled)) (ReadBlock sample_penv 100 (Some sample_paid))
      (view_of sample_filled))) = {#([0], 100, [5])#}"
    by (simp add: sample_filled_state sample_view_step)
  have i1: "bridge_inv sample_ext s1" using handle_inv [OF sample_ext_ok sample_filled_inv ok h1] .
  have "follows sample_filled {#} (view_step sample_ext (tokenAddr (br_pi sample_filled)) (ReadBlock sample_penv 100 (Some sample_paid))
      (view_of sample_filled)) s1"
    using handle_follows [OF sample_ext_ok sample_hash_ok sample_filled_inv sample_filled_token ok h1] rd by simp
  then have v1: "pub_lastTwoPools (br_pi s1) = ?ps" "mint_flight s1 = {#([0], 100, [5])#}"
    using f0 by (simp_all add: follows_def sample_filled_state sample_view_step)
  have "size (mint_flight s1) = 1" by (simp only: v1(2) size_single)
  then have "size (queued (br_pi s1)) \<le> 1" by (simp add: mint_flight_def)
  then have len: "length (InboundReqChan (br_pi s1)) < reqCacheSize" by (simp add: queued_def reqCacheSize_def)
  have r1: "pub_retry_ok sample_ext (br_pi s1)" using i1 by (simp add: bridge_inv_def pub_inv_def queued_ok_def)
  have jc: "msgSendCache (br_jc s1) = []" "jolt_moveFundReq (br_jc s1) = []"
    by (simp_all add: s1(2) sample_filled_def upd_both_def jolt_upd_eq initial_bridge_def sample_started_def NewJoltifyBridge_def)
  obtain s2 where s2: "on_jolt_block sample_ext (sample_jenv_pools ?vs) 2 s1 = Done s2"
    using quiet_jolt_block [OF r1 len jc sample_pools_answer [of ?vs]] v1 sample_named by (auto simp: pub_GetPool_def)
  then have h2: "handle sample_ext (JoltBlock (sample_jenv_pools ?vs) 2) s1 = Done s2" by simp
  have "bridge_inv sample_ext s2" using handle_inv [OF sample_ext_ok i1 _ h2] by simp
  moreover have "pub_lastTwoPools (br_pi s2) = ?ps"
    using jolt_block_pools [OF s2] v1 sample_named by (simp add: sample_pools_answer pools_after_def)
  ultimately have p2: "jolt_lastTwoPools (br_jc s2) = ?ps" by (simp add: bridge_inv_def)
  then have sg: "signs sample_jenv s2"
    by (simp add: signs_def CheckWhetherSigner_def sample_jenv_def sample_cached_def sample_vault_def)
  have hk: "healthy sample_ext sample_jenv (Pk (sample_cached ''j''))" using sample_healthy by (simp add: sample_cached_def)
  have kk: "0 < HashBig sample_ext (Keccak256Hash sample_ext [[0], [5]])" by (simp add: sample_ext_def big_SetBytes_def)
  have nx: "\<not> CheckWhetherAlreadyExist (je_grpc sample_jenv) (HashHex sample_ext (Keccak256Hash sample_ext [[0], [5]]))"
    by (simp add: sample_jenv_def sample_queries_run)
  show ?thesis
    using paid_transfer_minted [OF sample_ext_ok sample_hash_ok sample_builder sample_filled_inv sample_filled_token ok h1 f0 rd owed h2
        sample_pools_answer _ p2 sg hk kk refl nx] s1(1) h2 by auto
qed

end
