(* ===== verification/Bridge_Skipped.thy ===== *)
theory Bridge_Skipped
  imports Bridge_Delivery
begin

text \<open>
  A rotation of the pools that a node did not see: the chain went on from one pool over a
  second to a third between two answers the node got. The second pool is never cached and
  never emptied by this node, whatever follows (\<open>missed_rotation_stuck\<close>).
\<close>

section \<open>Where a pool can be\<close>

definition filed :: "(i64, PoolInfo) syncmap \<Rightarrow> PoolInfo set" where
  "filed m = snd ` set m"

lemma filed_store: "sm_wf m \<Longrightarrow> filed (sm_Store h p m) \<subseteq> insert p (filed m)"
  by (auto simp: filed_def set_sm_Store)

lemma filed_shrunk: "fund_shrunk m m' \<Longrightarrow> sm_wf m \<Longrightarrow> filed m' \<subseteq> filed m"
  by (simp add: filed_def fund_shrunk_def)

definition pool_absent :: "string \<Rightarrow> bridge \<Rightarrow> bool" where
  "pool_absent pk s \<longleftrightarrow>
     (\<forall>ps \<in> {pub_lastTwoPools (br_pi s), jolt_lastTwoPools (br_jc s)}. \<forall>p \<in> set_option (fst ps) \<union> set_option (snd ps). Pk p \<noteq> pk)
   \<and> (\<forall>p \<in> filed (pub_moveFundReq (br_pi s)) \<union> filed (jolt_moveFundReq (br_jc s)). Pk p \<noteq> pk)"

text \<open>What the handlers other than that of a Joltify block do to caches and fund queues.\<close>

definition fewer_pools :: "bridge \<Rightarrow> bridge \<Rightarrow> bool" where
  "fewer_pools s s' \<longleftrightarrow> pub_lastTwoPools (br_pi s') = pub_lastTwoPools (br_pi s)
     \<and> jolt_lastTwoPools (br_jc s') = jolt_lastTwoPools (br_jc s)
     \<and> filed (pub_moveFundReq (br_pi s')) \<subseteq> filed (pub_moveFundReq (br_pi s))
     \<and> filed (jolt_moveFundReq (br_jc s')) \<subseteq> filed (jolt_moveFundReq (br_jc s))"

lemma fewer_pools_absent: "fewer_pools s s' \<Longrightarrow> pool_absent pk s \<Longrightarrow> pool_absent pk s'"
  unfolding fewer_pools_def pool_absent_def by blast

lemma fewer_pools_refl [simp]: "fewer_pools s s"
  by (simp add: fewer_pools_def)

lemma fewer_pools_trans: "fewer_pools s t \<Longrightarrow> fewer_pools t u \<Longrightarrow> fewer_pools s u"
  by (auto simp: fewer_pools_def)

lemma fewer_pools_retries:
  "retry_inbound h s = Done s' \<Longrightarrow> fewer_pools s s'" "retry_outbound h s = Done s' \<Longrightarrow> fewer_pools s s'"
  by (auto elim!: retry_inbound_frame retry_outbound_frame simp: fewer_pools_def)

lemma fewer_pools_moves:
  "move_jolt_funds e env h ps s = Done s' \<Longrightarrow> sm_wf (jolt_moveFundReq (br_jc s)) \<Longrightarrow> fewer_pools s s'"
  "move_pub_funds e senv env h s = Done s' \<Longrightarrow> sm_wf (pub_moveFundReq (br_pi s)) \<Longrightarrow> fewer_pools s s'"
  by (auto dest!: move_jolt_funds_frame move_pub_funds_frame simp: fewer_pools_def dest: filed_shrunk [THEN subsetD])

lemma fewer_pools_pub_block:
  assumes "sdk_ok M e" and "bridge_inv e s" and "event_ok (PubBlock penv senv env n block)"
    and "on_pub_block e penv senv env n block s = Done s'"
  shows "fewer_pools s s'"
proof -
  obtain err pi1 s2 where p: "ProcessNewBlock e penv block (br_pi s) = Done (err, pi1)"
    and r: "retry_outbound (of_nat n) (s\<lparr>br_pi := DeleteExpired (of_nat n) (pi1\<lparr>pub_CurrentHeight := of_nat n\<rparr>)\<rparr>) = Done s2"
    and m: "move_pub_funds e senv env (of_nat n) s2 = Done s'"
    using assms(4) by (auto simp: on_pub_block_def exec_bind_eq_Done_iff Let_def)
  have i: "pub_inv e (br_pi s)" "sm_wf (pub_moveFundReq (br_pi s))"
    using assms(2) by (simp_all add: bridge_inv_def pools_ok_def)
  have pi1: "pub_lastTwoPools pi1 = pub_lastTwoPools (br_pi s) \<and> pub_moveFundReq pi1 = pub_moveFundReq (br_pi s)"
  proof (cases block)
    case (Inl x)
    then show ?thesis using p by (simp add: ProcessNewBlock_def)
  next
    case (Inr b)
    then have fold: "exec_fold (process_tx e penv (NumberU64 b)) (Transactions b) (br_pi s) = Done pi1"
      using p by (auto simp: ProcessNewBlock_def processEachBlock_def exec_bind_eq_Done_iff)
    have v: "\<forall>tx \<in> set (Transactions b). 0 \<le> tx_Value tx" using assms(3) Inr by simp
    show ?thesis using processEachBlock_run [OF assms(1) i(1) v fold] processEachBlock_funds [OF fold] by simp
  qed
  let ?t = "s\<lparr>br_pi := DeleteExpired (of_nat n) (pi1\<lparr>pub_CurrentHeight := of_nat n\<rparr>)\<rparr>"
  have t: "fewer_pools s ?t" "pub_moveFundReq (br_pi ?t) = pub_moveFundReq (br_pi s)"
    using pi1 by (simp_all add: fewer_pools_def DeleteExpired_def Let_def)
  have "br_pi s2 = br_pi ?t" by (rule retry_outbound_frame [OF r]) simp_all
  then have "sm_wf (pub_moveFundReq (br_pi s2))" using t(2) i(2) by simp
  then show ?thesis using fewer_pools_trans [OF t(1) fewer_pools_trans [OF fewer_pools_retries(2) [OF r] fewer_pools_moves(2) [OF m]]] by blast
qed

lemma handle_fewer_pools:
  assumes "sdk_ok M e" and "bridge_inv e s" and "event_ok ev" and "handle e ev s = Done s'" and "\<And>env h. ev \<noteq> JoltBlock env h"
  shows "fewer_pools s s'"
proof (cases ev)
  case (ValidatorUpdate env updates)
  then have r: "on_validators e env updates s = Done s'" using assms(4) by simp
  from r obtain q :: "goerror + i64" where "(case q of Inl _ \<Rightarrow> Done s
      | Inr height \<Rightarrow> exec_bind (HandleUpdateValidators e env updates height (br_jc s)) (\<lambda>(_, jc). Done (s\<lparr>br_jc := jc\<rparr>)))
      = Done s'"
    unfolding on_validators_def exec_bind_eq_Done_iff by blast
  then show ?thesis
    by (cases q) (auto simp: exec_bind_eq_Done_iff fewer_pools_def dest!: HandleUpdateValidators_frame)
next
  case (JoltBlock env h)
  then show ?thesis using assms(5) by blast
next
  case (JoltTx env code h tx)
  then have "br_pi s' = br_pi s" "br_jc s' = br_jc s \<or> br_jc s' = fold (jolt_AddItem e) (tx_claims e env h tx (br_jc s)) (br_jc s)"
    using assms(4) by (auto simp: on_jolt_tx_def exec_bind_eq_Done_iff dest!: CheckOutBoundTx_claims [OF assms(1)] split: if_splits)
  then show ?thesis by (auto simp: fewer_pools_def jolt_fold_add)
next
  case (PubBlock penv senv env n block)
  then show ?thesis using fewer_pools_pub_block [OF assms(1,2)] assms(3,4) by simp
next
  case (TakeInbound env)
  then have "on_inbound e env s = Done s'" using assms(4) by simp
  then show ?thesis by (rule on_inbound_frame) (auto simp: fewer_pools_def pub_AddItem_def split: if_splits)
next
  case (TakeOutbound env senv)
  then have "on_outbound e env senv s = Done s'" using assms(4) by simp
  then show ?thesis by (rule on_outbound_frame) (auto simp: fewer_pools_def jolt_AddItem_def split: if_splits)
next
  case (MintChecked n Retry clients)
  then have "on_mint_checked e n Retry clients s = Done s'" using assms(4) by simp
  then show ?thesis by (rule on_mint_checked_frame) (auto simp: fewer_pools_def pub_AddItem_def drop_check_def split: if_splits)
next
  case (SendChecked n Retry envs)
  then have "on_send_checked e n Retry envs s = Done s'" using assms(4) by simp
  then show ?thesis by (rule on_send_checked_frame) (auto simp: fewer_pools_def jolt_AddItem_def drop_check_def split: if_splits)
qed


section \<open>A block of the Joltify chain\<close>

text \<open>Only the pool the chain names first gets into the caches, and only cached pools are filed.\<close>

lemma next_pools_new:
  "p \<in> set_option (fst (next_pools e v ps)) \<union> set_option (snd (next_pools e v ps))
   \<Longrightarrow> p \<in> set_option (fst ps) \<union> set_option (snd ps) \<or> pool_entry e v = Some p"
  by (auto simp: next_pools_def split: option.splits)

lemma refresh_absent:
  assumes "refresh_pools e h vs s = Done s'" and "sm_wf (pub_moveFundReq (br_pi s))" and "sm_wf (jolt_moveFundReq (br_jc s))"
    and "pool_absent pk s" and "GetPoolPubKey (vs ! 0) \<noteq> pk"
  shows "pool_absent pk s' \<and> sm_wf (jolt_moveFundReq (br_jc s'))"
proof -
  have new: "Pk p \<noteq> pk" if v: "vs ! 0 = Some v" and ps: "ps \<in> {pub_lastTwoPools (br_pi s), jolt_lastTwoPools (br_jc s)}"
    and p: "p \<in> set_option (fst (next_pools e v ps)) \<union> set_option (snd (next_pools e v ps))" for v ps p
    using next_pools_new [OF p] ps assms(4,5) v entry_key [of e v p] by (auto simp: pool_absent_def)
  have upd: "pool_absent pk (upd_both e v s)" if "vs ! 0 = Some v" for v
    using new [OF that, of "pub_lastTwoPools (br_pi s)"] new [OF that, of "jolt_lastTwoPools (br_jc s)"] assms(4)
    unfolding pool_absent_def upd_both_def by (auto simp: pub_upd_eq jolt_upd_eq)
  from assms(1) show ?thesis
  proof (cases rule: refresh_pools_frame)
    case same
    then show ?thesis using assms by simp
  next
    case (upd v prev)
    then show ?thesis using \<open>\<And>v. vs ! 0 = Some v \<Longrightarrow> _\<close> assms(3) by (simp add: upd_both_def jolt_upd_eq)
  next
    case (retired v prev)
    have u: "pool_absent pk (upd_both e v s)" using upd retired(1) .
    have prev: "Pk prev \<noteq> pk" using retired(3) assms(4) by (auto simp: pool_absent_def)
    let ?m1 = "jolt_moveFundReq (br_jc s)" and ?m2 = "pub_moveFundReq (br_pi s)"
    have f: "jolt_moveFundReq (br_jc s') = sm_Store (h - MINCHECKBLOCKGAP + 5) prev ?m1"
      "pub_moveFundReq (br_pi s') = sm_Store (pub_CurrentHeight (br_pi s) - MINCHECKBLOCKGAP + 5) prev ?m2"
      "jolt_lastTwoPools (br_jc s') = jolt_lastTwoPools (br_jc (upd_both e v s))"
      "pub_lastTwoPools (br_pi s') = pub_lastTwoPools (br_pi (upd_both e v s))"
      by (simp_all add: retired(4) jolt_AddMoveFundItem_def pub_AddMoveFundItem_def upd_both_def pub_upd_eq jolt_upd_eq)
    have "\<forall>p \<in> filed ?m1 \<union> filed ?m2. Pk p \<noteq> pk" using assms(4) unfolding pool_absent_def by blast
    then have "\<forall>p \<in> filed (jolt_moveFundReq (br_jc s')) \<union> filed (pub_moveFundReq (br_pi s')). Pk p \<noteq> pk"
      using f(1,2) filed_store [OF assms(2)] filed_store [OF assms(3)] prev by fastforce
    moreover have "sm_wf (jolt_moveFundReq (br_jc s'))" using f(1) assms(3) by (simp add: sm.wf_store)
    ultimately show ?thesis using u f(3,4) unfolding pool_absent_def by auto
  qed
qed

text \<open>The two pools a block tells the node about.\<close>

fun answered :: "bridge_event \<Rightarrow> VaultPool option list option" where
  "answered (JoltBlock env h) =
     (case QueryLastPoolAddress (je_grpc env) of Inl _ \<Rightarrow> None | Inr vs \<Rightarrow> if length vs = 2 then Some vs else None)"
| "answered _ = None"

lemma jolt_block_absent:
  assumes "bridge_inv e s" and "on_jolt_block e env h s = Done s'" and "fst (pub_lastTwoPools (br_pi s)) \<noteq> None"
    and "pool_absent pk s" and "\<And>vs. answered (JoltBlock env h) = Some vs \<Longrightarrow> GetPoolPubKey (vs ! 0) \<noteq> pk"
  shows "pool_absent pk s'"
proof -
  obtain r jc1 sent1 where cp: "CheckAndUpdatePool e env h (br_jc s) (br_joltSent s) = Done (r, jc1, sent1)"
    using assms(2) by (auto simp: on_jolt_block_def exec_bind_eq_Done_iff)
  obtain c where c: "jc1 = (br_jc s)\<lparr>msgSendCache := c\<rparr>" using CheckAndUpdatePool_frame [OF cp] by blast
  let ?s1 = "s\<lparr>br_jc := jc1\<lparr>jolt_CurrentHeight := h\<rparr>, br_joltSent := sent1\<rparr>"
  have s1: "fewer_pools s ?s1" by (simp add: fewer_pools_def c)
  show ?thesis
  proof (cases "answered (JoltBlock env h)")
    case None
    then have "s' = ?s1" using assms(2) cp by (auto simp: on_jolt_block_def split: sum.splits if_splits)
    then show ?thesis using fewer_pools_absent [OF s1 assms(4)] by simp
  next
    case (Some vs)
    then obtain s2 where s2: "retry_inbound h ?s1 = Done s2"
      and rest: "(if pub_GetPool (br_pi s2) ! 0 = None then fill_pools e vs s2
           else exec_bind (refresh_pools e h vs s2) (move_jolt_funds e env h vs)) = Done s'"
      using assms(2) cp by (auto simp: on_jolt_block_def exec_bind_eq_Done_iff split: sum.splits if_splits)
    have "pub_lastTwoPools (br_pi s2) = pub_lastTwoPools (br_pi s)" using retry_inbound_pools [OF s2] by simp
    then obtain s3 where s3: "refresh_pools e h vs s2 = Done s3" and m: "move_jolt_funds e env h vs s3 = Done s'"
      using rest assms(3) by (auto simp: pub_GetPool_def exec_bind_eq_Done_iff)
    have funds: "pub_moveFundReq (br_pi s2) = pub_moveFundReq (br_pi s)" "jolt_moveFundReq (br_jc s2) = jolt_moveFundReq (br_jc s)"
      by (rule retry_inbound_frame [OF s2]; simp add: c)+
    have "pool_absent pk s2" using fewer_pools_absent [OF fewer_pools_trans [OF s1 fewer_pools_retries(1) [OF s2]] assms(4)] .
    moreover have "sm_wf (pub_moveFundReq (br_pi s2))" "sm_wf (jolt_moveFundReq (br_jc s2))"
      using assms(1) by (simp_all add: funds bridge_inv_def pools_ok_def)
    ultimately have "pool_absent pk s3 \<and> sm_wf (jolt_moveFundReq (br_jc s3))"
      using refresh_absent [OF s3] assms(5) [OF Some] by blast
    then show ?thesis using fewer_pools_absent [OF fewer_pools_moves(1) [OF m]] by blast
  qed
qed

section \<open>Runs\<close>

definition answers :: "(bridge \<times> bridge_event) list \<Rightarrow> VaultPool option list list" where
  "answers tr = List.map_filter (\<lambda>(s, ev). answered ev) tr"

lemma answers_snoc: "answers (tr @ [(s, ev)]) = answers tr @ (case answered ev of None \<Rightarrow> [] | Some vs \<Rightarrow> [vs])"
  by (induction tr) (auto simp: answers_def map_filter_simps split: option.splits)

text \<open>One event: a full cache stays full and follows the answer.\<close>

lemma handle_pools:
  assumes "sdk_ok M e" and "bridge_inv e s" and "event_ok ev" and "handle e ev s = Done s'"
  shows "pub_lastTwoPools (br_pi s') = (case answered ev of None \<Rightarrow> pub_lastTwoPools (br_pi s)
    | Some vs \<Rightarrow> pools_after e vs (pub_lastTwoPools (br_pi s)))"
proof (cases "\<exists>env h. ev = JoltBlock env h")
  case True
  then obtain env h where ev: "ev = JoltBlock env h" by blast
  then show ?thesis using jolt_block_pools [of e env h s s'] assms(4) by (auto simp: pools_after_def split: sum.splits)
next
  case False
  then have "answered ev = None" by (cases ev) auto
  then show ?thesis using handle_fewer_pools [OF assms] False by (auto simp: fewer_pools_def)
qed

lemma pools_after_full: "fst ps \<noteq> None \<Longrightarrow> snd ps \<noteq> None \<Longrightarrow>
    fst (pools_after e vs ps) \<noteq> None \<and> snd (pools_after e vs ps) \<noteq> None"
  by (auto simp: pools_after_def next_pool_answer_def next_pools_def split: option.splits)

lemma run_pools:
  assumes "bridge_run e s tr s'" and "sdk_ok M e" and "bridge_inv e s"
    and "fst (pub_lastTwoPools (br_pi s)) \<noteq> None" and "snd (pub_lastTwoPools (br_pi s)) \<noteq> None"
  shows "bridge_inv e s' \<and> pub_lastTwoPools (br_pi s') = fold (pools_after e) (answers tr) (pub_lastTwoPools (br_pi s))
    \<and> fst (pub_lastTwoPools (br_pi s')) \<noteq> None \<and> snd (pub_lastTwoPools (br_pi s')) \<noteq> None
    \<and> (pool_absent pk s \<and> (\<forall>vs \<in> set (answers tr). GetPoolPubKey (vs ! 0) \<noteq> pk) \<longrightarrow> pool_absent pk s')"
  using assms
proof (induction rule: bridge_run.induct)
  case (start s)
  then show ?case by (simp add: answers_def map_filter_simps)
next
  case (step s tr s1 ev s')
  note I = step.IH [OF step.prems]
  then have IH: "bridge_inv e s1" "pub_lastTwoPools (br_pi s1) = fold (pools_after e) (answers tr) (pub_lastTwoPools (br_pi s))"
    "fst (pub_lastTwoPools (br_pi s1)) \<noteq> None" "snd (pub_lastTwoPools (br_pi s1)) \<noteq> None"
    "pool_absent pk s \<and> (\<forall>vs \<in> set (answers tr). GetPoolPubKey (vs ! 0) \<noteq> pk) \<longrightarrow> pool_absent pk s1" by blast+
  note p = handle_pools [OF step.prems(1) IH(1) step.hyps(2,3)]
  have "pool_absent pk s'" if "pool_absent pk s1" "\<And>vs. answered ev = Some vs \<Longrightarrow> GetPoolPubKey (vs ! 0) \<noteq> pk"
  proof (cases "\<exists>env h. ev = JoltBlock env h")
    case True
    then show ?thesis using jolt_block_absent [OF IH(1) _ IH(3) that(1)] that(2) step.hyps(3) by auto
  next
    case False
    then show ?thesis using fewer_pools_absent [OF handle_fewer_pools [OF step.prems(1) IH(1) step.hyps(2,3)] that(1)] by blast
  qed
  then show ?case
    using IH p handle_inv [OF step.prems(1) IH(1) step.hyps(2,3)] pools_after_full [OF IH(3,4)]
    by (auto simp: answers_snoc split: option.splits)
qed


lemma pools_after_pair:
  assumes "pool_entry e v0 = Some q0" and "pool_entry e v1 = Some q1"
  shows "pools_after e [Some v0, Some v1] (Some x, Some y) =
    (if JoltifyAddress q0 = JoltifyAddress y \<and> JoltifyAddress q1 = JoltifyAddress x then (Some x, Some y) else (Some y, Some q0))"
  using assms by (simp add: pools_after_def NeedUpdate_entries [OF assms] next_pool_answer_def next_pools_def)

lemma pools_after_repeated:
  assumes "pool_entry e vd = Some d" and "pool_entry e vc = Some c"
    and "JoltifyAddress d \<noteq> JoltifyAddress b" and "JoltifyAddress c \<noteq> JoltifyAddress b" and "JoltifyAddress c \<noteq> JoltifyAddress d"
  shows "fold (pools_after e) (replicate n [Some vd, Some vc]) (Some a, Some b)
    = (if n = 0 then (Some a, Some b) else if n = 1 then (Some b, Some d) else (Some d, Some d))"
proof -
  have stuck: "fold (pools_after e) (replicate k [Some vd, Some vc]) (Some d, Some d) = (Some d, Some d)" for k
    by (induction k) (use assms(5) in \<open>simp_all add: pools_after_pair [OF assms(1,2)]\<close>)
  show ?thesis
  proof (cases n)
    case (Suc m)
    then show ?thesis using assms(3,4) stuck by (cases m) (simp_all add: pools_after_pair [OF assms(1,2)])
  qed simp
qed

section \<open>Property\<close>

text \<open>
  C27: a missed rotation. A node that caches (a, b) when the chain has gone on from b over c
  to d never catches up on c. Over any run of the whole event loop in which no answer names c first, c is
  neither cached nor filed for emptying on either chain, so this node never moves its funds.
  While every answer is (d, c), the caches become (b, d) and then (d, d) and stay so, an update
  being due at each block; the next rotation, to f, ends that with (d, f).
\<close>

theorem missed_rotation_stuck:
  assumes "sdk_ok M e" and "bridge_inv e s" and "bridge_run e s tr s'" and "pub_lastTwoPools (br_pi s) = (Some a, Some b)"
    and "pool_entry e vd = Some d" and "pool_entry e vc = Some c" and "pool_absent (Pk c) s"
    and "JoltifyAddress d \<noteq> JoltifyAddress b" and "JoltifyAddress c \<noteq> JoltifyAddress b" and "JoltifyAddress c \<noteq> JoltifyAddress d"
  shows "((\<forall>vs \<in> set (answers tr). GetPoolPubKey (vs ! 0) \<noteq> Pk c) \<longrightarrow> pool_absent (Pk c) s')
    \<and> (answers tr = replicate n [Some vd, Some vc] \<longrightarrow>
         pub_lastTwoPools (br_pi s') = (if n = 0 then (Some a, Some b) else if n = 1 then (Some b, Some d) else (Some d, Some d))
         \<and> jolt_lastTwoPools (br_jc s') = pub_lastTwoPools (br_pi s') \<and> NeedUpdate e [Some vd, Some vc] (pub_GetPool (br_pi s')))
    \<and> (answers tr = replicate (n + 2) [Some vd, Some vc] @ [[Some vf, Some vd]] \<and> pool_entry e vf = Some f
         \<and> JoltifyAddress f \<noteq> JoltifyAddress d \<longrightarrow> pub_lastTwoPools (br_pi s') = (Some d, Some f))"
proof -
  have full: "fst (pub_lastTwoPools (br_pi s)) \<noteq> None" "snd (pub_lastTwoPools (br_pi s)) \<noteq> None" by (simp_all add: assms(4))
  note run = run_pools [OF assms(3,1,2) full, of "Pk c"]
  note rep = pools_after_repeated [OF assms(5,6,8,9,10), of _ a]
  have "NeedUpdate e [Some vd, Some vc] (pub_GetPool (br_pi s'))"
    if "pub_lastTwoPools (br_pi s') = (if n = 0 then (Some a, Some b) else if n = 1 then (Some b, Some d) else (Some d, Some d))"
    using that assms(8-10) by (auto simp: pub_GetPool_def NeedUpdate_entries [OF assms(5,6)] split: if_splits)
  moreover have "jolt_lastTwoPools (br_jc s') = pub_lastTwoPools (br_pi s')" using run by (simp add: bridge_inv_def)
  moreover have "fold (pools_after e) (replicate (n + 2) [Some vd, Some vc] @ [[Some vf, Some vd]]) (Some a, Some b) = (Some d, Some f)"
    if "pool_entry e vf = Some f" "JoltifyAddress f \<noteq> JoltifyAddress d"
    using that rep [of "n + 2"] by (simp add: pools_after_pair [OF that(1) assms(5)] del: replicate_Suc)
  ultimately show ?thesis using run rep [of n] assms(7) unfolding assms(4) by auto
qed


section \<open>A run for the witness\<close>

lemma jolt_block_due:
  assumes "RetryInboundReq (br_pi s) = []" and "msgSendCache (br_jc s) = []" and "QueryLastPoolAddress (je_grpc env) = Inr [Some v0, Some v1]"
    and "NeedUpdate e [Some v0, Some v1] [Some x, Some y]" and "pool_entry e v0 = Some q" and "Pk x \<noteq> Pk q"
    and "pub_lastTwoPools (br_pi s) = (Some x, Some y)" and "jolt_lastTwoPools (br_jc s) = (Some x, Some y)"
    and "\<not> due h (scan_min (sm_Store (h - 1) x (jolt_moveFundReq (br_jc s))))"
  obtains s' where "on_jolt_block e env h s = Done s'" and "RetryInboundReq (br_pi s') = []" and "msgSendCache (br_jc s') = []"
    and "pub_lastTwoPools (br_pi s') = (Some y, Some q)" and "jolt_lastTwoPools (br_jc s') = (Some y, Some q)"
    and "jolt_moveFundReq (br_jc s') = sm_Store (h - 1) x (jolt_moveFundReq (br_jc s))"
proof -
  let ?s1 = "s\<lparr>br_jc := (br_jc s)\<lparr>jolt_CurrentHeight := h\<rparr>\<rparr>"
  have up: "CheckAndUpdatePool e env h (br_jc s) (br_joltSent s) = Done ((False, []), br_jc s, br_joltSent s)"
    using assms(2) by (simp add: CheckAndUpdatePool_def)
  obtain m where s2: "retry_inbound h ?s1 = Done (?s1\<lparr>br_metric := m\<rparr>)"
    using assms(1) by (simp add: retry_inbound_def pub_PopItem_def scan_max_def Let_def)
  let ?s2 = "?s1\<lparr>br_metric := m\<rparr>"
  have n: "NeedUpdate e [Some v0, Some v1] (pub_GetPool (br_pi ?s2))" using assms(4,7) by (simp add: pub_GetPool_def)
  have p: "pub_lastTwoPools (br_pi ?s2) = (Some x, Some y)" "jolt_lastTwoPools (br_jc ?s2) = (Some x, Some y)" using assms(7,8) by simp_all
  let ?s3 = "?s2\<lparr>br_jc := jolt_AddMoveFundItem x (h - 1) ((br_jc ?s2)\<lparr>jolt_lastTwoPools := (Some y, Some q)\<rparr>),
      br_pi := pub_AddMoveFundItem x (pub_CurrentHeight (br_pi ?s2) - 1) ((br_pi ?s2)\<lparr>pub_lastTwoPools := (Some y, Some q)\<rparr>)\<rparr>"
  have s3: "refresh_pools e h [Some v0, Some v1] ?s2 = Done ?s3"
    using refresh_due [OF n assms(5) p, of h] assms(6) by (simp add: Let_def)
  have "jolt_PopMoveFundItemAfterBlock h (br_jc ?s3) = Done (None, 0, br_jc ?s3)"
    using assms(9) by (simp add: jolt_PopMoveFundItemAfterBlock_def jolt_AddMoveFundItem_def)
  then have s4: "move_jolt_funds e env h [Some v0, Some v1] ?s3 = Done ?s3" by (simp add: move_jolt_funds_def)
  have g: "pub_GetPool (br_pi s) ! 0 = Some x" using assms(7) by (simp add: pub_GetPool_def)
  have "on_jolt_block e env h s = Done ?s3"
    using up s2 s3 s4 g assms(3) by (simp add: on_jolt_block_def)
  then show thesis by (rule that) (simp_all add: assms jolt_AddMoveFundItem_def pub_AddMoveFundItem_def)
qed

theorem missed_rotation_stuck_witness:
  "\<exists>tr s'. bridge_run sample_ext sample_filled tr s' \<and> length tr = 2 \<and> pub_lastTwoPools (br_pi s') = (Some (sample_cached ''d''), Some (sample_cached ''d''))
     \<and> pool_absent ''c'' s'"
proof -
  let ?vs = "[Some (sample_vault ''d''), Some (sample_vault ''c'')]"
  let ?env = "sample_jenv_pools ?vs"
  have p0: "pub_lastTwoPools (br_pi sample_filled) = (Some (sample_cached ''k''), Some (sample_cached ''j''))"
    "jolt_lastTwoPools (br_jc sample_filled) = (Some (sample_cached ''k''), Some (sample_cached ''j''))"
    using sample_filled_inv by (simp_all add: sample_filled_state bridge_inv_def)
  have jc: "msgSendCache (br_jc sample_filled) = []" "jolt_moveFundReq (br_jc sample_filled) = []"
    by (simp_all add: sample_filled_def upd_both_def jolt_upd_eq initial_bridge_def sample_started_def NewJoltifyBridge_def)
  have absent: "pool_absent (Pk (sample_cached ''c'')) sample_filled"
    by (simp add: pool_absent_def p0 jc filed_def sample_filled_state sample_cached_simps)
  have ans: "QueryLastPoolAddress (je_grpc ?env) = Inr ?vs" by (simp add: sample_pools_answer)
  have entry: "pool_entry sample_ext (sample_vault pk) = Some (sample_cached pk)" if "pk \<noteq> []" for pk using sample_entry that by simp
  have need: "NeedUpdate sample_ext ?vs [Some (sample_cached ''k''), Some (sample_cached ''j'')]"
    "NeedUpdate sample_ext ?vs [Some (sample_cached ''j''), Some (sample_cached ''d'')]"
    by (simp_all add: NeedUpdate_entries [OF entry entry] sample_cached_simps)
  have d: "''d'' \<noteq> []" and key: "Pk (sample_cached ''k'') \<noteq> Pk (sample_cached ''d'')" "Pk (sample_cached ''j'') \<noteq> Pk (sample_cached ''d'')"
    by (simp_all add: sample_cached_simps)
  have n1: "\<not> due 2 (scan_min (sm_Store (2 - 1) (sample_cached ''k'') (jolt_moveFundReq (br_jc sample_filled))))"
    by (simp add: jc scan_min_def sm_Store_def due_def MINCHECKBLOCKGAP_def)
  obtain s1 where s1: "on_jolt_block sample_ext ?env 2 sample_filled = Done s1" "RetryInboundReq (br_pi s1) = []" "msgSendCache (br_jc s1) = []"
    "pub_lastTwoPools (br_pi s1) = (Some (sample_cached ''j''), Some (sample_cached ''d''))"
    "jolt_lastTwoPools (br_jc s1) = (Some (sample_cached ''j''), Some (sample_cached ''d''))"
    "jolt_moveFundReq (br_jc s1) = sm_Store (2 - 1) (sample_cached ''k'') []"
    using jolt_block_due [OF sample_filled_state(5) jc(1) ans need(1) entry [OF d] key(1) p0 n1] jc(2) by auto
  have n2: "\<not> due 3 (scan_min (sm_Store (3 - 1) (sample_cached ''j'') (jolt_moveFundReq (br_jc s1))))"
    by (simp add: s1(6) scan_min_def sm_Store_def due_def MINCHECKBLOCKGAP_def)
  obtain s2 where s2: "on_jolt_block sample_ext ?env 3 s1 = Done s2"
    using jolt_block_due [OF s1(2,3) ans need(2) entry [OF d] key(2) s1(4,5) n2] by blast
  let ?tr = "[(sample_filled, JoltBlock ?env 2), (s1, JoltBlock ?env 3)]"
  have run: "bridge_run sample_ext sample_filled ?tr s2"
    using bridge_run.step [OF bridge_run.step [OF bridge_run.start], of "JoltBlock ?env 2" sample_ext sample_filled s1 "JoltBlock ?env 3" s2]
      s1(1) s2 by simp
  have a: "answers ?tr = replicate 2 ?vs" by (simp add: answers_def map_filter_simps ans numeral_2_eq_2)
  show ?thesis
    using missed_rotation_stuck [OF sample_ext_ok sample_filled_inv run p0(1) entry entry absent, of "''d''"] run a
    by (intro exI [of _ ?tr] exI [of _ s2]) (simp add: sample_cached_simps GetPoolPubKey_def sample_vault_def)
qed

end
