(* ===== verification/Bridge_Liveness.thy ===== *)
theory Bridge_Liveness
  imports Bridge_Pools
begin

text \<open>
  When the event loop hangs, and what the retries and the status checks do: a send on a full
  channel by the loop itself, a mint that is retried although it is on the chain, and when
  an outbound request is sent again.
\<close>

section \<open>What cannot hang\<close>

definition no_hang :: "'a exec \<Rightarrow> bool" where
  "no_hang m \<longleftrightarrow> m \<noteq> Block"

lemma no_hang_simps [simp]:
  "no_hang (Done x)" "no_hang (Panic msg)" "\<not> no_hang Block" "no_hang (or_panic msg v)"
  "no_hang (exec_bind m f) \<longleftrightarrow> no_hang m \<and> (\<forall>x. m = Done x \<longrightarrow> no_hang (f x))"
  by (auto simp: no_hang_def exec_bind_eq_Block_iff)

lemma no_hang_copy [simp]: "no_hang (copy_slice xs i j bs)"
  by (simp add: copy_slice_def Let_def)

lemma no_hang_sig [simp]: "no_hang (SerializeSig e sg b)"
  unfolding SerializeSig_def Let_def by (simp split: option.splits)

lemma no_hang_chan [simp]: "no_hang (chan_send cap x c) \<longleftrightarrow> length c < cap"
  by (simp add: no_hang_def chan_send_Block_iff not_le)

lemma no_hang_signTx [simp]: "no_hang (signTx e env tx sd m)"
  by (auto simp: signTx_def Let_def split: option.splits sum.splits)

lemma no_hang_gas [simp]: "no_hang (GasEstimation e env msgs accSeq m)"
  unfolding GasEstimation_def Let_def by (auto split: sum.splits)

lemma no_hang_gen [simp]: "no_hang (genSendTx e env msgs accSeq accNum gas m)"
  unfolding genSendTx_def Let_def by (auto split: sum.splits)

lemma no_hang_send [simp]: "no_hang (composeAndSend e env msg accSeq accNum m sent)"
  unfolding composeAndSend_def by (auto split: sum.splits)

lemma no_hang_submit [simp]: "no_hang (CheckAndUpdatePool e env h jc sent)"
  unfolding CheckAndUpdatePool_def Let_def by (auto split: list.splits sum.splits prod.splits)

lemma no_hang_jolt_MoveFunds [simp]: "no_hang (jolt_MoveFunds e env pool to h sent)"
  unfolding jolt_MoveFunds_def Let_def by (auto split: sum.splits prod.splits)

lemma no_hang_CheckWhetherSigner [simp]: "no_hang (CheckWhetherSigner env v)"
  unfolding CheckWhetherSigner_def by (auto split: sum.splits)

lemma no_hang_pools [simp]: "no_hang (pub_UpdatePool e p pi)" "no_hang (jolt_UpdatePool e p jc)" "no_hang (pool_addr p)"
  unfolding pub_UpdatePool_def jolt_UpdatePool_def pool_addr_def Let_def
  by (auto split: option.splits sum.splits prod.splits)

lemma no_hang_pops [simp]: "no_hang (pub_PopItem pi)" "no_hang (jolt_PopMoveFundItemAfterBlock h jc)"
  unfolding pub_PopItem_def jolt_PopMoveFundItemAfterBlock_def jolt_take_fund_def Let_def
  by (auto split: option.splits prod.splits)

lemma no_hang_fill [simp]: "no_hang (fill_pools e ps s)"
  by (induction ps arbitrary: s) (auto simp: fill_pools_def split: prod.splits)

lemma no_hang_refresh [simp]: "no_hang (refresh_pools e h ps s)"
  unfolding refresh_pools_def by (auto split: prod.splits)

lemma no_hang_move [simp]: "no_hang (move_jolt_funds e env h ps s)"
  unfolding move_jolt_funds_def Let_def by (auto split: option.splits sum.splits prod.splits)

section \<open>Hanging on a full channel\<close>

lemma retry_inbound_hangs:
  assumes "pub_retry_ok e (br_pi s)"
  shows "no_hang (retry_inbound h s) \<longleftrightarrow>
     \<not> ((\<exists>r \<in># pub_retry_bag (br_pi s). 0 < inbound_key e r) \<and> reqCacheSize \<le> length (InboundReqChan (br_pi s)))"
  using assms
proof (cases rule: pub_retry.pop_cases)
  case none
  then show ?thesis by (auto simp: retry_inbound_def)
next
  case (some r pi1)
  from some(1) have "InboundReqChan pi1 = InboundReqChan (br_pi s)"
    by (cases rule: pub_PopItem_frame) simp_all
  moreover have "\<exists>r \<in># pub_retry_bag (br_pi s). 0 < inbound_key e r"
  proof (rule ccontr)
    assume "\<not> ?thesis"
    then have "pub_PopItem (br_pi s) = Done (None, br_pi s)" using pub_retry.pop_none [OF assms] by simp
    with some(1) show False by simp
  qed
  ultimately show ?thesis
    using some(1) by (simp add: retry_inbound_def not_le)
qed

text \<open>
  C24: when the handler of a Joltify block hangs. It blocks for ever exactly when the chain names
  two pools, a failed mint request with a non-zero hash waits to be retried and the channel
  it is put back on is full: that channel's only receiver is the loop itself. Nothing else
  in the handler can hang.
\<close>

theorem jolt_block_hangs_iff:
  assumes "bridge_inv e s"
  shows "on_jolt_block e env h s = Block \<longleftrightarrow>
     (\<exists>r ps. CheckAndUpdatePool e env h (br_jc s) (br_joltSent s) = Done r \<and> QueryLastPoolAddress (je_grpc env) = Inr ps \<and> length ps = 2
        \<and> (\<exists>req \<in># pub_retry_bag (br_pi s). 0 < inbound_key e req) \<and> reqCacheSize \<le> length (InboundReqChan (br_pi s)))"
proof -
  have ok: "pub_retry_ok e (br_pi s)" using assms by (simp add: bridge_inv_def pub_inv_def queued_ok_def)
  have iff: "no_hang (retry_inbound h (s\<lparr>br_jc := jc, br_joltSent := sent\<rparr>)) \<longleftrightarrow>
     \<not> ((\<exists>req \<in># pub_retry_bag (br_pi s). 0 < inbound_key e req) \<and> reqCacheSize \<le> length (InboundReqChan (br_pi s)))" for jc sent
    using retry_inbound_hangs [of e "s\<lparr>br_jc := jc, br_joltSent := sent\<rparr>" h] ok by simp
  have "on_jolt_block e env h s = Block \<longleftrightarrow> \<not> no_hang (on_jolt_block e env h s)"
    by (simp add: no_hang_def)
  also have "\<dots> \<longleftrightarrow> (\<exists>r ps. CheckAndUpdatePool e env h (br_jc s) (br_joltSent s) = Done r \<and> QueryLastPoolAddress (je_grpc env) = Inr ps \<and> length ps = 2
        \<and> (\<exists>req \<in># pub_retry_bag (br_pi s). 0 < inbound_key e req) \<and> reqCacheSize \<le> length (InboundReqChan (br_pi s)))"
    unfolding on_jolt_block_def Let_def
    by (cases "QueryLastPoolAddress (je_grpc env)") (auto simp: iff split: prod.splits)
  finally show ?thesis .
qed

definition sample_stuck :: bridge where
  "sample_stuck = (initial_bridge ''0x07'' sample_started sample_metric)\<lparr>br_pi := pub_AddItem sample_ext sample_mint
     ((NewChainInstance ''0x07'')\<lparr>pub_lastTwoPools := (None, Some (sample_cached ''k'')),
        InboundReqChan := replicate reqCacheSize sample_mint\<rparr>),
     br_jc := sample_started\<lparr>jolt_lastTwoPools := (None, Some (sample_cached ''k''))\<rparr>\<rparr>"

lemma sample_cached_known: "pk \<noteq> [] \<Longrightarrow> known_pool sample_ext (sample_cached pk)"
  using sample_entry unfolding known_pool_def by blast

theorem jolt_block_hangs_iff_witness:
  "on_jolt_block sample_ext (sample_jenv_pools [Some (sample_vault ''k''), Some (sample_vault ''j'')]) 5 sample_stuck = Block"
proof -
  have inv: "bridge_inv sample_ext sample_stuck"
    using sample_cached_known [of "''k''"]
    by (simp add: sample_stuck_def bridge_inv_def initial_bridge_def NewChainInstance_def sample_started_def NewJoltifyBridge_def
        pub_inv_def pending_ok_def queued_ok_def pub_retry_ok_def pub_AddItem_def jolt_queues_ok_def jolt_retry_ok_def
        pools_ok_def sample_mint_def config_defs)
  have key: "0 < inbound_key sample_ext sample_mint"
    by (simp add: inbound_key_def inbound_Hash_def sample_mint_def big_SetBytes_def)
  have up: "CheckAndUpdatePool sample_ext env 5 (br_jc sample_stuck) (br_joltSent sample_stuck)
      = Done ((False, []), br_jc sample_stuck, br_joltSent sample_stuck)" for env
    by (simp add: CheckAndUpdatePool_def sample_stuck_def sample_started_def NewJoltifyBridge_def)
  have "sample_mint \<in># pub_retry_bag (br_pi sample_stuck)" "length (InboundReqChan (br_pi sample_stuck)) = reqCacheSize"
    by (simp_all add: sample_stuck_def pub_AddItem_def pub_retry_bag_def)
  then show ?thesis
    unfolding jolt_block_hangs_iff [OF inv] using up key by (auto simp: sample_pools_answer)
qed

section \<open>Retries and checks\<close>

text \<open>
  When another node submitted a mint first, \<open>ProcessInBound\<close> returns no error but an empty index, so the
  check that follows looks for the empty index; no poll finds it, and the request is put
  back into the retry pool. Nothing is broadcast. This is one round of
  \<open>minted_request_recycles\<close> of \<open>Bridge_Recycle\<close>.
\<close>

lemma minted_round:
  assumes "InboundReqChan (br_pi s) = item # c" and "jolt_lastTwoPools (br_jc s) = (Some p0, Some p1)"
    and "CheckWhetherSigner env (VaultInfo p1) = Done (Inr True)"
    and "PoolPubKeyToJoltAddress e (Pk p1) = Inr creator" and "queryAccount (AccString e (JoltifyAddress p1)) (je_grpc env) = Inr acc"
    and "CheckWhetherAlreadyExist (je_grpc env) (HashHex e (inbound_Hash e item))"
    and "retry_ok Retry" and "\<forall>k. \<not> CheckWhetherAlreadyExist (clients k) []" and "n = length (br_checks s)"
  shows "\<exists>s1. on_inbound e env s = Done s1 \<and> br_checks s1 = br_checks s @ [MintCheck item []]
    \<and> on_mint_checked e n Retry clients s1
        = Done (s\<lparr>br_pi := pub_AddItem e item ((br_pi s)\<lparr>InboundReqChan := c\<rparr>)\<rparr>)"
proof -
  let ?s1 = "s\<lparr>br_pi := (br_pi s)\<lparr>InboundReqChan := c\<rparr>, br_checks := br_checks s @ [MintCheck item []]\<rparr>"
  have "ProcessInBound e env item (br_jc s) sent = Done (([], [], None), sent)" for sent
    using assms(2,4,5,6)
    by (simp add: ProcessInBound_def jolt_GetPool_def CheckWhetherAlreadyExist_def Let_def)
  then have run: "on_inbound e env s = Done ?s1"
    using assms(1,2,3) by (simp add: on_inbound_def jolt_GetPool_def Let_def)
  let ?op = "\<lambda>k. if CheckWhetherAlreadyExist (clients k) [] then None else Some ''fail to find the tx''"
  have op: "?op k = Some ''fail to find the tx''" for k using assms(8) by simp
  have "snd (Retry ?op) = ?op (fst (Retry ?op))" using assms(7) unfolding retry_ok_def by blast
  then have "jolt_CheckTxStatus Retry clients [] = Some ''fail to find the tx''"
    unfolding jolt_CheckTxStatus_def Let_def by (simp only: op)
  then have "on_mint_checked e n Retry clients ?s1 = Done (s\<lparr>br_pi := pub_AddItem e item ((br_pi s)\<lparr>InboundReqChan := c\<rparr>)\<rparr>)"
    by (auto simp: on_mint_checked_def drop_check_def Let_def assms(9) pub_AddItem_def intro!: bridge.equality)
  with run show ?thesis by (intro exI [of _ ?s1]) simp
qed

definition sample_busy :: bridge where
  "sample_busy = (initial_bridge ''0x07'' sample_started sample_metric)\<lparr>
     br_pi := (NewChainInstance ''0x07'')\<lparr>pub_lastTwoPools := (Some (sample_cached ''j''), Some (sample_cached ''k'')),
        InboundReqChan := [sample_mint]\<rparr>,
     br_jc := sample_started\<lparr>jolt_lastTwoPools := (Some (sample_cached ''j''), Some (sample_cached ''k''))\<rparr>\<rparr>"

definition first_answer :: backoff_retry where
  "first_answer op = (0, op 0)"

lemma first_answer_ok: "retry_ok first_answer"
  by (simp add: retry_ok_def first_answer_def)

definition sample_minted_env :: jolt_env where
  "sample_minted_env = sample_jenv\<lparr>je_grpc := sample_grpc\<lparr>rpc_IssueToken :=
     (\<lambda>i. if i = [] then Inl ''not found'' else Inr (Some [1]))\<rparr>\<rparr>"

lemma sample_minted_round:
  "\<exists>s1. on_inbound sample_ext sample_minted_env sample_busy = Done s1
     \<and> br_checks s1 = [MintCheck sample_mint []]
     \<and> on_mint_checked sample_ext 0 first_answer (\<lambda>_. sample_grpc) s1 = Done (sample_busy\<lparr>br_pi :=
         pub_AddItem sample_ext sample_mint ((br_pi sample_busy)\<lparr>InboundReqChan := []\<rparr>)\<rparr>)"
proof -
  have "CheckWhetherSigner sample_minted_env (VaultInfo (sample_cached ''k'')) = Done (Inr True)"
    by (simp add: CheckWhetherSigner_def sample_minted_env_def sample_jenv_def sample_cached_def sample_vault_def)
  moreover have "PoolPubKeyToJoltAddress sample_ext (Pk (sample_cached ''k'')) = Inr [107]"
    by (simp add: sample_cached_def sample_PoolPubKey)
  moreover have "queryAccount a (je_grpc sample_minted_env) = Inr \<lparr>acc_Sequence = 1, acc_AccountNumber = 2, acc_PubKey = Some [5]\<rparr>" for a
    by (simp add: sample_minted_env_def queryAccount_def sample_grpc_def)
  moreover have "CheckWhetherAlreadyExist (je_grpc sample_minted_env) (HashHex sample_ext h)" for h
    by (simp add: sample_minted_env_def CheckWhetherAlreadyExist_def queryGivenToeknIssueTx_def sample_ext_def)
  moreover have "\<not> CheckWhetherAlreadyExist sample_grpc []" by (simp add: sample_queries_run)
  moreover have "br_checks sample_busy = []" by (simp add: sample_busy_def initial_bridge_def)
  ultimately show ?thesis
    using minted_round [of sample_busy sample_mint "[]" "sample_cached ''j''" "sample_cached ''k''" sample_minted_env sample_ext
        "[107]" "\<lparr>acc_Sequence = 1, acc_AccountNumber = 2, acc_PubKey = Some [5]\<rparr>" first_answer "\<lambda>_. sample_grpc" 0]
      first_answer_ok
    by (simp add: sample_busy_def)
qed

text \<open>
  C29: when an outbound request is sent again. After its transaction was broadcast, the request
  goes back to the retry pool exactly when the polling ended without an error and the last
  receipt did not report success; when no receipt could be had at all, the request is
  dropped, paid or not.
\<close>

theorem resend_iff_failed_receipt:
  assumes "retry_ok Retry" and "n < length (br_checks s)" and "br_checks s ! n = SendCheck item hash"
    and "\<forall>k. Receipt (envs k) (HexToHash e hash) \<noteq> Inl ''tx failed''"
  shows "\<exists>k. (\<forall>i < k. \<exists>err. Receipt (envs i) (HexToHash e hash) = Inl err)
    \<and> on_send_checked e n Retry envs s = Done (
        if \<exists>status. Receipt (envs k) (HexToHash e hash) = Inr status \<and> status \<noteq> 1
        then (drop_check n s)\<lparr>br_jc := jolt_AddItem e item (br_jc s)\<rparr> else drop_check n s)"
proof -
  obtain k where "\<forall>i < k. \<exists>err. Receipt (envs i) (HexToHash e hash) = Inl err"
    and "pub_CheckTxStatus e Retry envs hash = (case Receipt (envs k) (HexToHash e hash) of
      Inl err \<Rightarrow> Some err | Inr st \<Rightarrow> if st = 1 then None else Some ''tx failed'')"
    using CheckTxStatus_last [OF assms(1)] by blast
  then show ?thesis
    using assms(2,3) assms(4) [THEN spec [of _ k]]
    by (intro exI [of _ k], cases "Receipt (envs k) (HexToHash e hash)")
      (auto simp: on_send_checked_def Let_def drop_check_def)
qed

theorem resend_iff_failed_receipt_witness:
  "on_send_checked sample_ext 0 first_answer (\<lambda>_. sample_env\<lparr>Receipt := (\<lambda>_. Inr 0)\<rparr>)
      (sample_busy\<lparr>br_checks := [SendCheck (newOutboundReq ''05'' [5] [9] \<lparr>Denom = ''JUSD'', Amount = 77\<rparr> 3) ''ab'']\<rparr>)
   = Done (sample_busy\<lparr>br_checks := [], br_jc := jolt_AddItem sample_ext
        (newOutboundReq ''05'' [5] [9] \<lparr>Denom = ''JUSD'', Amount = 77\<rparr> 3) (br_jc sample_busy)\<rparr>)"
  using resend_iff_failed_receipt [OF first_answer_ok, of 0
      "sample_busy\<lparr>br_checks := [SendCheck (newOutboundReq ''05'' [5] [9] \<lparr>Denom = ''JUSD'', Amount = 77\<rparr> 3) ''ab'']\<rparr>"
      "newOutboundReq ''05'' [5] [9] \<lparr>Denom = ''JUSD'', Amount = 77\<rparr> 3" "''ab''"
      "\<lambda>_. sample_env\<lparr>Receipt := (\<lambda>_. Inr 0)\<rparr>" sample_ext]
  by (auto simp: drop_check_def)

section \<open>Starving in the retry pool\<close>

text \<open>A failed mint request is put on the channel at a Joltify block and tried again.\<close>

definition retry_round :: "ext \<Rightarrow> jolt_env \<times> i64 \<Rightarrow> bridge \<Rightarrow> bridge exec" where
  "retry_round e = (\<lambda>(env, h) s. exec_bind (retry_inbound h s) (on_inbound e env))"

text \<open>Minting \<open>r\<close> fails in this round: this node signs for the latest pool, and \<open>ProcessInBound\<close> gives an error.\<close>

definition mint_fails :: "ext \<Rightarrow> JoltifyChainInstance \<Rightarrow> InboundReq \<Rightarrow> jolt_env \<times> i64 \<Rightarrow> bool" where
  "mint_fails e jc r = (\<lambda>(env, h).
     (\<exists>p1. snd (jolt_lastTwoPools jc) = Some p1 \<and> CheckWhetherSigner env (VaultInfo p1) = Done (Inr True))
     \<and> (\<forall>sent. \<exists>hash index err sent'. ProcessInBound e env (inbound_SetItemHeight h r) jc sent = Done ((hash, index, Some err), sent')))"

definition first_in_line :: "ext \<Rightarrow> InboundReq \<Rightarrow> PubChainInstance \<Rightarrow> bool" where
  "first_in_line e r pi \<longleftrightarrow> pub_retry_ok e pi \<and> InboundReqChan pi = [] \<and> r \<in># pub_retry_bag pi \<and> 0 < inbound_key e r
     \<and> (\<forall>q \<in># pub_retry_bag pi - {#r#}. inbound_key e q < inbound_key e r)"

lemma pop_first_in_line:
  assumes "first_in_line e r pi"
  obtains pi1 where "pub_PopItem pi = Done (Some r, pi1)" and "pub_retry_bag pi1 = pub_retry_bag pi - {#r#}"
    and "pub_retry_ok e pi1" and "InboundReqChan pi1 = []"
proof -
  have in_line: "pub_retry_ok e pi" "r \<in># pub_retry_bag pi" "0 < inbound_key e r"
    using assms by (simp_all add: first_in_line_def)
  obtain r0 pi1 where pop: "pub_PopItem pi = Done (Some r0, pi1)" and r0: "r0 \<in># pub_retry_bag pi"
    "\<forall>x \<in># pub_retry_bag pi. inbound_key e x \<le> inbound_key e r0"
    and rest: "pub_retry_bag pi1 = pub_retry_bag pi - {#r0#}" "pub_retry_ok e pi1"
    using pub_retry.pop_some [OF in_line] by (elim exE conjE) (rule that)
  have "r0 = r"
  proof (rule ccontr)
    assume "r0 \<noteq> r"
    then have "r0 \<in># pub_retry_bag pi - {#r#}" using r0(1) by (simp add: in_diff_count)
    then show False using r0(2) assms unfolding first_in_line_def by (meson leD)
  qed
  moreover from pop have "InboundReqChan pi1 = InboundReqChan pi" by (cases rule: pub_PopItem_frame) simp_all
  ultimately show thesis using that [of pi1] pop rest assms unfolding first_in_line_def by simp
qed

lemma retry_round_fails:
  assumes "first_in_line e r (br_pi s)" and "mint_fails e (br_jc s) r x"
  obtains s' h where "retry_round e x s = Done s'" and "br_jc s' = br_jc s"
    and "pub_retry_bag (br_pi s') = add_mset (inbound_SetItemHeight h r) (pub_retry_bag (br_pi s) - {#r#})"
    and "first_in_line e (inbound_SetItemHeight h r) (br_pi s')"
proof -
  obtain env h where x: "x = (env, h)" by (cases x)
  let ?item = "inbound_SetItemHeight h r"
  obtain p1 where p1: "snd (jolt_lastTwoPools (br_jc s)) = Some p1" "CheckWhetherSigner env (VaultInfo p1) = Done (Inr True)"
    using assms(2) by (auto simp: mint_fails_def x)
  obtain hash index err sent where fail: "ProcessInBound e env ?item (br_jc s) (br_joltSent s) = Done ((hash, index, Some err), sent)"
    using assms(2) unfolding mint_fails_def x by blast
  from assms(1) obtain pi1 where pop: "pub_PopItem (br_pi s) = Done (Some r, pi1)"
    and bag: "pub_retry_bag pi1 = pub_retry_bag (br_pi s) - {#r#}" and ok: "pub_retry_ok e pi1" and chan: "InboundReqChan pi1 = []"
    by (rule pop_first_in_line)
  let ?m = "UpdateInboundTxNum (pub_Size pi1) (br_metric s)"
  have retry: "retry_inbound h s = Done (s\<lparr>br_metric := ?m, br_pi := pi1\<lparr>InboundReqChan := [?item]\<rparr>\<rparr>)"
    using pop chan by (simp add: retry_inbound_def chan_send_def reqCacheSize_def)
  let ?s' = "s\<lparr>br_metric := ?m, br_pi := pub_AddItem e ?item (pi1\<lparr>InboundReqChan := []\<rparr>), br_joltSent := sent\<rparr>"
  have run: "retry_round e x s = Done ?s'"
    using p1 fail by (auto simp: retry_round_def x retry on_inbound_def jolt_GetPool_def Let_def intro!: bridge.equality)
  have bag': "pub_retry_bag (br_pi ?s') = add_mset ?item (pub_retry_bag (br_pi s) - {#r#})"
    using bag by (simp add: pub_AddItem_def pub_retry_bag_def)
  have "first_in_line e ?item (br_pi ?s')"
    using assms(1) ok unfolding first_in_line_def bag' by (auto simp: pub_AddItem_def pub_retry_ok_def)
  with run bag' show thesis by (intro that [of ?s' h]) simp_all
qed

text \<open>
  C19: one request can starve the others. While the failed mint request with the largest hash fails
  again in each round, no other request is ever taken from the retry pool, whatever number
  of Joltify blocks pass: after every round the pool holds the same requests as before.
\<close>

theorem retry_pool_starves:
  assumes "first_in_line e r (br_pi s)" and "\<forall>x \<in> set rounds. \<forall>h. mint_fails e (br_jc s) (inbound_SetItemHeight h r) x"
  shows "\<exists>s' h. exec_fold (retry_round e) rounds s = Done s'
    \<and> pub_retry_bag (br_pi s') = add_mset (inbound_SetItemHeight h r) (pub_retry_bag (br_pi s) - {#r#})
    \<and> InboundReqChan (br_pi s') = []"
  using assms
proof (induction rounds arbitrary: s r)
  case Nil
  have "inbound_SetItemHeight (ir_blockHeight r) r = r" by (simp add: inbound_SetItemHeight_def)
  then show ?case using Nil(1) unfolding first_in_line_def
    by (intro exI [of _ s] exI [of _ "ir_blockHeight r"]) simp
next
  case (Cons x rounds)
  have same [simp]: "inbound_SetItemHeight h (inbound_SetItemHeight k q) = inbound_SetItemHeight h q" for h k q
    by (simp add: inbound_SetItemHeight_def)
  have "mint_fails e (br_jc s) (inbound_SetItemHeight (ir_blockHeight r) r) x" using Cons.prems(2) by simp
  then have "mint_fails e (br_jc s) r x" by (simp add: inbound_SetItemHeight_def)
  with Cons.prems(1) obtain s1 h where s1: "retry_round e x s = Done s1" "br_jc s1 = br_jc s"
    and bag: "pub_retry_bag (br_pi s1) = add_mset (inbound_SetItemHeight h r) (pub_retry_bag (br_pi s) - {#r#})"
    and first: "first_in_line e (inbound_SetItemHeight h r) (br_pi s1)"
    by (rule retry_round_fails)
  from Cons.IH [OF first] Cons.prems(2) s1(2) obtain s' k where
    "exec_fold (retry_round e) rounds s1 = Done s'"
    "pub_retry_bag (br_pi s') = add_mset (inbound_SetItemHeight k r) (pub_retry_bag (br_pi s1) - {#inbound_SetItemHeight h r#})"
    "InboundReqChan (br_pi s') = []"
    by auto
  then show ?case using s1(1) bag by (intro exI [of _ s'] exI [of _ k]) simp
qed

text \<open>The node's account query fails in every round.\<close>

definition sample_down :: jolt_env where
  "sample_down = sample_jenv\<lparr>je_grpc := sample_grpc\<lparr>rpc_Account := (\<lambda>_. Inl ''down'')\<rparr>\<rparr>"

definition waiting_mint :: InboundReq where
  "waiting_mint = sample_mint\<lparr>ir_address := [], ir_txID := [], ir_toPoolAddr := []\<rparr>"

definition sample_line :: bridge where
  "sample_line = sample_busy\<lparr>br_pi := fold (pub_AddItem sample_ext) [waiting_mint, sample_mint]
     ((br_pi sample_busy)\<lparr>InboundReqChan := []\<rparr>)\<rparr>"

theorem retry_pool_starves_witness:
  "\<exists>s' h. exec_fold (retry_round sample_ext) (replicate 100 (sample_down, 5)) sample_line = Done s'
    \<and> pub_retry_bag (br_pi s') = {#inbound_SetItemHeight h sample_mint, waiting_mint#}"
proof -
  have bag: "pub_retry_bag (br_pi sample_line) = {#waiting_mint, sample_mint#}"
    by (simp add: sample_line_def sample_busy_def initial_bridge_def NewChainInstance_def pub_AddItem_def pub_retry_bag_def)
  have "first_in_line sample_ext sample_mint (br_pi sample_line)"
    unfolding first_in_line_def bag
    by (simp add: sample_line_def sample_busy_def initial_bridge_def NewChainInstance_def pub_AddItem_def pub_retry_ok_def
        waiting_mint_def inbound_key_def inbound_Hash_def sample_mint_def big_SetBytes_def)
  moreover have "mint_fails sample_ext (br_jc sample_line) (inbound_SetItemHeight h sample_mint) (sample_down, 5)" for h
    by (simp add: mint_fails_def sample_line_def sample_busy_def sample_down_def sample_jenv_def CheckWhetherSigner_def
        ProcessInBound_def jolt_GetPool_def queryAccount_def sample_cached_def sample_vault_def sample_grpc_def
        sample_PoolPubKey)
  ultimately show ?thesis
    using retry_pool_starves [of sample_ext sample_mint sample_line "replicate 100 (sample_down, 5)"]
    by (auto simp: bag)
qed

end
