(* ===== verification/Bridge_Recycle.thy ===== *)
theory Bridge_Recycle
  imports Bridge_Delivery Bridge_Liveness
begin

text \<open>
  A mint request that another node has submitted already: it never leaves this node
  (\<open>minted_request_recycles\<close>).
\<close>

section \<open>Where the checks come from\<close>

interpretation checks_rel: loop_relation e "\<lambda>s s'. br_checks s' = br_checks s" for e
  by unfold_locales (simp_all add: upd_both_def)

lemma ProcessInBound_exists:
  assumes "CheckWhetherAlreadyExist (je_grpc env) (HashHex e (inbound_Hash e item))"
    and "ProcessInBound e env item jc sent = Done ((hash, index, err), sent')"
  shows "sent' = sent \<and> (err = None \<longrightarrow> index = [])"
proof -
  have "yields (\<lambda>((hash, index, err), sent'). sent' = sent \<and> (err = None \<longrightarrow> index = [])) (ProcessInBound e env item jc sent)"
    using assms(1) unfolding ProcessInBound_def by (auto simp: Let_def split: option.splits sum.splits)
  from yieldsD [OF this assms(2)] show ?thesis by simp
qed

text \<open>Taking a request that is on the chain broadcasts nothing and starts a check of the empty index at most.\<close>

lemma take_existing:
  assumes "on_inbound e env s = Done s'" and "InboundReqChan (br_pi s) = item # c"
    and "CheckWhetherAlreadyExist (je_grpc env) (HashHex e (inbound_Hash e item))"
  shows "br_joltSent s' = br_joltSent s \<and> (br_checks s' = br_checks s \<or> br_checks s' = br_checks s @ [MintCheck item []])"
proof -
  have "yields (\<lambda>s'. br_joltSent s' = br_joltSent s \<and> (br_checks s' = br_checks s \<or> br_checks s' = br_checks s @ [MintCheck item []]))
    (on_inbound e env s)"
    unfolding on_inbound_def assms(2)
    by (auto simp: Let_def split: sum.splits dest!: ProcessInBound_exists [OF assms(3)])
  from yieldsD [OF this assms(1)] show ?thesis .
qed

lemma handle_checks:
  assumes "handle e ev s = Done s'" and "MintCheck item index \<in> set (br_checks s')" and "MintCheck item index \<notin> set (br_checks s)"
  obtains env c where "ev = TakeInbound env" and "InboundReqChan (br_pi s) = item # c"
    and "br_checks s' = br_checks s @ [MintCheck item index]"
proof (cases ev)
  case (TakeInbound env)
  then have "on_inbound e env s = Done s'" using assms(1) by simp
  then show thesis
    by (rule on_inbound_frame) (use assms(2,3) that [OF TakeInbound] in \<open>auto split: if_splits\<close>)
next
  case (ValidatorUpdate env updates)
  then show thesis using assms checks_rel.on_validators_R [of e env updates s s'] by simp
next
  case (JoltBlock env h)
  then show thesis using assms checks_rel.on_jolt_block_R [of e env h s s'] by simp
next
  case (JoltTx env code h tx)
  then show thesis using assms outbound_same(1) [of e env code h tx s s'] by simp
next
  case (PubBlock penv senv env n block)
  then show thesis using assms pub_block_checks [of e penv senv env n block s s'] by simp
next
  case (TakeOutbound env senv)
  then have "on_outbound e env senv s = Done s'" using assms(1) by simp
  then show thesis by (rule on_outbound_frame) (use assms(2,3) in \<open>auto split: if_splits\<close>)
next
  case (MintChecked n Retry clients)
  then have "on_mint_checked e n Retry clients s = Done s'" using assms(1) by simp
  then show thesis
    by (rule on_mint_checked_frame) (use assms(2,3) in \<open>auto simp: drop_check_def split: if_splits dest: in_set_takeD in_set_dropD\<close>)
next
  case (SendChecked n Retry envs)
  then have "on_send_checked e n Retry envs s = Done s'" using assms(1) by simp
  then show thesis
    by (rule on_send_checked_frame) (use assms(2,3) in \<open>auto simp: drop_check_def split: if_splits dest: in_set_takeD in_set_dropD\<close>)
qed

section \<open>A request that is on the chain\<close>

text \<open>
  What an event finds out about the request: when the loop takes it, this node signs for the
  latest pool and the chain has the request under its index already, submitted by another
  node; and a client that polls never finds a request under the empty index.
\<close>

fun finds_minted :: "ext \<Rightarrow> acc_address \<times> int \<times> bytes \<Rightarrow> bridge \<Rightarrow> bridge_event \<Rightarrow> bool" where
  "finds_minted e r s (TakeInbound env) \<longleftrightarrow> (\<forall>item c. InboundReqChan (br_pi s) = item # c \<and> mint_id item = r \<longrightarrow>
     signs env s \<and> CheckWhetherAlreadyExist (je_grpc env) (HashHex e (inbound_Hash e item)))"
| "finds_minted e r s (MintChecked n Retry clients) \<longleftrightarrow> retry_ok Retry \<and> (\<forall>k. \<not> CheckWhetherAlreadyExist (clients k) [])"
| "finds_minted e r s _ \<longleftrightarrow> True"

text \<open>Every check of the request looks for the empty index.\<close>

definition empty_checks :: "acc_address \<times> int \<times> bytes \<Rightarrow> bridge \<Rightarrow> bool" where
  "empty_checks r s \<longleftrightarrow> (\<forall>item index. MintCheck item index \<in> set (br_checks s) \<and> mint_id item = r \<longrightarrow> index = [])"

lemma empty_index_missed:
  assumes "retry_ok Retry" and "\<forall>k. \<not> CheckWhetherAlreadyExist (clients k) []"
  shows "jolt_CheckTxStatus Retry clients [] \<noteq> None"
proof -
  let ?op = "\<lambda>k. if CheckWhetherAlreadyExist (clients k) [] then None else Some ''fail to find the tx''"
  have "snd (Retry ?op) = ?op (fst (Retry ?op))" using assms(1) unfolding retry_ok_def by blast
  then show ?thesis using assms(2) by (simp add: jolt_CheckTxStatus_def)
qed

lemma minted_stays:
  assumes "handle e ev s = Done s'" and "empty_checks r s" and "finds_minted e r s ev"
  shows "r \<notin># mint_left s ev"
proof (cases ev)
  case (TakeInbound env)
  then show ?thesis using assms(3) by (cases "InboundReqChan (br_pi s)") auto
next
  case (MintChecked n Retry clients)
  then have "on_mint_checked e n Retry clients s = Done s'" using assms(1) by simp
  then obtain item index where n: "n < length (br_checks s)" "br_checks s ! n = MintCheck item index"
    by (rule on_mint_checked_frame)
  have "mint_id item = r \<Longrightarrow> index = []"
    using assms(2) nth_mem [OF n(1)] n(2) unfolding empty_checks_def by metis
  then show ?thesis using empty_index_missed [of Retry clients] assms(3) n(2) by (auto simp: MintChecked)
qed simp_all

lemma minted_checks:
  assumes "handle e ev s = Done s'" and "empty_checks r s" and "finds_minted e r s ev"
  shows "empty_checks r s'"
  unfolding empty_checks_def
proof (intro allI impI, elim conjE)
  fix item index
  assume new: "MintCheck item index \<in> set (br_checks s')" and r: "mint_id item = r"
  show "index = []"
  proof (cases "MintCheck item index \<in> set (br_checks s)")
    case True
    then show ?thesis using assms(2) r unfolding empty_checks_def by blast
  next
    case False
    with assms(1) new obtain env c where ev: "ev = TakeInbound env" and c: "InboundReqChan (br_pi s) = item # c"
      and checks: "br_checks s' = br_checks s @ [MintCheck item index]"
      by (rule handle_checks)
    have "on_inbound e env s = Done s'" using assms(1) ev by simp
    from take_existing [OF this c] show ?thesis using assms(3) ev c r checks by auto
  qed
qed

text \<open>
  C28: a mint request that another node has submitted already never leaves this node. Over any
  run of the event loop in which each take of the request finds this node signing and the
  request on the chain, and no poll finds a request under the empty index, the request stays
  queued, waiting for a retry or under a check as often as it was at the start; all its
  checks look for the empty index; and no take of it broadcasts anything. For as long as
  the chain goes on answering so, it is never dropped as done.
\<close>

theorem minted_request_recycles:
  assumes "sdk_ok M e" and "hash_ok e" and "bridge_inv e s" and "bridge_run e s tr s'"
    and "\<forall>(t, ev) \<in> set tr. token_not_pool e (br_pi t) \<and> finds_minted e r t ev" and "empty_checks r s"
  shows "count (mint_flight s) r \<le> count (mint_flight s') r \<and> empty_checks r s'
    \<and> (\<forall>(t, ev) \<in> set tr. \<forall>env item c t'. ev = TakeInbound env \<and> InboundReqChan (br_pi t) = item # c \<and> mint_id item = r
        \<and> handle e ev t = Done t' \<longrightarrow> br_joltSent t' = br_joltSent t)"
  using assms(4,1,2,3,5,6)
proof (induction rule: bridge_run.induct)
  case (start s)
  then show ?case by simp
next
  case (step s tr s1 ev s')
  then have IH: "count (mint_flight s) r \<le> count (mint_flight s1) r" "empty_checks r s1"
    "\<forall>(t, ev) \<in> set tr. \<forall>env item c t'. ev = TakeInbound env \<and> InboundReqChan (br_pi t) = item # c \<and> mint_id item = r
        \<and> handle e ev t = Done t' \<longrightarrow> br_joltSent t' = br_joltSent t"
    by auto
  have now: "token_not_pool e (br_pi s1)" "finds_minted e r s1 ev" using step.prems(4) by auto
  have inv: "bridge_inv e s1" using run_follows [OF step.hyps(1) step.prems(1-3)] step.prems(4) by auto
  have "mint_flight s1 \<subseteq># mint_flight s' + mint_left s1 ev"
    using handle_follows [OF step.prems(1,2) inv now(1) step.hyps(2,3)] by (simp add: follows_def)
  then have "count (mint_flight s1) r \<le> count (mint_flight s') r"
    using minted_stays [OF step.hyps(3) IH(2) now(2)] by (auto simp: not_in_iff dest: mset_subset_eq_count [where a = r])
  moreover have "br_joltSent t' = br_joltSent s1"
    if "ev = TakeInbound env" "InboundReqChan (br_pi s1) = item # c" "mint_id item = r" "handle e ev s1 = Done t'" for env item c t'
    using take_existing [of e env s1 t' item c] now(2) that by auto
  ultimately show ?case
    using IH minted_checks [OF step.hyps(3) IH(2) now(2)] by auto
qed

text \<open>A node with one request on the channel, which the chain has already.\<close>

lemma sample_busy_inv: "bridge_inv sample_ext sample_busy"
  using sample_cached_known [of "''k''"] sample_cached_known [of "''j''"]
  by (simp add: sample_busy_def bridge_inv_def initial_bridge_def NewChainInstance_def sample_started_def NewJoltifyBridge_def
      pub_inv_def pending_ok_def queued_ok_def pub_retry_ok_def jolt_queues_ok_def jolt_retry_ok_def
      pools_ok_def sample_mint_def config_defs reqCacheSize_def)

lemma busy_pools_token:
  assumes "pub_lastTwoPools pi = pub_lastTwoPools (br_pi sample_busy)" and "tokenAddr pi = tokenAddr (br_pi sample_busy)"
  shows "token_not_pool sample_ext pi"
proof (rule sample_token)
  have addr: "EthAddress (sample_cached ''k'') = [107]" "EthAddress (sample_cached ''j'') = [106]"
    by (simp_all add: sample_cached_def)
  show "\<not> checkToBridge sample_ext [7] pi"
    using assms(1) by (simp add: checkToBridge_def pub_GetPool_def sample_busy_def addr del: hex_EncodeToString.simps hex_samples)
  show "tokenAddr pi = ''0x07''"
    using assms(2) by (simp add: sample_busy_def NewChainInstance_def del: hex_samples)
qed

lemma sample_busy_signs: "signs sample_minted_env sample_busy"
  by (simp add: signs_def sample_busy_def CheckWhetherSigner_def sample_minted_env_def sample_jenv_def sample_cached_def sample_vault_def)

theorem minted_request_recycles_witness:
  "\<exists>tr s'. bridge_run sample_ext sample_busy tr s'
    \<and> map snd tr = [TakeInbound sample_minted_env, MintChecked 0 first_answer (\<lambda>_. sample_grpc)]
    \<and> br_checks s' = [] \<and> InboundReqChan (br_pi s') = [] \<and> 1 \<le> count (mint_flight s') (mint_id sample_mint)"
proof -
  let ?ev1 = "TakeInbound sample_minted_env" and ?ev2 = "MintChecked 0 first_answer (\<lambda>_. sample_grpc)"
  let ?s2 = "sample_busy\<lparr>br_pi := pub_AddItem sample_ext sample_mint ((br_pi sample_busy)\<lparr>InboundReqChan := []\<rparr>)\<rparr>"
  obtain s1 where s1: "on_inbound sample_ext sample_minted_env sample_busy = Done s1"
    "on_mint_checked sample_ext 0 first_answer (\<lambda>_. sample_grpc) s1 = Done ?s2"
    using sample_minted_round by blast
  let ?tr = "[(sample_busy, ?ev1), (s1, ?ev2)]"
  have run: "bridge_run sample_ext sample_busy ?tr ?s2"
    using bridge_run.step [OF bridge_run.step [OF bridge_run.start], of ?ev1 sample_ext sample_busy s1 ?ev2 ?s2] s1 by simp
  have "token_not_pool sample_ext (br_pi sample_busy)" "token_not_pool sample_ext (br_pi s1)"
    using mint_flight_taken [OF s1(1)] by (auto intro!: busy_pools_token simp: same_book_def)
  moreover have "CheckWhetherAlreadyExist (je_grpc sample_minted_env) (HashHex sample_ext h)" for h
    by (simp add: sample_minted_env_def CheckWhetherAlreadyExist_def queryGivenToeknIssueTx_def sample_ext_def)
  moreover have "\<not> CheckWhetherAlreadyExist sample_grpc []" by (simp add: sample_queries_run)
  ultimately have found: "\<forall>(t, ev) \<in> set ?tr. token_not_pool sample_ext (br_pi t) \<and> finds_minted sample_ext (mint_id sample_mint) t ev"
    using sample_busy_signs first_answer_ok by simp
  have none: "br_checks sample_busy = []" "InboundReqChan (br_pi sample_busy) = [sample_mint]"
    by (simp_all add: sample_busy_def initial_bridge_def)
  then have "empty_checks (mint_id sample_mint) sample_busy" "1 \<le> count (mint_flight sample_busy) (mint_id sample_mint)"
    by (simp_all add: empty_checks_def mint_flight_def queued_def)
  with minted_request_recycles [OF sample_ext_ok sample_hash_ok sample_busy_inv run found]
  have "1 \<le> count (mint_flight ?s2) (mint_id sample_mint)" by linarith
  with run show ?thesis
    by (intro exI [of _ ?tr] exI [of _ ?s2]) (simp add: none pub_AddItem_def)
qed

end
