(* ===== verification/Bridge_Interleave.thy ===== *)
theory Bridge_Interleave
  imports Bridge_Pools
begin

text \<open>
  The status checks of \<open>bridge/joltifyBridge.go\<close> run in goroutines of their own, so their
  \<open>AddItem\<close> may come anywhere inside a block handler, also while \<open>PopItem\<close> or \<open>Size\<close> goes
  through the same \<open>sync.Map\<close>. Here each block handler is written out with what the others
  add at each of its steps. It equals the atomic handler of \<open>Bridge_Loop\<close>, run after the
  requests its pop saw and before all others, so the events of \<open>Bridge_Loop\<close> lose nothing.
\<close>

section \<open>Code that leaves a part of the state alone\<close>

definition exec_map :: "('a \<Rightarrow> 'b) \<Rightarrow> 'a exec \<Rightarrow> 'b exec" where
  "exec_map f m = exec_bind m (\<lambda>x. Done (f x))"

lemma exec_map_simps [simp]:
  "exec_map f (Done x) = Done (f x)" "exec_map f (Panic msg) = Panic msg" "exec_map f Block = Block"
  by (simp_all add: exec_map_def)

lemma exec_map_bind [simp]: "exec_map f (exec_bind m g) = exec_bind m (\<lambda>x. exec_map f (g x))"
  by (cases m) simp_all

lemma exec_bind_map [simp]: "exec_bind (exec_map f m) g = exec_bind m (\<lambda>x. g (f x))"
  by (cases m) simp_all

lemma exec_map_map [simp]: "exec_map h (exec_map f m) = exec_map (\<lambda>x. h (f x)) m"
  by (cases m) simp_all

text \<open>Code that neither reads nor writes what \<open>put\<close> sets, whatever it does otherwise.\<close>

definition independent :: "('x \<Rightarrow> 's \<Rightarrow> 's) \<Rightarrow> ('s \<Rightarrow> 's exec) \<Rightarrow> bool" where
  "independent put f \<longleftrightarrow> (\<forall>x s. f (put x s) = exec_map (put x) (f s))"

lemma independent_bind:
  assumes "independent put f" and "independent put g"
  shows "independent put (\<lambda>s. exec_bind (f s) g)"
  unfolding independent_def
proof (intro allI)
  fix x s
  show "exec_bind (f (put x s)) g = exec_map (put x) (exec_bind (f s) g)"
    using assms by (cases "f s") (simp_all add: independent_def)
qed

lemma independent_fold:
  "(\<And>y. independent put (f y)) \<Longrightarrow> independent put (exec_fold f ys)"
proof (induction ys)
  case (Cons y ys)
  from independent_bind [OF Cons.prems [of y] Cons.IH [OF Cons.prems]]
  show ?case by (simp add: independent_def)
qed (simp add: independent_def)

locale field_access =
  fixes get :: "'s \<Rightarrow> 'x" and put :: "'x \<Rightarrow> 's \<Rightarrow> 's"
  assumes get_put: "get (put x s) = x" and put_put: "put x (put y s) = put x s" and put_get: "put (get s) s = s"
begin

lemma kept:
  assumes "independent put f" and "f s = Done s'"
  shows "get s' = get s"
proof -
  have "f (put (get s) s) = exec_map (put (get s)) (f s)" using assms(1) unfolding independent_def by blast
  then have "s' = put (get s) s'" using assms(2) by (simp add: put_get)
  then show ?thesis by (metis get_put)
qed

text \<open>A change of the field by someone else may come before or after.\<close>

lemma commute:
  assumes "independent put f"
  shows "f (put (c (get s)) s) = exec_map (\<lambda>s'. put (c (get s')) s') (f s)"
proof -
  have "f (put (c (get s)) s) = exec_map (put (c (get s))) (f s)"
    using assms unfolding independent_def by blast
  also have "\<dots> = exec_map (\<lambda>s'. put (c (get s')) s') (f s)"
    using kept [OF assms] by (cases "f s") simp_all
  finally show ?thesis .
qed

end

section \<open>Popping while others add\<close>

lemma take_first_append:
  "take_first P xs = Some (y, ys) \<Longrightarrow> take_first P (xs @ zs) = Some (y, ys @ zs)"
  by (induction xs arbitrary: y ys) (auto split: if_splits)

lemma take_scan_max:
  assumes "0 < scan_max es"
  obtains r rest where "take_first (\<lambda>(h, _). h = scan_max es) es = Some ((scan_max es, r), rest)"
proof -
  from scan_max_attained [OF assms] have "take_first (\<lambda>(h, _). h = scan_max es) es \<noteq> None"
    by (auto simp: take_first_None_iff)
  then obtain y rest where y: "take_first (\<lambda>(h, _). h = scan_max es) es = Some (y, rest)" by auto
  then have "fst y = scan_max es" using take_first_SomeD [OF y] by (simp add: case_prod_beta)
  then show thesis using y that by (metis prod.collapse)
qed

text \<open>
  \<open>PopItem\<close> in its two steps: \<open>Range\<close> looks for the largest hash, then \<open>LoadAndDelete\<close> takes
  that key. Of what others store meanwhile, \<open>Range\<close> visits the \<open>seen\<close> ones. The keys are
  fresh pointers, so no store replaces an entry.
\<close>

definition pub_PopItem_il ::
    "ext \<Rightarrow> InboundReq list \<Rightarrow> InboundReq list \<Rightarrow> PubChainInstance \<Rightarrow> (InboundReq option \<times> PubChainInstance) exec" where
  "pub_PopItem_il e seen unseen pi =
     (let visited = fold (pub_AddItem e) seen pi;
          mx = scan_max (RetryInboundReq visited);
          pi1 = fold (pub_AddItem e) unseen visited
      in if 0 < mx then
           (case take_first (\<lambda>(h, _). h = mx) (RetryInboundReq pi1) of
              None \<Rightarrow> Panic ''interface conversion: interface is nil''
            | Some ((_, item), rest) \<Rightarrow> Done (Some item, pi1\<lparr>RetryInboundReq := rest\<rparr>))
         else Done (None, pi1))"

definition jolt_PopItem_il ::
    "ext \<Rightarrow> OutBoundReq list \<Rightarrow> OutBoundReq list \<Rightarrow> JoltifyChainInstance \<Rightarrow> (OutBoundReq option \<times> JoltifyChainInstance) exec" where
  "jolt_PopItem_il e seen unseen jc =
     (let visited = fold (jolt_AddItem e) seen jc;
          mx = scan_max (RetryOutboundReq visited);
          jc1 = fold (jolt_AddItem e) unseen visited
      in if 0 < mx then
           (case take_first (\<lambda>(h, _). h = mx) (RetryOutboundReq jc1) of
              None \<Rightarrow> Panic ''interface conversion: interface is nil''
            | Some ((_, item), rest) \<Rightarrow> Done (Some item, jc1\<lparr>RetryOutboundReq := rest\<rparr>))
         else Done (None, jc1))"

lemma pub_fold_add:
  "fold (pub_AddItem e) rs pi = pi\<lparr>RetryInboundReq := RetryInboundReq pi @ map (\<lambda>r. (inbound_key e r, r)) rs\<rparr>"
  by (induction rs arbitrary: pi) (simp_all add: pub_AddItem_def)

lemma pub_PopItem_linear:
  "pub_PopItem_il e seen unseen pi =
     exec_map (map_prod id (fold (pub_AddItem e) unseen)) (pub_PopItem (fold (pub_AddItem e) seen pi))"
proof -
  let ?es = "RetryInboundReq (fold (pub_AddItem e) seen pi)"
  show ?thesis
  proof (cases "0 < scan_max ?es")
    case True
    then obtain r rest where t: "take_first (\<lambda>(h, _). h = scan_max ?es) ?es = Some ((scan_max ?es, r), rest)"
      by (rule take_scan_max)
    from True take_first_append [OF t] t show ?thesis
      by (simp add: pub_PopItem_il_def pub_PopItem_def Let_def pub_fold_add)
  qed (simp add: pub_PopItem_il_def pub_PopItem_def)
qed

lemma jolt_PopItem_linear:
  "jolt_PopItem_il e seen unseen jc =
     exec_map (map_prod id (fold (jolt_AddItem e) unseen)) (jolt_PopItem (fold (jolt_AddItem e) seen jc))"
proof -
  let ?es = "RetryOutboundReq (fold (jolt_AddItem e) seen jc)"
  show ?thesis
  proof (cases "0 < scan_max ?es")
    case True
    then obtain r rest where t: "take_first (\<lambda>(h, _). h = scan_max ?es) ?es = Some ((scan_max ?es, r), rest)"
      by (rule take_scan_max)
    from True take_first_append [OF t] t show ?thesis
      by (simp add: jolt_PopItem_il_def jolt_PopItem_def Let_def jolt_fold_add)
  qed (simp add: jolt_PopItem_il_def jolt_PopItem_def)
qed

section \<open>A block of the Joltify chain\<close>

text \<open>
  \<open>adds k\<close> are the requests the checks put back at the k-th place of the handler: before
  and after \<open>CheckAndUpdatePool\<close> (0, 1), visited by the \<open>Range\<close> of \<open>PopItem\<close> or stored while
  it runs (2, 3), counted by \<open>Size\<close> (4), before and after the send (5, 6), and around the
  fund moving (7, 8). A handler that returns early leaves the rest for after its end.
\<close>

definition add_inbounds :: "ext \<Rightarrow> InboundReq list \<Rightarrow> bridge \<Rightarrow> bridge" where
  "add_inbounds e rs s = s\<lparr>br_pi := fold (pub_AddItem e) rs (br_pi s)\<rparr>"

definition retry_inbound_il :: "ext \<Rightarrow> i64 \<Rightarrow> (nat \<Rightarrow> InboundReq list) \<Rightarrow> bridge \<Rightarrow> bridge exec" where
  "retry_inbound_il e height adds s =
     exec_bind (pub_PopItem_il e (adds 2) (adds 3) (br_pi s)) (\<lambda>(itemInbound, pi1).
       let s1 = add_inbounds e (adds 4) (s\<lparr>br_pi := pi1\<rparr>);
           s2 = add_inbounds e (adds 5) (s1\<lparr>br_metric := UpdateInboundTxNum (pub_Size (br_pi s1)) (br_metric s1)\<rparr>)
       in case itemInbound of
            None \<Rightarrow> Done s2
          | Some item \<Rightarrow>
              exec_bind (chan_send reqCacheSize (inbound_SetItemHeight height item) (InboundReqChan (br_pi s2))) (\<lambda>c.
                Done (s2\<lparr>br_pi := (br_pi s2)\<lparr>InboundReqChan := c\<rparr>\<rparr>)))"

definition on_jolt_block_il ::
    "ext \<Rightarrow> jolt_env \<Rightarrow> i64 \<Rightarrow> (nat \<Rightarrow> InboundReq list) \<Rightarrow> bridge \<Rightarrow> bridge exec" where
  "on_jolt_block_il e env height adds s =
     (let s0 = add_inbounds e (adds 0) s in
      exec_bind (CheckAndUpdatePool e env height (br_jc s0) (br_joltSent s0)) (\<lambda>(_, jc1, sent1).
      let s1 = add_inbounds e (adds 1) (s0\<lparr>br_jc := jc1\<lparr>jolt_CurrentHeight := height\<rparr>, br_joltSent := sent1\<rparr>)
      in case QueryLastPoolAddress (je_grpc env) of
           Inl _ \<Rightarrow> Done (add_inbounds e (concat (map adds [2..<9])) s1)
         | Inr poolInfo \<Rightarrow>
             if length poolInfo \<noteq> 2 then Done (add_inbounds e (concat (map adds [2..<9])) s1)
             else
               exec_bind (retry_inbound_il e height adds s1) (\<lambda>s2.
               let s3 = add_inbounds e (adds 6) s2 in
               if pub_GetPool (br_pi s3) ! 0 = None then
                 exec_bind (fill_pools e poolInfo s3) (\<lambda>s4. Done (add_inbounds e (adds 7 @ adds 8) s4))
               else
                 exec_bind (refresh_pools e height poolInfo s3) (\<lambda>s4.
                 exec_bind (move_jolt_funds e env height poolInfo (add_inbounds e (adds 7) s4)) (\<lambda>s5.
                 Done (add_inbounds e (adds 8) s5))))))"

text \<open>The retry pool and the gauges, as one field.\<close>

definition get_inbound :: "bridge \<Rightarrow> (nat \<times> InboundReq) list \<times> Metric" where
  "get_inbound s = (RetryInboundReq (br_pi s), br_metric s)"

definition put_inbound :: "(nat \<times> InboundReq) list \<times> Metric \<Rightarrow> bridge \<Rightarrow> bridge" where
  "put_inbound x s = s\<lparr>br_pi := (br_pi s)\<lparr>RetryInboundReq := fst x\<rparr>, br_metric := snd x\<rparr>"

interpretation inbound_field: field_access get_inbound put_inbound
  by unfold_locales (simp_all add: get_inbound_def put_inbound_def)

lemma put_inbound_simps [simp]:
  "br_pi (put_inbound x s) = (br_pi s)\<lparr>RetryInboundReq := fst x\<rparr>" "br_jc (put_inbound x s) = br_jc s"
  "br_joltSent (put_inbound x s) = br_joltSent s"
  "(put_inbound x s)\<lparr>br_jc := j\<rparr> = put_inbound x (s\<lparr>br_jc := j\<rparr>)"
  "(put_inbound x s)\<lparr>br_joltSent := sent\<rparr> = put_inbound x (s\<lparr>br_joltSent := sent\<rparr>)"
  "(put_inbound (p, m) s)\<lparr>br_pi := pi\<lparr>RetryInboundReq := p\<rparr>\<rparr> = put_inbound (p, m) (s\<lparr>br_pi := pi\<rparr>)"
  by (simp_all add: put_inbound_def)

lemma pub_pools_retry [simp]:
  "pub_GetPool (pi\<lparr>RetryInboundReq := p\<rparr>) = pub_GetPool pi"
  "pub_UpdatePool e v (pi\<lparr>RetryInboundReq := p\<rparr>) = exec_map (\<lambda>(r, pi). (r, pi\<lparr>RetryInboundReq := p\<rparr>)) (pub_UpdatePool e v pi)"
  "pub_AddMoveFundItem q h (pi\<lparr>RetryInboundReq := p\<rparr>) = (pub_AddMoveFundItem q h pi)\<lparr>RetryInboundReq := p\<rparr>"
  by (simp_all add: pub_GetPool_def pub_AddMoveFundItem_def)
    (simp add: pub_UpdatePool_def Let_def case_prod_beta split: option.splits sum.splits)

definition submit_part :: "ext \<Rightarrow> jolt_env \<Rightarrow> i64 \<Rightarrow> bridge \<Rightarrow> bridge exec" where
  "submit_part e env h s = exec_bind (CheckAndUpdatePool e env h (br_jc s) (br_joltSent s)) (\<lambda>(_, jc1, sent1).
     Done (s\<lparr>br_jc := jc1\<lparr>jolt_CurrentHeight := h\<rparr>, br_joltSent := sent1\<rparr>))"

lemma independent_submit: "independent put_inbound (submit_part e env h)"
  by (simp add: independent_def submit_part_def case_prod_unfold)

lemma independent_fill: "independent put_inbound (fill_pools e ps)"
  unfolding fill_pools_def by (rule independent_fold) (simp add: independent_def case_prod_unfold)

lemma independent_refresh: "independent put_inbound (refresh_pools e h ps)"
  unfolding independent_def refresh_pools_def by (auto intro!: exec_bind_cong split: prod.splits)

lemma independent_move: "independent put_inbound (move_jolt_funds e env h ps)"
  unfolding independent_def move_jolt_funds_def
  by (auto intro!: exec_bind_cong simp: Let_def split: option.splits sum.splits prod.splits)

text \<open>Requests that came after the pop, of which \<open>Size\<close> counted n.\<close>

definition late_inbounds :: "ext \<Rightarrow> nat \<Rightarrow> InboundReq list \<Rightarrow> bridge \<Rightarrow> bridge" where
  "late_inbounds e n rs s =
     (add_inbounds e rs s)\<lparr>br_metric := UpdateInboundTxNum (inboundTxNum (br_metric s) + n) (br_metric s)\<rparr>"

lemma late_put:
  "late_inbounds e n rs s = put_inbound
     ((\<lambda>(p, m). (p @ map (\<lambda>r. (inbound_key e r, r)) rs, UpdateInboundTxNum (inboundTxNum m + n) m)) (get_inbound s)) s"
  by (simp add: late_inbounds_def add_inbounds_def put_inbound_def get_inbound_def pub_fold_add)

lemma late_commute: "independent put_inbound f \<Longrightarrow> f (late_inbounds e n rs s) = exec_map (late_inbounds e n rs) (f s)"
  unfolding late_put by (rule inbound_field.commute)

lemma add_late: "add_inbounds e rs s = late_inbounds e 0 rs s"
  by (simp add: late_inbounds_def add_inbounds_def UpdateInboundTxNum_def)

lemma late_late [simp]: "late_inbounds e n rs (late_inbounds e k qs s) = late_inbounds e (k + n) (qs @ rs) s"
  by (simp add: late_inbounds_def add_inbounds_def UpdateInboundTxNum_def)

lemma late_pools [simp]: "pub_GetPool (br_pi (late_inbounds e n rs s)) = pub_GetPool (br_pi s)"
  by (simp add: late_inbounds_def add_inbounds_def pub_fold_add)

lemma retry_inbound_linear:
  "retry_inbound_il e h adds s = exec_map (late_inbounds e (length (adds 3) + length (adds 4)) (adds 3 @ adds 4 @ adds 5))
     (retry_inbound h (add_inbounds e (adds 2) s))"
proof (cases "pub_PopItem (fold (pub_AddItem e) (adds 2) (br_pi s))")
  case (Done x)
  obtain r pi1 where x: "x = (r, pi1)" by (cases x)
  show ?thesis
    by (cases r; cases "chan_send reqCacheSize (inbound_SetItemHeight h (the r)) (InboundReqChan pi1)")
      (simp_all add: retry_inbound_il_def retry_inbound_def pub_PopItem_linear Done [unfolded pub_fold_add x] add_inbounds_def late_inbounds_def
        pub_fold_add pub_Size_def fold_count UpdateInboundTxNum_def Let_def ac_simps)
qed (simp_all add: retry_inbound_il_def retry_inbound_def pub_PopItem_linear add_inbounds_def)

lemma on_jolt_block_submit:
  "on_jolt_block e env h s = exec_bind (submit_part e env h s) (\<lambda>s1.
     case QueryLastPoolAddress (je_grpc env) of
       Inl _ \<Rightarrow> Done s1
     | Inr poolInfo \<Rightarrow>
         if length poolInfo \<noteq> 2 then Done s1
         else
           exec_bind (retry_inbound h s1) (\<lambda>s2.
             if pub_GetPool (br_pi s2) ! 0 = None then fill_pools e poolInfo s2
             else exec_bind (refresh_pools e h poolInfo s2) (move_jolt_funds e env h poolInfo)))"
  by (simp add: on_jolt_block_def submit_part_def exec_bind_assoc case_prod_unfold Let_def)

definition pops_jolt :: "jolt_env \<Rightarrow> bool" where
  "pops_jolt env \<longleftrightarrow> (\<exists>ps. QueryLastPoolAddress (je_grpc env) = Inr ps \<and> length ps = 2)"

text \<open>
  C15: whatever the status checks put back while the handler of a Joltify block runs, and wherever
  in it, the outcome is that of the undisturbed handler, run after the requests that its
  \<open>PopItem\<close> visited were put back and before all the others were; only the gauge may
  already count some of the later ones.
\<close>

theorem jolt_block_interleaved:
  "on_jolt_block_il e env h adds s = exec_map
     (late_inbounds e (if pops_jolt env then length (adds 3) + length (adds 4) else 0) (concat (map adds [3..<9])))
     (on_jolt_block e env h (add_inbounds e (adds 0 @ adds 1 @ adds 2) s))"
proof -
  let ?late = "late_inbounds e" and ?A = "\<lambda>i. adds i"
  have il: "[2..<9] = [2,3,4,5,6,7,8]" "[3..<9] = [3,4,5,6,7,8::nat]" by (simp_all add: upt_rec)
  have start: "on_jolt_block_il e env h adds s = exec_bind (submit_part e env h (?late 0 (adds 0) s)) (\<lambda>s0.
     let s1 = ?late 0 (adds 1) s0 in
     case QueryLastPoolAddress (je_grpc env) of
           Inl _ \<Rightarrow> Done (?late 0 (concat (map adds [2..<9])) s1)
         | Inr poolInfo \<Rightarrow>
             if length poolInfo \<noteq> 2 then Done (?late 0 (concat (map adds [2..<9])) s1)
             else
               exec_bind (retry_inbound_il e h adds s1) (\<lambda>s2.
               let s3 = ?late 0 (adds 6) s2 in
               if pub_GetPool (br_pi s3) ! 0 = None then
                 exec_bind (fill_pools e poolInfo s3) (\<lambda>s4. Done (?late 0 (adds 7 @ adds 8) s4))
               else
                 exec_bind (refresh_pools e h poolInfo s3) (\<lambda>s4.
                 exec_bind (move_jolt_funds e env h poolInfo (?late 0 (adds 7) s4)) (\<lambda>s5.
                 Done (?late 0 (adds 8) s5)))))"
    unfolding on_jolt_block_il_def add_late by (simp add: submit_part_def exec_bind_assoc case_prod_unfold Let_def)
  show ?thesis
    unfolding start on_jolt_block_submit add_late late_commute [OF independent_submit] il
    by (cases "QueryLastPoolAddress (je_grpc env)")
      (simp_all add: pops_jolt_def retry_inbound_linear add_late late_commute [OF independent_fill]
        late_commute [OF independent_refresh] late_commute [OF independent_move] Let_def if_distrib [of "exec_map _"]
        exec_map_def [symmetric] cong: if_cong)
qed

section \<open>A block of the public chain\<close>

text \<open>
  \<open>adds k\<close>: before and after the inbound transactions (0, 1), around \<open>PopItem\<close>, \<open>Size\<close> and
  the send as above (2 to 5), before and after the fund moving (6, 7).
\<close>

definition add_outbounds :: "ext \<Rightarrow> OutBoundReq list \<Rightarrow> bridge \<Rightarrow> bridge" where
  "add_outbounds e rs s = s\<lparr>br_jc := fold (jolt_AddItem e) rs (br_jc s)\<rparr>"

definition retry_outbound_il :: "ext \<Rightarrow> i64 \<Rightarrow> (nat \<Rightarrow> OutBoundReq list) \<Rightarrow> bridge \<Rightarrow> bridge exec" where
  "retry_outbound_il e height adds s =
     exec_bind (jolt_PopItem_il e (adds 2) (adds 3) (br_jc s)) (\<lambda>(itemOutBound, jc1).
       let s1 = add_outbounds e (adds 4) (s\<lparr>br_jc := jc1\<rparr>);
           s2 = add_outbounds e (adds 5) (s1\<lparr>br_metric := UpdateOutboundTxNum (jolt_Size (br_jc s1)) (br_metric s1)\<rparr>)
       in case itemOutBound of
            None \<Rightarrow> Done s2
          | Some item \<Rightarrow>
              exec_bind (chan_send reqCacheSize (outbound_SetItemHeight height item) (OutboundReqChan (br_jc s2))) (\<lambda>c.
                Done (s2\<lparr>br_jc := (br_jc s2)\<lparr>OutboundReqChan := c\<rparr>\<rparr>)))"

definition on_pub_block_il ::
    "ext \<Rightarrow> pub_env \<Rightarrow> send_env \<Rightarrow> jolt_env \<Rightarrow> nat \<Rightarrow> goerror + EthBlock
       \<Rightarrow> (nat \<Rightarrow> OutBoundReq list) \<Rightarrow> bridge \<Rightarrow> bridge exec" where
  "on_pub_block_il e penv senv jenv number block adds s =
     (let s0 = add_outbounds e (adds 0) s in
      exec_bind (ProcessNewBlock e penv block (br_pi s0)) (\<lambda>(_, pi1).
      let pi2 = DeleteExpired (of_nat number) (pi1\<lparr>pub_CurrentHeight := of_nat number\<rparr>);
          s1 = add_outbounds e (adds 1) (s0\<lparr>br_pi := pi2\<rparr>)
      in exec_bind (retry_outbound_il e (of_nat number) adds s1) (\<lambda>s2.
         exec_bind (move_pub_funds e senv jenv (of_nat number) (add_outbounds e (adds 6) s2)) (\<lambda>s3.
         Done (add_outbounds e (adds 7) s3)))))"

definition get_outbound :: "bridge \<Rightarrow> (nat \<times> OutBoundReq) list \<times> Metric" where
  "get_outbound s = (RetryOutboundReq (br_jc s), br_metric s)"

definition put_outbound :: "(nat \<times> OutBoundReq) list \<times> Metric \<Rightarrow> bridge \<Rightarrow> bridge" where
  "put_outbound x s = s\<lparr>br_jc := (br_jc s)\<lparr>RetryOutboundReq := fst x\<rparr>, br_metric := snd x\<rparr>"

interpretation outbound_field: field_access get_outbound put_outbound
  by unfold_locales (simp_all add: get_outbound_def put_outbound_def)

lemma put_outbound_simps [simp]:
  "br_pi (put_outbound x s) = br_pi s" "br_pubSent (put_outbound x s) = br_pubSent s"
  "(put_outbound x s)\<lparr>br_pi := j\<rparr> = put_outbound x (s\<lparr>br_pi := j\<rparr>)"
  "(put_outbound x s)\<lparr>br_pubSent := sent\<rparr> = put_outbound x (s\<lparr>br_pubSent := sent\<rparr>)"
  by (simp_all add: put_outbound_def)

definition inbound_part :: "ext \<Rightarrow> pub_env \<Rightarrow> nat \<Rightarrow> goerror + EthBlock \<Rightarrow> bridge \<Rightarrow> bridge exec" where
  "inbound_part e penv number block s = exec_bind (ProcessNewBlock e penv block (br_pi s)) (\<lambda>(_, pi1).
     Done (s\<lparr>br_pi := DeleteExpired (of_nat number) (pi1\<lparr>pub_CurrentHeight := of_nat number\<rparr>)\<rparr>))"

lemma independent_inbound: "independent put_outbound (inbound_part e penv number block)"
  by (simp add: independent_def inbound_part_def case_prod_unfold)

lemma independent_move_pub: "independent put_outbound (move_pub_funds e senv jenv h)"
  unfolding independent_def move_pub_funds_def
  by (auto intro!: exec_bind_cong simp: Let_def split: option.splits sum.splits prod.splits)

definition late_outbounds :: "ext \<Rightarrow> nat \<Rightarrow> OutBoundReq list \<Rightarrow> bridge \<Rightarrow> bridge" where
  "late_outbounds e n rs s =
     (add_outbounds e rs s)\<lparr>br_metric := UpdateOutboundTxNum (outboundTxNum (br_metric s) + n) (br_metric s)\<rparr>"

lemma late_out_put:
  "late_outbounds e n rs s = put_outbound
     ((\<lambda>(p, m). (p @ map (\<lambda>r. (outbound_key e r, r)) rs, UpdateOutboundTxNum (outboundTxNum m + n) m)) (get_outbound s)) s"
  by (simp add: late_outbounds_def add_outbounds_def put_outbound_def get_outbound_def jolt_fold_add)

lemma late_out_commute:
  "independent put_outbound f \<Longrightarrow> f (late_outbounds e n rs s) = exec_map (late_outbounds e n rs) (f s)"
  unfolding late_out_put by (rule outbound_field.commute)

lemma add_late_out: "add_outbounds e rs s = late_outbounds e 0 rs s"
  by (simp add: late_outbounds_def add_outbounds_def UpdateOutboundTxNum_def)

lemma late_out_late [simp]: "late_outbounds e n rs (late_outbounds e k qs s) = late_outbounds e (k + n) (qs @ rs) s"
  by (simp add: late_outbounds_def add_outbounds_def UpdateOutboundTxNum_def)

lemma retry_outbound_linear:
  "retry_outbound_il e h adds s = exec_map (late_outbounds e (length (adds 3) + length (adds 4)) (adds 3 @ adds 4 @ adds 5))
     (retry_outbound h (add_outbounds e (adds 2) s))"
proof (cases "jolt_PopItem (fold (jolt_AddItem e) (adds 2) (br_jc s))")
  case (Done x)
  obtain r jc1 where x: "x = (r, jc1)" by (cases x)
  show ?thesis
    by (cases r; cases "chan_send reqCacheSize (outbound_SetItemHeight h (the r)) (OutboundReqChan jc1)")
      (simp_all add: retry_outbound_il_def retry_outbound_def jolt_PopItem_linear Done [unfolded jolt_fold_add x]
        add_outbounds_def late_outbounds_def jolt_fold_add jolt_Size_def fold_count UpdateOutboundTxNum_def Let_def ac_simps)
qed (simp_all add: retry_outbound_il_def retry_outbound_def jolt_PopItem_linear add_outbounds_def)

lemma on_pub_block_inbound:
  "on_pub_block e penv senv jenv n block s =
     exec_bind (exec_bind (inbound_part e penv n block s) (retry_outbound (of_nat n))) (move_pub_funds e senv jenv (of_nat n))"
  by (simp add: on_pub_block_def inbound_part_def exec_bind_assoc case_prod_unfold Let_def)

text \<open>
  Whatever the status checks of outbound transactions put back while the handler of a public
  block runs, and wherever in it, the outcome is that of the undisturbed handler, run after
  the requests its \<open>PopItem\<close> visited were put back and before all the others were, with a
  gauge that may already count some of the later ones.
\<close>

theorem pub_block_interleaved:
  "on_pub_block_il e penv senv jenv n block adds s = exec_map
     (late_outbounds e (length (adds 3) + length (adds 4)) (concat (map adds [3..<8])))
     (on_pub_block e penv senv jenv n block (add_outbounds e (adds 0 @ adds 1 @ adds 2) s))"
proof -
  have il: "[3..<8] = [3,4,5,6,7::nat]" by (simp add: upt_rec)
  have "on_pub_block_il e penv senv jenv n block adds s =
      exec_bind (inbound_part e penv n block (late_outbounds e 0 (adds 0) s)) (\<lambda>s0.
      exec_bind (retry_outbound_il e (of_nat n) adds (late_outbounds e 0 (adds 1) s0)) (\<lambda>s2.
      exec_bind (move_pub_funds e senv jenv (of_nat n) (late_outbounds e 0 (adds 6) s2)) (\<lambda>s3.
      Done (late_outbounds e 0 (adds 7) s3))))"
    unfolding on_pub_block_il_def add_late_out by (simp add: inbound_part_def exec_bind_assoc case_prod_unfold Let_def)
  then show ?thesis
    unfolding on_pub_block_inbound add_late_out late_out_commute [OF independent_inbound] il
    by (simp add: retry_outbound_linear add_late_out exec_bind_assoc late_out_commute [OF independent_move_pub]
        exec_map_def [symmetric])
qed

end
