(* ===== verification/Bridge_Payout.thy ===== *)
theory Bridge_Payout
  imports Bridge_Delivery
begin

text \<open>
  From a payment on the Joltify chain to its payout: a payable message is broadcast as a
  transfer of the token, signed by the latest pool, after the next block of the public
  chain, when the node and the signature service answer (\<open>payment_paid_out\<close>).
\<close>

section \<open>A node that answers\<close>

text \<open>
  The node knows its chain and takes transactions, the binding builds a call when its signer
  signs, and the service signs for the pool \<open>pk\<close> with one signature of 65 bytes.
\<close>

definition healthy_node :: "ext \<Rightarrow> send_env \<Rightarrow> string \<Rightarrow> bool" where
  "healthy_node e env pk \<longleftrightarrow> (\<exists>c. NetworkID env = Inr (Some c))
   \<and> (\<forall>msgs h. \<exists>resp sg s. KeySign (tss_sign env) pk msgs h [] ''0.15.0'' = Inr resp \<and> ks_Success resp
        \<and> Signatures resp = [sg] \<and> SerializeSig e sg True = Done (Inr s) \<and> length s = 65)
   \<and> (\<forall>c raw sg. \<exists>tx. WithSignature env c raw sg = Inr tx)
   \<and> (\<forall>opts m args. (\<forall>raw. \<exists>tx. opts_Signer opts (opts_From opts) raw = Done (Inr tx)) \<longrightarrow>
        (\<exists>tx. bc_Transact (transactor_contract (token_Transactor (TokenInstance env))) opts m args = Done (Inr tx)))
   \<and> (\<forall>tx. SendTransaction env tx = None)"

lemma tssSign_healthy:
  assumes "healthy_node e env pk"
  shows "\<exists>s. tssSign e env msg pk h = Done (Inr s) \<and> length s = 65"
proof -
  obtain resp sg s where "KeySign (tss_sign env) pk [base64_EncodeToString msg] h [] ''0.15.0'' = Inr resp"
    "ks_Success resp" "Signatures resp = [sg]" "SerializeSig e sg True = Done (Inr s)" "length s = 65"
    using assms unfolding healthy_node_def by blast
  then show ?thesis by (simp add: tssSign_def)
qed

lemma SendToken_healthy:
  assumes "healthy_node e env pk" and "pk \<noteq> []"
  shows "\<exists>hash sent'. SendToken e env pi pk sender receiver amount h sent = Done ((hash, None), sent')"
proof -
  obtain c where c: "NetworkID env = Inr (Some c)" using assms(1) unfolding healthy_node_def by blast
  obtain txo where txo: "composeTx e env pk sender (Some c) h = Inr txo" by (simp add: composeTx_def)
  have "\<exists>tx. opts_Signer txo (opts_From txo) raw = Done (Inr tx)" for raw
  proof -
    obtain s where s: "tssSign e env (SignerHash env (Some c) raw) pk h = Done (Inr s)" "length s = 65"
      using tssSign_healthy [OF assms(1)] by blast
    obtain tx where "WithSignature env (Some c) raw s = Inr tx" using assms(1) unfolding healthy_node_def by blast
    then show ?thesis using txo s by (auto simp: composeTx_def)
  qed
  then have "\<forall>raw. \<exists>tx. opts_Signer (txo\<lparr>opts_NoSend := True\<rparr>) (opts_From (txo\<lparr>opts_NoSend := True\<rparr>)) raw = Done (Inr tx)"
    by simp
  then obtain tx where t: "token_Transfer (token_Transactor (TokenInstance env)) (txo\<lparr>opts_NoSend := True\<rparr>) receiver amount = Done (Inr tx)"
    using assms(1) unfolding healthy_node_def token_Transfer_def by blast
  have "SendTransaction env tx = None" using assms(1) unfolding healthy_node_def by blast
  then show ?thesis using c txo t assms(2) by (simp add: SendToken_def)
qed

lemma ProcessOutBound_healthy:
  assumes "binding_ok env token pack" and "healthy_node e env (Pk pool)" and "Pk pool \<noteq> []"
    and "snd (pub_lastTwoPools pi) = Some pool"
  shows "\<exists>hash tx. ProcessOutBound e env pi toAddr fromAddr amount h sent = Done (Inr hash, sent @ [tx])
    \<and> token_call token pack toAddr amount (stx_raw tx) \<and> signed_by e env (Pk pool) h tx \<and> hash = HashHex e (SignedTxHash env tx)"
proof -
  have key: "SendToken e env pi [] fromAddr toAddr amount h sent = SendToken e env pi (Pk pool) fromAddr toAddr amount h sent"
    using assms(3,4) by (auto simp: SendToken_def pub_GetPool_def split: sum.splits)
  obtain hash sent' where s: "SendToken e env pi (Pk pool) fromAddr toAddr amount h sent = Done ((hash, None), sent')"
    using SendToken_healthy [OF assms(2,3)] by blast
  from assms(1,3) s show ?thesis
    by (cases rule: SendToken_cases) (auto simp: ProcessOutBound_def key s)
qed

section \<open>The way of one payout\<close>

lemma jolt_pool_inv: "bridge_inv e s \<Longrightarrow> jolt_lastTwoPools (br_jc s) = pub_lastTwoPools (br_pi s)"
  by (simp add: bridge_inv_def)

lemma no_outbound:
  assumes "outbound_flight s = {#}"
  shows "OutboundReqChan (br_jc s) = []" and "RetryOutboundReq (br_jc s) = []"
  using assms by (simp_all add: outbound_flight_def jolt_retry_bag_def)

lemma retry_outbound_single:
  assumes "RetryOutboundReq (br_jc s) = [(k, r)]" and "0 < k" and "OutboundReqChan (br_jc s) = []"
    and "retry_outbound h s = Done s'"
  shows "OutboundReqChan (br_jc s') = [outbound_SetItemHeight h r]"
  using assms
  by (auto simp: retry_outbound_def jolt_PopItem_def scan_max_def exec_bind_eq_Done_iff chan_send_Done_iff Let_def split: if_splits)

lemma pub_block_outbound:
  assumes "on_pub_block e penv senv env n block s = Done s'"
  shows "\<exists>s1 s2. br_jc s1 = br_jc s \<and> retry_outbound (of_nat n) s1 = Done s2 \<and> br_jc s' = br_jc s2"
proof -
  obtain pi2 s2 where r: "retry_outbound (of_nat n) (s\<lparr>br_pi := pi2\<rparr>) = Done s2" and m: "move_pub_funds e senv env (of_nat n) s2 = Done s'"
    using assms by (auto simp: on_pub_block_def exec_bind_eq_Done_iff Let_def)
  have "br_jc s' = br_jc s2" using move_pub_funds_frame [OF m] by auto
  then show ?thesis using r by (intro exI [of _ "s\<lparr>br_pi := pi2\<rparr>"] exI [of _ s2]) simp
qed

lemma take_and_pay:
  assumes "binding_ok senv token pack" and "OutboundReqChan (br_jc s) = [r]" and "bridge_inv e s"
    and "snd (jolt_lastTwoPools (br_jc s)) = Some pool" and "signs env s" and "healthy_node e senv (Pk pool)" and "Pk pool \<noteq> []"
  shows "\<exists>s' tx. on_outbound e env senv s = Done s' \<and> br_pubSent s' = br_pubSent s @ [tx]
    \<and> token_call token pack (or_outReceiverAddress r) (Amount (or_coin r)) (stx_raw tx)
    \<and> signed_by e senv (Pk pool) (or_blockHeight r) tx
    \<and> br_checks s' = br_checks s @ [SendCheck r (HashHex e (SignedTxHash senv tx))]"
proof -
  have w: "CheckWhetherSigner env (VaultInfo pool) = Done (Inr True)" using assms(4,5) by (simp add: signs_def)
  have p: "snd (pub_lastTwoPools (br_pi s)) = Some pool" using assms(4) jolt_pool_inv [OF assms(3)] by simp
  obtain hash tx where t: "ProcessOutBound e senv (br_pi s) (or_outReceiverAddress r) (or_fromPoolAddr r) (Amount (or_coin r))
      (or_blockHeight r) (br_pubSent s) = Done (Inr hash, br_pubSent s @ [tx])"
    and rest: "token_call token pack (or_outReceiverAddress r) (Amount (or_coin r)) (stx_raw tx)"
      "signed_by e senv (Pk pool) (or_blockHeight r) tx" "hash = HashHex e (SignedTxHash senv tx)"
    using ProcessOutBound_healthy [OF assms(1,6,7) p] by blast
  have "\<exists>s'. on_outbound e env senv s = Done s' \<and> br_pubSent s' = br_pubSent s @ [tx]
      \<and> br_checks s' = br_checks s @ [SendCheck r (HashHex e (SignedTxHash senv tx))]"
    using assms(2,4) w t rest(3) by (simp add: on_outbound_def jolt_GetPool_def GetOutBoundInfo_def Let_def)
  then show ?thesis using rest(1,2) by blast
qed

section \<open>The payout of a payment\<close>

text \<open>
  C6: a payment is paid out. When no other payout is in flight and a successful transaction of
  the Joltify chain carries one payable message (a transfer to a pool of the outbound coin
  and enough fee), then the next block of the public chain moves the request into the
  channel, and a node that signs for the latest pool broadcasts exactly one transaction for
  it: the token transfer of the message's own amount to the address of its payer's key,
  signed with the latest pool's key; then it checks for that transaction and the request is
  still in flight. This needs a node and a service that answer and a request whose hash is
  not 0.
\<close>

theorem payment_paid_out:
  assumes "sdk_ok M e" and "binding_ok senv token pack" and "bridge_inv e s" and "outbound_flight s = {#}"
    and "jolt_lastTwoPools (br_jc s) = (Some p0, Some p1)" and "TxDecoder qenv rawTx = Inr (Some msgs)"
    and "List.map_filter (outbound_claim e qenv (p0, p1)) msgs = [(receiver, amount)]"
    and "r = claim_req (hex_EncodeToString (TxHash qenv rawTx)) p1 h (receiver, amount)" and "0 < outbound_key e r"
    and "handle e (JoltTx qenv 0 h rawTx) s = Done s1"
    and "event_ok (PubBlock penv senv' jenv n block)" and "handle e (PubBlock penv senv' jenv n block) s1 = Done s2"
    and "snd (jolt_lastTwoPools (br_jc s2)) = Some pool" and "signs env s2" and "healthy_node e senv (Pk pool)" and "Pk pool \<noteq> []"
  shows "\<exists>s3 tx. handle e (TakeOutbound env senv) s2 = Done s3 \<and> br_pubSent s3 = br_pubSent s2 @ [tx]
    \<and> token_call token pack receiver amount (stx_raw tx) \<and> signed_by e senv (Pk pool) (of_nat n) tx
    \<and> br_checks s3 = br_checks s2 @ [SendCheck (outbound_SetItemHeight (of_nat n) r) (HashHex e (SignedTxHash senv tx))]
    \<and> outbound_flight s3 = {#out_id r#}"
proof -
  have i1: "bridge_inv e s1" using handle_inv [OF assms(1,3) _ assms(10)] by simp
  have i2: "bridge_inv e s2" by (rule handle_inv [OF assms(1) i1 assms(11,12)])
  have claims: "tx_claims e qenv h rawTx (br_jc s) = [r]" using assms(5-8) by (simp add: tx_claims_def)
  have tx: "on_jolt_tx e qenv 0 h rawTx s = Done s1" and pb: "on_pub_block e penv senv' jenv n block s1 = Done s2"
    using assms(10,12) by simp_all
  then have "br_jc s1 = jolt_AddItem e r (br_jc s)"
    using claims by (auto simp: on_jolt_tx_def exec_bind_eq_Done_iff dest!: CheckOutBoundTx_claims [OF assms(1)])
  then have q: "RetryOutboundReq (br_jc s1) = [(outbound_key e r, r)]" "OutboundReqChan (br_jc s1) = []"
    using no_outbound [OF assms(4)] by (simp_all add: jolt_AddItem_def)
  obtain t1 t2 where t: "br_jc t1 = br_jc s1" "retry_outbound (of_nat n) t1 = Done t2" "br_jc s2 = br_jc t2"
    using pub_block_outbound [OF pb] by blast
  then have c: "OutboundReqChan (br_jc s2) = [outbound_SetItemHeight (of_nat n) r]"
    using retry_outbound_single [OF _ assms(9) _ t(2)] q by simp
  have f: "outbound_flight s2 = {#out_id r#}"
    using outbound_flight_tx [OF assms(1) tx] flight_pub_block [OF assms(1) i1 assms(11) pb] assms(4) claims by simp
  have id: "or_outReceiverAddress (outbound_SetItemHeight k r) = receiver" "Amount (or_coin (outbound_SetItemHeight k r)) = amount"
    "or_blockHeight (outbound_SetItemHeight k r) = k" for k
    by (simp_all add: assms(8) claim_req_def newOutboundReq_def outbound_SetItemHeight_def)
  obtain s3 tx where "on_outbound e env senv s2 = Done s3" "br_pubSent s3 = br_pubSent s2 @ [tx]"
    "token_call token pack receiver amount (stx_raw tx)" "signed_by e senv (Pk pool) (of_nat n) tx"
    "br_checks s3 = br_checks s2 @ [SendCheck (outbound_SetItemHeight (of_nat n) r) (HashHex e (SignedTxHash senv tx))]"
    using take_and_pay [OF assms(2) c i2 assms(13-16)] unfolding id by blast
  moreover from this(1) have "outbound_flight s3 = {#out_id r#}" using outbound_flight_taken [of e env senv s2 s3] assms(14) f by simp
  ultimately show ?thesis by auto
qed

section \<open>A run for the witness\<close>

definition sample_payment :: query_env where
  "sample_payment = sample_queries\<lparr>TxDecoder := (\<lambda>_. Inr (Some
     [BankSend \<lparr>FromAddress = ''a'', ToAddress = ''j'',
        ms_Amount = [\<lparr>Denom = ''JOLT'', Amount = 10\<rparr>, \<lparr>Denom = ''JUSD'', Amount = 77\<rparr>]\<rparr>]))\<rparr>"

definition sample_claim :: OutBoundReq where
  "sample_claim = claim_req (hex_EncodeToString [5]) (sample_cached ''j'') 3 ([5], 77)"

lemma sample_payment_decoded:
  "TxDecoder sample_payment raw = Inr (Some [BankSend \<lparr>FromAddress = ''a'', ToAddress = ''j'',
        ms_Amount = [\<lparr>Denom = ''JOLT'', Amount = 10\<rparr>, \<lparr>Denom = ''JUSD'', Amount = 77\<rparr>]\<rparr>])"
  "TxHash sample_payment raw = [5]" "qe_grpc sample_payment = sample_grpc"
  by (simp_all add: sample_payment_def sample_queries_def)

lemma sample_payable:
  "outbound_claim sample_ext sample_payment (sample_cached ''k'', sample_cached ''j'') (BankSend \<lparr>FromAddress = ''a'', ToAddress = ''j'',
        ms_Amount = [\<lparr>Denom = ''JOLT'', Amount = 10\<rparr>, \<lparr>Denom = ''JUSD'', Amount = 77\<rparr>]\<rparr>) = Some ([5], 77)"
proof -
  have "AccAddressFromBech32 sample_ext ''j'' = Inr [106]" "AccountPubKeyToEthAddress sample_ext [5] = Inr [5]"
    by (simp_all add: sample_ext_def AccountPubKeyToEthAddress_def)
  moreover have "JoltifyAddress (sample_cached ''j'') = [106]" by (simp add: sample_cached_def)
  ultimately show ?thesis
    by (simp add: outbound_claim_def sample_payment_decoded sample_queries_run hex.dec_enc config_defs
        del: hex_EncodeToString.simps hex_DecodeString.simps)
qed

lemma sample_claim_key: "0 < outbound_key sample_ext sample_claim"
proof -
  have "big_Bytes 3 = [3]" by (simp add: big_Bytes.simps)
  then show ?thesis
    by (simp add: outbound_key_def outbound_Hash_def sample_claim_def claim_req_def newOutboundReq_def sample_ext_def big_SetBytes_def
        sample_cached_def Let_def)
qed

lemma sample_payment_checked:
  assumes "jolt_lastTwoPools jc = (Some (sample_cached ''k''), Some (sample_cached ''j''))"
  shows "\<exists>jc'. CheckOutBoundTx sample_ext sample_payment 3 [] jc = Done jc'"
proof -
  have "AccAddressFromBech32 sample_ext ''j'' = Inr [106]" by (simp add: sample_ext_def)
  moreover have "JoltifyAddress (sample_cached ''j'') = [106]" by (simp add: sample_cached_def)
  ultimately show ?thesis using assms
    by (simp add: CheckOutBoundTx_def jolt_GetPool_def processMsg_def sample_payment_decoded AccountPubKeyToEthAddress_def
        sample_queries_run hex.dec_enc processDemonAndFee_def Let_def outbound_Verify_eq [OF sample_ext_ok] config_defs
        del: hex_EncodeToString.simps hex_DecodeString.simps)
qed

text \<open>A block the node does not answer for, with one request waiting.\<close>

lemma pub_block_unread:
  assumes "RetryOutboundReq (br_jc s) = [(k, r)]" and "0 < k" and "OutboundReqChan (br_jc s) = []" and "pub_moveFundReq (br_pi s) = []"
  obtains s' where "handle e (PubBlock penv senv env n (Inl err)) s = Done s'" and "br_jc s' =
    (br_jc s)\<lparr>RetryOutboundReq := [], OutboundReqChan := [outbound_SetItemHeight (of_nat n) r]\<rparr>"
proof -
  have "\<exists>s'. handle e (PubBlock penv senv env n (Inl err)) s = Done s' \<and> br_jc s' =
      (br_jc s)\<lparr>RetryOutboundReq := [], OutboundReqChan := [outbound_SetItemHeight (of_nat n) r]\<rparr>"
    using assms
    by (simp add: on_pub_block_def ProcessNewBlock_def retry_outbound_def jolt_PopItem_def scan_max_def chan_send_def
        reqCacheSize_def move_pub_funds_def pub_PopMoveFundItemAfterBlock_def DeleteExpired_def Let_def scan_min_def)
  then show thesis using that by blast
qed

lemma sample_healthy_node: "healthy_node sample_ext sample_node ''j''"
  by (auto simp: healthy_node_def sample_node_def sample_service_def KeySign_def sample_sig_serialised sample_token_def sample_contract_def)

theorem payment_paid_out_witness:
  "\<exists>s1 s2 s3 tx. handle sample_ext (JoltTx sample_payment 0 3 []) sample_filled = Done s1
    \<and> handle sample_ext (PubBlock sample_penv sample_node sample_jenv 9 (Inl ''timeout'')) s1 = Done s2
    \<and> handle sample_ext (TakeOutbound sample_jenv sample_node) s2 = Done s3
    \<and> br_pubSent s3 = br_pubSent s2 @ [tx] \<and> token_call [7] sample_pack [5] 77 (stx_raw tx)
    \<and> outbound_flight s3 = {#out_id sample_claim#}"
proof -
  let ?p0 = "sample_cached ''k''" and ?p1 = "sample_cached ''j''"
  have pools: "jolt_lastTwoPools (br_jc sample_filled) = (Some ?p0, Some ?p1)"
    using jolt_pool_inv [OF sample_filled_inv] by (simp add: sample_filled_state)
  have chan: "OutboundReqChan (br_jc sample_filled) = []"
    by (simp add: sample_filled_def upd_both_def jolt_upd_eq initial_bridge_def sample_started_def NewJoltifyBridge_def)
  then have none: "outbound_flight sample_filled = {#}"
    by (simp add: outbound_flight_def jolt_retry_bag_def sample_filled_state map_filter_simps)
  have dec: "TxDecoder sample_payment [] = Inr (Some [BankSend \<lparr>FromAddress = ''a'', ToAddress = ''j'',
      ms_Amount = [\<lparr>Denom = ''JOLT'', Amount = 10\<rparr>, \<lparr>Denom = ''JUSD'', Amount = 77\<rparr>]\<rparr>])" (is "_ = Inr (Some ?msgs)")
    by (rule sample_payment_decoded)
  have claims: "List.map_filter (outbound_claim sample_ext sample_payment (?p0, ?p1)) ?msgs = [([5], 77)]"
    by (simp add: map_filter_simps sample_payable)
  have req: "sample_claim = claim_req (hex_EncodeToString (TxHash sample_payment [])) ?p1 3 ([5], 77)"
    by (simp only: sample_claim_def sample_payment_decoded)
  obtain jc1 where c1: "CheckOutBoundTx sample_ext sample_payment 3 [] (br_jc sample_filled) = Done jc1"
    using sample_payment_checked [OF pools] by blast
  let ?s1 = "sample_filled\<lparr>br_jc := jc1\<rparr>"
  have h1: "handle sample_ext (JoltTx sample_payment 0 3 []) sample_filled = Done ?s1" using c1 by (simp add: on_jolt_tx_def)
  have "tx_claims sample_ext sample_payment 3 [] (br_jc sample_filled) = [sample_claim]"
    using pools dec claims req by (simp add: tx_claims_def)
  then have jc1: "jc1 = jolt_AddItem sample_ext sample_claim (br_jc sample_filled)"
    using CheckOutBoundTx_claims [OF sample_ext_ok c1] by simp
  have q: "RetryOutboundReq (br_jc ?s1) = [(outbound_key sample_ext sample_claim, sample_claim)]" "OutboundReqChan (br_jc ?s1) = []"
    "pub_moveFundReq (br_pi ?s1) = []"
    using chan by (simp_all add: jc1 jolt_AddItem_def sample_filled_state)
  obtain s2 where h2: "handle sample_ext (PubBlock sample_penv sample_node sample_jenv 9 (Inl ''timeout'')) ?s1 = Done s2"
    and jc2: "br_jc s2 = (br_jc ?s1)\<lparr>RetryOutboundReq := [], OutboundReqChan := [outbound_SetItemHeight (of_nat 9) sample_claim]\<rparr>"
    by (rule pub_block_unread [OF q(1) sample_claim_key q(2,3)])
  have p2: "jolt_lastTwoPools (br_jc s2) = (Some ?p0, Some ?p1)" using pools by (simp add: jc2 jc1 jolt_AddItem_def)
  then have sg: "signs sample_jenv s2"
    by (simp add: signs_def CheckWhetherSigner_def sample_jenv_def sample_cached_def sample_vault_def)
  have last: "snd (jolt_lastTwoPools (br_jc s2)) = Some ?p1" using p2 by simp
  have hk: "healthy_node sample_ext sample_node (Pk ?p1)" "Pk ?p1 \<noteq> []" using sample_healthy_node by (simp_all add: sample_cached_def)
  have ok: "event_ok (PubBlock sample_penv sample_node sample_jenv 9 (Inl ''timeout''))" by simp
  show ?thesis
    using payment_paid_out [OF sample_ext_ok sample_binding_ok sample_filled_inv none pools dec claims req sample_claim_key h1 ok h2
        last sg hk] h1 h2 by blast
qed

end
