(* ===== verification/Jolt_Encode.thy ===== *)
theory Jolt_Encode
  imports Bridge_Prelude
begin

text \<open>
  \<open>joltifybridge/tx_encode.go\<close>: the codecs a node encodes and decodes transactions with.
  The codecs are the cosmos-sdk's: what a new one holds and what a registration adds are
  parameters. The interface registry is one object that the marshaler and the transaction
  configuration point to, so a heap holds the objects and the configuration their addresses.
\<close>

section \<open>Objects\<close>

record ('a, 'r) codec_heap =
  aminos :: "'a list"
  registries :: "'r list"

text \<open>What the sdk provides: fresh codecs and the registrations of the three packages the code calls.\<close>

record ('a, 'r, 'm) codec_lib =
  new_amino :: 'a
  new_registry :: 'r
  DefaultSignModes :: 'm
  std_RegisterLegacyAminoCodec :: "'a \<Rightarrow> 'a"
  std_RegisterInterfaces :: "'r \<Rightarrow> 'r"
  app_RegisterLegacyAminoCodec :: "'a \<Rightarrow> 'a"
  simapp_RegisterInterfaces :: "'r \<Rightarrow> 'r"

text \<open>A proto codec is the address of its registry; a transaction configuration keeps its codec.\<close>

record proto_codec =
  codec_registry :: nat

record 'm tx_config =
  protoCodec :: proto_codec
  signModes :: 'm

record 'm EncodingConfig =
  InterfaceRegistry :: nat
  Marshaler :: proto_codec
  TxConfig :: "'m tx_config"
  Amino :: nat

definition NewLegacyAmino :: "('a, 'r, 'm) codec_lib \<Rightarrow> ('a, 'r) codec_heap \<Rightarrow> nat \<times> ('a, 'r) codec_heap" where
  "NewLegacyAmino lib h = (length (aminos h), h\<lparr>aminos := aminos h @ [new_amino lib]\<rparr>)"

definition NewInterfaceRegistry :: "('a, 'r, 'm) codec_lib \<Rightarrow> ('a, 'r) codec_heap \<Rightarrow> nat \<times> ('a, 'r) codec_heap" where
  "NewInterfaceRegistry lib h = (length (registries h), h\<lparr>registries := registries h @ [new_registry lib]\<rparr>)"

text \<open>A registration changes the object in place.\<close>

definition on_amino :: "('a \<Rightarrow> 'a) \<Rightarrow> nat \<Rightarrow> ('a, 'r) codec_heap \<Rightarrow> ('a, 'r) codec_heap" where
  "on_amino f p h = h\<lparr>aminos := (aminos h)[p := f (aminos h ! p)]\<rparr>"

definition on_registry :: "('r \<Rightarrow> 'r) \<Rightarrow> nat \<Rightarrow> ('a, 'r) codec_heap \<Rightarrow> ('a, 'r) codec_heap" where
  "on_registry f p h = h\<lparr>registries := (registries h)[p := f (registries h ! p)]\<rparr>"

section \<open>The configuration\<close>

definition genEncodingConfig ::
    "('a, 'r, 'm) codec_lib \<Rightarrow> ('a, 'r) codec_heap \<Rightarrow> 'm EncodingConfig \<times> ('a, 'r) codec_heap" where
  "genEncodingConfig lib h =
     (let (cdc, h1) = NewLegacyAmino lib h;
          (interfaceRegistry, h2) = NewInterfaceRegistry lib h1;
          marshaler = \<lparr>codec_registry = interfaceRegistry\<rparr>
      in (\<lparr>InterfaceRegistry = interfaceRegistry, Marshaler = marshaler,
           TxConfig = \<lparr>protoCodec = marshaler, signModes = DefaultSignModes lib\<rparr>, Amino = cdc\<rparr>, h2))"

text \<open>The amino codec gets the chain's own modules, the interface registry those of \<open>simapp\<close>.\<close>

definition MakeEncodingConfig ::
    "('a, 'r, 'm) codec_lib \<Rightarrow> ('a, 'r) codec_heap \<Rightarrow> 'm EncodingConfig \<times> ('a, 'r) codec_heap" where
  "MakeEncodingConfig lib h =
     (let (encodingConfig, h1) = genEncodingConfig lib h;
          h2 = on_amino (std_RegisterLegacyAminoCodec lib) (Amino encodingConfig) h1;
          h3 = on_registry (std_RegisterInterfaces lib) (InterfaceRegistry encodingConfig) h2;
          h4 = on_amino (app_RegisterLegacyAminoCodec lib) (Amino encodingConfig) h3;
          h5 = on_registry (simapp_RegisterInterfaces lib) (InterfaceRegistry encodingConfig) h4
      in (encodingConfig, h5))"

text \<open>
  The registrations come after the marshaler and the transaction configuration were made, and
  reach both, since they share the registry; the codecs of other configurations stay as
  they are, so every call makes a configuration of its own.
\<close>

lemma MakeEncodingConfig_result:
  assumes "MakeEncodingConfig lib h = (cfg, h')"
  shows "registries h' ! codec_registry (protoCodec (TxConfig cfg))
      = simapp_RegisterInterfaces lib (std_RegisterInterfaces lib (new_registry lib))"
    and "Marshaler cfg = protoCodec (TxConfig cfg)" "codec_registry (Marshaler cfg) = InterfaceRegistry cfg"
    and "aminos h' ! Amino cfg = app_RegisterLegacyAminoCodec lib (std_RegisterLegacyAminoCodec lib (new_amino lib))"
    and "take (length (registries h)) (registries h') = registries h" "take (length (aminos h)) (aminos h') = aminos h"
  using assms
  by (auto simp: MakeEncodingConfig_def genEncodingConfig_def NewLegacyAmino_def NewInterfaceRegistry_def
      on_amino_def on_registry_def Let_def nth_append)

end
