(* ===== verification/Spec2Isabelle.thy ===== *)
theory Spec2Isabelle
  imports Validators Pub_Selector Pub_Send Token_Calls Token_Events Jolt_Bridge_Correct Bridge_Skipped Bridge_Recycle Bridge_Interleave Bridge_Payout Jolt_Encode
begin

text \<open>
  A model of oppy-bridge (package path \<open>joltifychain-bridge\<close>): the program that each
  validator runs to move value between a public EVM chain and the Joltify chain. A user who
  sends tokens to a pool address on the public chain, and a fee for that transfer, gets them
  minted on the Joltify chain (inbound); a user who sends coins and a fee to a pool address
  on the Joltify chain gets tokens paid out on the public chain (outbound). The pool keys
  are threshold keys of the validators; when the validators change, a new key is generated,
  its pool is announced, and the funds of the retired pool are moved to the latest one.

  \<^bold>\<open>The parts and their theories.\<close>

  \<^item> \<open>Bridge_Prelude\<close>: a Go call's outcome (\<open>exec\<close>: finished, panicked, or blocked for ever
    on a channel), its sequencing and loops, 64-bit integers. \<open>Go_Codec\<close>, \<open>Go_Text\<close>, \<open>Go_Sync\<close>:
    what the code uses of Go's library: hex, base64, decimal text, \<open>math/big\<close> bytes,
    \<open>sync.Map\<close>, bounded channels. A \<open>sync.Map\<close> is the list of its entries in visiting order.
  \<^item> \<open>Bridge_Types\<close>: \<open>common/pool.go\<close>, \<open>config/types.go\<close>, and the record \<open>ext\<close> of the
    third-party functions (cosmos-sdk, go-ethereum, btcec) as parameters.
  \<^item> \<open>Misc_Helper\<close>: \<open>misc/helper.go\<close>. \<open>Tss_Client\<close>: \<open>tssclient/\<close>. \<open>Validators\<close>: \<open>validators/\<close>.
  \<^item> \<open>Bridge_Queues\<close>: the three interfaces the event loop uses of either chain package, as
    locales: \<open>retry_pool\<close> (\<open>AddItem\<close>, \<open>PopItem\<close>, \<open>Size\<close>), \<open>fund_queue\<close> (the retired pools by
    height) and \<open>pool_cache\<close> (\<open>UpdatePool\<close>, \<open>GetPool\<close>). \<open>Pub_Types\<close> and \<open>Jolt_Types\<close> hold the
    two states \<open>PubChainInstance\<close> and \<open>JoltifyChainInstance\<close> and interpret all three.
  \<^item> \<open>Pub_Inbound\<close>, \<open>Pub_Inbound_Correct\<close>: \<open>pubchain/tx_inbound.go\<close>, from a block to the
    mint requests, and \<open>Pub_Selector\<close>, what is taken for a transfer there; \<open>Pub_Book\<close>, the
    abstract book of transfers and fees that it implements. \<open>Pub_Send\<close>:
    \<open>pubchain/tx_send.go\<close> and the fund moving. \<open>Token_Binding\<close>, \<open>Token_Calls\<close>, \<open>Token_Events\<close>:
    \<open>generated/erc20.go\<close> over go-ethereum's \<open>BoundContract\<close>. The bridge uses the first of the three
    only; the others are the rest of the calls, and the iterators and subscriptions of events. A
    search for events runs on its own: between and during the calls of \<open>Next\<close> it puts logs on
    the channel and may end (\<open>moment\<close>).
  \<^item> \<open>Jolt_Query\<close>: the queries of \<open>joltifybridge/helper.go\<close> over a gRPC client that is a parameter.
    \<open>Jolt_Outbound\<close>: from a Joltify transaction to a payout request (\<open>joltifybridge/tx_outbound.go\<close>
    and \<open>CheckOutBoundTx\<close>). \<open>Jolt_Bridge\<close>, \<open>Jolt_Bridge_Correct\<close>: signing, gas, broadcast,
    minting, pool submission and the validators (\<open>bridge.go\<close>, \<open>mint.go\<close>, \<open>event.go\<close>,
    \<open>validator.go\<close>, \<open>composeAndSend\<close> of \<open>helper.go\<close>). \<open>Jolt_Encode\<close>: \<open>joltifybridge/tx_encode.go\<close>,
    the codecs and the registry they share.
  \<^item> \<open>Bridge_Loop\<close>: the event loop of \<open>bridge/joltifyBridge.go\<close> and \<open>bridge/helper.go\<close>; the state
    \<open>bridge\<close> is both chain instances, what each chain was sent, the status checks that still
    run, and the gauges of \<open>monitor/metric.go\<close> (\<open>Bridge_Monitor\<close>). \<open>Bridge_Frames\<close> says what
    each part of a handler changes; \<open>Bridge_Loop_Correct\<close>, \<open>Bridge_Pools\<close>, \<open>Bridge_Liveness\<close>
    hold the properties of runs; \<open>Bridge_Interleave\<close> shows that what other goroutines do
    inside a block handler is covered by the atomic handlers; \<open>Bridge_Agreement\<close> relates
    runs to the book and to each other; \<open>Bridge_Delivery\<close> and \<open>Bridge_Payout\<close> follow one
    transfer to its mint and one payment to its payout; \<open>Bridge_Skipped\<close> follows the caches when
    a rotation of the pools was missed, \<open>Bridge_Recycle\<close> a mint request that the chain has already.
  \<^item> \<open>Bridge_Config\<close>: the flags and defaults of \<open>config/config.go\<close>. \<open>Bridge_Start\<close>: the way from
    \<open>main\<close> over \<open>NewBridgeService\<close>, \<open>StartTssServer\<close>, the dialling and the subscriptions to the
    state the loop starts in, with every other way the start-up can end (\<open>service\<close>), the
    routes of \<open>bridge/http.go\<close>, and the way out: the wait group and \<open>TerminateBridge\<close>.

  \<^bold>\<open>How the model corresponds to the code.\<close> Definitions keep the code's names; where both chain
  packages have an operation of one name, \<open>pub_\<close> and \<open>jolt_\<close> tell them apart, and
  \<open>inbound_\<close>, \<open>outbound_\<close> the two request types. A nil pointer is \<open>None\<close> and its use without a
  check is \<open>Panic\<close>; an error result is \<open>goerror option\<close> or \<open>goerror + 'a\<close>, with the error's
  text. Logging is left out, except where a log line's arguments dereference a pointer.
  What a client or a service answers is a field of an environment record (\<open>pub_env\<close>,
  \<open>send_env\<close>, \<open>query_env\<close>, \<open>jolt_env\<close>, \<open>grpc_client\<close>, \<open>start_env\<close>), which may differ from call to call: the events of
  the loop carry the answers given while they are handled. What leaves the program is
  appended to an explicit list.

  Each case of the loop's \<open>select\<close> runs to its end before the next, so it is one atomic
  handler. The goroutines it starts poll a transaction's status and then at most call
  \<open>AddItem\<close>, on a \<open>sync.Map\<close>; they are pending checks that finish as events, in any order.
  In the code their \<open>AddItem\<close> may also come in the middle of a handler. The handlers that
  read a retry pool are those of the blocks: for these, \<open>on_jolt_block_il\<close> and
  \<open>on_pub_block_il\<close> allow any requests to be put back at each step, also between the \<open>Range\<close>
  and the \<open>LoadAndDelete\<close> of \<open>PopItem\<close>, and \<open>jolt_block_interleaved\<close>, \<open>pub_block_interleaved\<close>
  show that the outcome is that of the atomic handler with the puts before or after it (up
  to the count a gauge shows). Other handlers only store into a retry pool; there a put of
  a check before, between or after changes nothing but the visiting order.

  \<^bold>\<open>What the theorems show.\<close> For any run of the loop after \<open>main\<close> has started it: an invariant of both states
  (\<open>bridge_run_inv\<close>) and two ledgers of the requests in flight and of those that have left.
  The one of the payouts is exact: none is invented, doubled or lost (\<open>bridge_no_payout\<close>). The
  one of the mints is a bound, and exact when the transfers of each public block are new
  (\<open>bridge_no_mint\<close>). The loop refines an abstract machine (\<open>bridge_refines_book\<close>): a book keyed
  by transaction hashes, of transfers that wait, fees paid ahead and mints owed, with the
  last two pools. A reading of a public block is the book's steps for the transfers and payments
  in it and then its expiry (\<open>processEachBlock_book\<close>, \<open>DeleteExpired_book\<close>), an answer about the pools
  changes the pools (\<open>jolt_block_pools\<close>), and nothing else a node does changes the machine; so
  nodes that read the same agree (\<open>nodes_agree\<close>), and where the order of reading matters
  is the race of a rotation with a public block (\<open>rotation_race\<close>). The ledgers rest on the locales \<open>loop_relation\<close>, a relation
  respected by every elementary change and so by the handlers, \<open>ledger\<close> and \<open>exact_ledger\<close>;
  \<open>inbound_left\<close> and \<open>outbound_left\<close> say when a request leaves. When the services answer, one
  paid transfer is minted with the next block of the Joltify chain (\<open>paid_transfer_minted\<close>) and
  one payment is paid out with the next block of the public chain (\<open>payment_paid_out\<close>), from
  the event that brings it to the bytes that are broadcast. Per component:
  which transfers back the requests of a block, when a fee releases a transfer, which
  messages are paid out, that one call broadcasts at most one transaction and which, how
  the caches and the fund queues follow a rotation, that the validator set implements the
  abstract map update, what expires, what \<open>InitValidators\<close> needs to succeed, when a handler hangs,
  when the interrupt ends the process. Several theorems state what the code does in corners
  where that is surprising: an approval that is minted, a request that starves the retry
  pool, a rotation that was missed (over any run in which the skipped pool is never named
  first), the first filling of the cache, a mint another node was
  faster with (over any run in which the chain goes on answering that it has it), a transfer to a pool not yet heard of, funds just above the dust limit.

  \<^bold>\<open>Hypotheses on third-party code.\<close> \<open>sdk_ok M e\<close>: the decimals of the configuration parse, and
  \<open>sdk.Int\<close> panics beyond \<open>M\<close> bits. \<open>hash_ok\<close>: a transaction hash prints as its bytes in hex with a
  prefix of two characters. (\<open>token_not_pool\<close> is about the configuration: no known pool has the
  address of the token contract.) \<open>contract_ok\<close>, \<open>binding_ok\<close>, \<open>gas_ok\<close>: a bound
  contract builds one call and has it signed; signing keeps the transaction; multiplying a
  cost by the gas ratio does not lower it.
  \<open>builder_ok\<close>: the transaction builder keeps its messages and refuses a signature without
  a key. \<open>retry_ok\<close>: \<open>backoff.Retry\<close> returns what its last attempt returned.
  \<open>healthy\<close>, \<open>healthy_node\<close>: the clients and the signature service answer, for the two theorems on
  delivery only. Each has a
  concrete instance (\<open>sample_ext\<close>, \<open>sample_node\<close>, \<open>sample_jenv\<close>, \<open>first_answer\<close>).

  \<^bold>\<open>Bounds.\<close> Heights are 64-bit words with Go's wrap-around; the channels have the code's
  capacity of 512. The polls of \<open>InitValidators\<close> share one context with a deadline of ten seconds
  (\<open>wait_synced\<close>, times in milliseconds); each round sleeps for five, so the time left is the
  measure by which the loop ends, and there are at most two polls before the deadline.
  \<open>Next\<close> of an event iterator calls itself at most once more, by a
  measure. No definition uses fuel; every other loop is structural.

  \<^bold>\<open>Not modelled.\<close> The printers (\<open>ShowItems\<close>), the peer id that the signature library
  answers (\<open>GetTssNodeID\<close>), the bech32 prefix and the log levels \<open>main\<close> sets, the logging middleware of the
  http server. The time-outs of the other contexts, one for each call, are answers that are errors.
\<close>

end
